theory Spec2Isabelle
  imports Complex_Main "HOL-Library.Log_Nat" "HOL-Library.Multiset"
begin

section \<open>The financial computation engine of the tracker\<close>

text \<open>
  The engine is the set of pure functions of the calculation library
  (\<^verbatim>\<open>interestCalculations\<close>, \<^verbatim>\<open>transactionCalculations\<close>,
  \<^verbatim>\<open>accountCalculations\<close>, \<^verbatim>\<open>investmentCalculations\<close>,
  \<^verbatim>\<open>generateMonthlyReport\<close>) over the entity types of
  \<^verbatim>\<open>src/types/financial.ts\<close>. Every amount is a TypeScript \<^verbatim>\<open>number\<close>,
  an IEEE-754 double, so sums are rounded after every step and are neither
  associative nor exact; the embedding keeps that.
\<close>

subsection \<open>The type \<^verbatim>\<open>number\<close>\<close>

text \<open>
  A double is NaN, an infinity, the negative zero, or a finite value, kept as the
  rational it denotes (\<open>Num 0\<close> is the positive zero). The arithmetic rounds the exact
  result to the nearest double, ties to even, with the subnormal range and overflow
  to infinity of the binary64 format (53 significant bits, least exponent \<open>-1074\<close>).
\<close>

datatype number = NaN | PosInf | NegInf | NegZero | Num rat

definition pow2 :: "int \<Rightarrow> rat" where
  "pow2 e = (if 0 \<le> e then 2 ^ nat e else 1 / 2 ^ nat (- e))"

text \<open>\<open>ilog2 q\<close> is the exponent \<open>e\<close> with \<open>2\<^sup>e \<le> q < 2\<^sup>e\<^sup>+\<^sup>1\<close>, for \<open>q > 0\<close>.\<close>

definition ilog2 :: "rat \<Rightarrow> int" where
  "ilog2 q = (case quotient_of q of (a, b) \<Rightarrow>
     (let d = bitlen a - bitlen b in if pow2 d \<le> q then d else d - 1))"

text \<open>Rounding a rational to the nearest integer, a tie going to the even one.\<close>

definition rne :: "rat \<Rightarrow> int" where
  "rne x = (let f = \<lfloor>x\<rfloor>; r = x - of_int f in
     if r < 1 / 2 then f else if 1 / 2 < r then f + 1 else if even f then f else f + 1)"

text \<open>
  For \<open>q > 0\<close>: the exponent of the unit in the last place of the doubles around \<open>q\<close>
  (53 significant bits; the subnormal range has the fixed unit \<open>2\<^sup>-\<^sup>1\<^sup>0\<^sup>7\<^sup>4\<close>), the
  magnitude of the double nearest to \<open>q\<close>, and the overflow test: the rounded
  magnitude \<open>m \<times> 2\<^sup>u\<close> reaches \<open>2\<^sup>1\<^sup>0\<^sup>2\<^sup>4 = 2\<^sup>5\<^sup>3 \<times> 2\<^sup>9\<^sup>7\<^sup>1\<close>.
\<close>

definition quantum :: "rat \<Rightarrow> int" where
  "quantum q = max (ilog2 q - 52) (- 1074)"

definition round_pos :: "rat \<Rightarrow> rat" where
  "round_pos q = (let u = quantum q in of_int (rne (q / pow2 u)) * pow2 u)"

definition overflows :: "rat \<Rightarrow> bool" where
  "overflows q = (let u = quantum q in 971 < u \<or> (u = 971 \<and> 2 ^ 53 \<le> rne (q / pow2 u)))"

definition fround :: "rat \<Rightarrow> number" where
  "fround q =
     (if q = 0 then Num 0
      else if 0 < q then (if overflows q then PosInf else Num (round_pos q))
      else if overflows (- q) then NegInf
      else if round_pos (- q) = 0 then NegZero
      else Num (- round_pos (- q)))"

definition is_nan :: "number \<Rightarrow> bool" where
  "is_nan a = (a = NaN)"

definition is_inf :: "number \<Rightarrow> bool" where
  "is_inf a = (a = PosInf \<or> a = NegInf)"

definition is_zero :: "number \<Rightarrow> bool" where
  "is_zero a = (a = NegZero \<or> a = Num 0)"

text \<open>The sign bit (of a number that is not NaN).\<close>

fun sign_neg :: "number \<Rightarrow> bool" where
  "sign_neg NegInf = True"
| "sign_neg NegZero = True"
| "sign_neg (Num q) = (q < 0)"
| "sign_neg _ = False"

text \<open>The rational a finite number denotes.\<close>

fun val :: "number \<Rightarrow> rat" where
  "val (Num q) = q"
| "val _ = 0"

definition signed_zero :: "bool \<Rightarrow> number" where
  "signed_zero neg = (if neg then NegZero else Num 0)"

definition signed_inf :: "bool \<Rightarrow> number" where
  "signed_inf neg = (if neg then NegInf else PosInf)"

fun add_number :: "number \<Rightarrow> number \<Rightarrow> number" where
  "add_number NaN _ = NaN"
| "add_number _ NaN = NaN"
| "add_number PosInf NegInf = NaN"
| "add_number NegInf PosInf = NaN"
| "add_number PosInf _ = PosInf"
| "add_number _ PosInf = PosInf"
| "add_number NegInf _ = NegInf"
| "add_number _ NegInf = NegInf"
| "add_number NegZero b = b"
| "add_number a NegZero = a"
| "add_number (Num x) (Num y) = fround (x + y)"

fun neg_number :: "number \<Rightarrow> number" where
  "neg_number NaN = NaN"
| "neg_number PosInf = NegInf"
| "neg_number NegInf = PosInf"
| "neg_number NegZero = Num 0"
| "neg_number (Num q) = (if q = 0 then NegZero else Num (- q))"

definition mul_number :: "number \<Rightarrow> number \<Rightarrow> number" where
  "mul_number a b =
     (if is_nan a \<or> is_nan b then NaN
      else if is_inf a \<or> is_inf b then
        (if is_zero a \<or> is_zero b then NaN else signed_inf (sign_neg a \<noteq> sign_neg b))
      else if is_zero a \<or> is_zero b then signed_zero (sign_neg a \<noteq> sign_neg b)
      else fround (val a * val b))"

definition div_number :: "number \<Rightarrow> number \<Rightarrow> number" where
  "div_number a b =
     (if is_nan a \<or> is_nan b then NaN
      else if is_inf a then
        (if is_inf b then NaN else signed_inf (sign_neg a \<noteq> sign_neg b))
      else if is_inf b then signed_zero (sign_neg a \<noteq> sign_neg b)
      else if is_zero b then
        (if is_zero a then NaN else signed_inf (sign_neg a \<noteq> sign_neg b))
      else if is_zero a then signed_zero (sign_neg a \<noteq> sign_neg b)
      else fround (val a / val b))"

text \<open>The comparison \<^verbatim>\<open><\<close>: false as soon as one side is NaN; the zeros are equal.\<close>

fun lt_number :: "number \<Rightarrow> number \<Rightarrow> bool" where
  "lt_number NaN _ = False"
| "lt_number _ NaN = False"
| "lt_number _ NegInf = False"
| "lt_number NegInf _ = True"
| "lt_number PosInf _ = False"
| "lt_number _ PosInf = True"
| "lt_number a b = (val a < val b)"

instantiation number :: "{plus, minus, uminus, times, inverse, ord}"
begin

definition plus_number_def: "a + b = add_number a b"

definition uminus_number_def: "- a = neg_number a"

definition minus_number_def: "a - b = add_number a (neg_number b)"

definition times_number_def: "a * b = mul_number a b"

definition divide_number_def: "a div b = div_number a b"

definition inverse_number_def: "inverse a = div_number (Num 1) a"

definition less_number_def: "a < b = lt_number a b"

definition less_eq_number_def:
  "a \<le> b = (\<not> is_nan a \<and> \<not> is_nan b \<and> \<not> lt_number b a)"

instance ..

end

text \<open>\<^verbatim>\<open>a === b\<close> on numbers, and the truthiness of a number in a condition.\<close>

definition strict_eq :: "number \<Rightarrow> number \<Rightarrow> bool" where
  "strict_eq a b = (\<not> is_nan a \<and> \<not> is_nan b \<and> (a = b \<or> is_zero a \<and> is_zero b))"

definition truthy :: "number \<Rightarrow> bool" where
  "truthy a = (\<not> is_nan a \<and> \<not> is_zero a)"

definition is_finite :: "number \<Rightarrow> bool" where
  "is_finite a = (\<not> is_nan a \<and> \<not> is_inf a)"

text \<open>A call that may not return, returning a number \<^verbatim>\<open>===\<close> to \<open>v\<close>.\<close>

definition returns :: "number option \<Rightarrow> number \<Rightarrow> bool" where
  "returns r v = (case r of None \<Rightarrow> False | Some z \<Rightarrow> strict_eq z v)"

text \<open>A number that is neither NaN, nor negative, nor the negative zero.\<close>

fun nonneg :: "number \<Rightarrow> bool" where
  "nonneg (Num q) = (0 \<le> q)"
| "nonneg PosInf = True"
| "nonneg _ = False"

text \<open>\<^verbatim>\<open>Math.max(a, b)\<close>: NaN if either is, and the positive zero above the negative.\<close>

definition Math_max :: "number \<Rightarrow> number \<Rightarrow> number" where
  "Math_max a b =
     (if is_nan a \<or> is_nan b then NaN
      else if a < b then b
      else if b < a then a
      else if a = NegZero \<and> b = NegZero then NegZero
      else if is_zero a then Num 0
      else a)"

text \<open>The double a decimal literal of the source denotes.\<close>

definition lit :: "rat \<Rightarrow> number" where
  "lit q = fround q"

subsection \<open>Dates\<close>

text \<open>
  A \<^verbatim>\<open>Date\<close> holds a time value: a whole number of milliseconds since the epoch,
  at most \<open>8.64 \<times> 10\<^sup>1\<^sup>5\<close> in magnitude, or NaN (an invalid date). Comparing two dates
  compares the time values as numbers, so a comparison with an invalid date is false.
\<close>

datatype Date = InvalidDate | DateTime int

fun date_le :: "Date \<Rightarrow> Date \<Rightarrow> bool" where
  "date_le (DateTime a) (DateTime b) = (a \<le> b)"
| "date_le _ _ = False"

fun date_lt :: "Date \<Rightarrow> Date \<Rightarrow> bool" where
  "date_lt (DateTime a) (DateTime b) = (a < b)"
| "date_lt _ _ = False"

text \<open>\<^verbatim>\<open>d.getTime()\<close>; the time value of a valid date is an integer a double holds exactly.\<close>

fun getTime :: "Date \<Rightarrow> number" where
  "getTime InvalidDate = NaN"
| "getTime (DateTime t) = Num (of_int t)"

definition maxTime :: int where
  "maxTime = 8640000000000000"

definition TimeClip :: "int \<Rightarrow> Date" where
  "TimeClip t = (if maxTime < \<bar>t\<bar> then InvalidDate else DateTime t)"

definition truncate_rat :: "rat \<Rightarrow> int" where
  "truncate_rat q = (if 0 \<le> q then \<lfloor>q\<rfloor> else \<lceil>q\<rceil>)"

text \<open>
  \<^verbatim>\<open>new Date(value)\<close> for a number: a value that is not finite or exceeds the range
  gives an invalid date, any other value is truncated to an integer.
\<close>

fun newDate :: "number \<Rightarrow> Date" where
  "newDate (Num q) = (if of_int maxTime < \<bar>q\<bar> then InvalidDate else DateTime (truncate_rat q))"
| "newDate NegZero = DateTime 0"
| "newDate _ = InvalidDate"

text \<open>
  \<^verbatim>\<open>new Date(year, month, day)\<close> for integral arguments, after the language
  definition: \<open>MakeDay\<close> carries months outside \<open>0..11\<close> into the year and accepts
  any day number (day \<open>0\<close> is the day before the first of the month), a year in
  \<open>0..99\<close> means \<open>1900 + year\<close>, and the result is read in the local time zone. The
  conversion from local time to UTC is the platform's; it is the parameter \<open>utc\<close>.
\<close>

definition DayFromYear :: "int \<Rightarrow> int" where
  "DayFromYear y = 365 * (y - 1970) + (y - 1969) div 4 - (y - 1901) div 100 + (y - 1601) div 400"

definition InLeapYear :: "int \<Rightarrow> bool" where
  "InLeapYear y = (y mod 4 = 0 \<and> (y mod 100 \<noteq> 0 \<or> y mod 400 = 0))"

definition monthStart :: "int \<Rightarrow> bool \<Rightarrow> int" where
  "monthStart mn leap =
     [0, 31, 59, 90, 120, 151, 181, 212, 243, 273, 304, 334] ! nat mn
       + (if leap \<and> 2 \<le> mn then 1 else 0)"

definition MakeDay :: "int \<Rightarrow> int \<Rightarrow> int \<Rightarrow> int" where
  "MakeDay year month day =
     (let ym = year + month div 12; mn = month mod 12
      in DayFromYear ym + monthStart mn (InLeapYear ym) + day - 1)"

definition msPerDay :: int where
  "msPerDay = 86400000"

definition newDateYMD :: "(int \<Rightarrow> int) \<Rightarrow> int \<Rightarrow> int \<Rightarrow> int \<Rightarrow> Date" where
  "newDateYMD utc year month day =
     (let yr = (if 0 \<le> year \<and> year \<le> 99 then 1900 + year else year)
      in TimeClip (utc (MakeDay yr month day * msPerDay)))"

subsection \<open>Entities (\<^verbatim>\<open>src/types/financial.ts\<close>)\<close>

datatype TransactionType =
  Receita | Despesa | Divida | Credito | Investimento | CartaoCredito | Transferencia

datatype TransactionStatus = Pendente | Concluida | Cancelada

datatype InvestmentType = RendaFixa | RendaVariavel | Fundos | Criptomoedas | Outros

text \<open>
  The fields the engine reads. An optional field is an \<open>option\<close>: \<open>None\<close> is
  \<^verbatim>\<open>undefined\<close>. The fields \<^verbatim>\<open>id\<close> and \<^verbatim>\<open>type\<close> carry the entity's name as
  a prefix.
\<close>

record Transaction =
  txn_id :: string
  txn_type :: TransactionType
  amount :: number
  accountId :: string
  categoryId :: string
  date :: Date
  scheduledDate :: "Date option"
  status :: TransactionStatus
  interestRate :: "number option"
  installments :: "number option"
  currentInstallment :: "number option"

record Account =
  acc_id :: string
  balance :: number
  initialBalance :: number
  isActive :: bool

record Investment =
  inv_type :: InvestmentType
  inv_amount :: number
  currentValue :: number
  inv_isActive :: bool

text \<open>
  The two dictionaries of a report are plain objects, kept as the map of their own
  properties. \<^verbatim>\<open>categoryBreakdown\<close> is declared to hold numbers; the code can also leave
  a string there (see \<open>categoryStep\<close> below), whose text is the platform's and is not
  kept.
\<close>

datatype entry = NumberEntry number | StringEntry

record MonthlyReport =
  month :: int
  year :: int
  totalIncome :: number
  totalExpenses :: number
  reportBalance :: number
  categoryBreakdown :: "string \<rightharpoonup> entry"
  accountBalances :: "string \<rightharpoonup> number"

subsection \<open>\<^verbatim>\<open>interestCalculations\<close>\<close>

text \<open>
  \<^verbatim>\<open>Math.pow\<close> is the platform's, accurate only up to the implementation; the
  functions that call it take it as the parameter \<open>pow\<close>.
\<close>

definition installmentPayment ::
  "(number \<Rightarrow> number \<Rightarrow> number) \<Rightarrow> number \<Rightarrow> number \<Rightarrow> number \<Rightarrow> number" where
  "installmentPayment pow princ rate periods =
     (if strict_eq rate (Num 0) then princ / periods
      else
        (let monthlyRate = rate / Num 100 / Num 12
         in princ * (monthlyRate * pow (Num 1 + monthlyRate) periods)
              / (pow (Num 1 + monthlyRate) periods - Num 1)))"

text \<open>
  The loop of \<^verbatim>\<open>remainingBalance\<close>, \<^verbatim>\<open>for (let i = 0; i < paidPeriods; i++)\<close>.
  The counter is a number: above \<open>2\<^sup>5\<^sup>3\<close> the increment no longer changes it and the
  loop does not end, which is the result \<open>None\<close>.
\<close>

partial_function (option) amortize ::
  "number \<Rightarrow> number \<Rightarrow> number \<Rightarrow> number \<Rightarrow> number \<Rightarrow> number option" where
  "amortize monthlyRate installment paidPeriods i bal =
     (if i < paidPeriods then
        amortize monthlyRate installment paidPeriods (i + Num 1)
          (bal - (installment - bal * monthlyRate))
      else Some bal)"

declare amortize.simps [code]

definition remainingBalance ::
  "(number \<Rightarrow> number \<Rightarrow> number) \<Rightarrow> number \<Rightarrow> number \<Rightarrow> number \<Rightarrow> number \<Rightarrow> number option" where
  "remainingBalance pow princ rate totalPeriods paidPeriods =
     (if strict_eq rate (Num 0) then
        Some (princ * (totalPeriods - paidPeriods) / totalPeriods)
      else
        (let monthlyRate = rate / Num 100 / Num 12;
             installment = installmentPayment pow princ (rate * Num 12) totalPeriods
         in map_option (Math_max (Num 0))
              (amortize monthlyRate installment paidPeriods (Num 0) princ)))"

subsection \<open>\<^verbatim>\<open>transactionCalculations\<close>\<close>

definition getTotalByType :: "Transaction list \<Rightarrow> TransactionType \<Rightarrow> number" where
  "getTotalByType transactions type =
     foldl (\<lambda>sum t. sum + amount t) (Num 0)
       (filter (\<lambda>t. txn_type t = type \<and> status t = Concluida) transactions)"

definition getTotalIncome :: "Transaction list \<Rightarrow> number" where
  "getTotalIncome transactions =
     foldl (\<lambda>sum t. sum + amount t) (Num 0)
       (filter (\<lambda>t. txn_type t = Receita \<and> status t = Concluida) transactions)"

definition getTotalExpenses :: "Transaction list \<Rightarrow> number" where
  "getTotalExpenses transactions =
     foldl (\<lambda>sum t. sum + amount t) (Num 0)
       (filter (\<lambda>t. txn_type t \<in> set [Despesa, CartaoCredito] \<and> status t = Concluida)
          transactions)"

text \<open>
  The callback of the \<^verbatim>\<open>reduce\<close> in \<^verbatim>\<open>getTotalDebts\<close>, on the running sum. The
  guard \<^verbatim>\<open>t.installments && t.currentInstallment && t.interestRate\<close> holds when the
  three fields are present and none is zero or NaN. A call of \<^verbatim>\<open>remainingBalance\<close>
  that does not return leaves the whole \<^verbatim>\<open>reduce\<close> without a result.
\<close>

definition debtStep ::
  "(number \<Rightarrow> number \<Rightarrow> number) \<Rightarrow> number \<Rightarrow> Transaction \<Rightarrow> number option" where
  "debtStep pow sm t =
     (case (installments t, currentInstallment t, interestRate t) of
        (Some n, Some c, Some r) \<Rightarrow>
          if truthy n \<and> truthy c \<and> truthy r then
            map_option (\<lambda>remaining. sm + remaining)
              (remainingBalance pow (amount t) r n (c - Num 1))
          else Some (sm + amount t)
      | _ \<Rightarrow> Some (sm + amount t))"

definition getTotalDebts ::
  "(number \<Rightarrow> number \<Rightarrow> number) \<Rightarrow> Transaction list \<Rightarrow> number option" where
  "getTotalDebts pow transactions =
     foldl (\<lambda>acc t. case acc of None \<Rightarrow> None | Some sm \<Rightarrow> debtStep pow sm t) (Some (Num 0))
       (filter (\<lambda>t. txn_type t = Divida \<and> status t \<noteq> Cancelada) transactions)"

definition getNetBalance :: "Transaction list \<Rightarrow> number" where
  "getNetBalance transactions =
     (let income = getTotalIncome transactions; expenses = getTotalExpenses transactions
      in income - expenses)"

definition getTransactionsByPeriod :: "Transaction list \<Rightarrow> Date \<Rightarrow> Date \<Rightarrow> Transaction list" where
  "getTransactionsByPeriod transactions startDate endDate =
     filter (\<lambda>t. date_le startDate (date t) \<and> date_le (date t) endDate) transactions"

text \<open>
  \<^verbatim>\<open>new Date()\<close> reads the clock; the reading is the parameter \<open>now\<close>, in
  milliseconds. A \<^verbatim>\<open>Date\<close> object is truthy even when invalid, so the test on
  \<^verbatim>\<open>t.scheduledDate\<close> is a test of presence.
\<close>

definition effectiveDate :: "Transaction \<Rightarrow> Date" where
  "effectiveDate t = (case scheduledDate t of Some d \<Rightarrow> d | None \<Rightarrow> date t)"

definition getFutureTransactions :: "int \<Rightarrow> Transaction list \<Rightarrow> number \<Rightarrow> Transaction list" where
  "getFutureTransactions now transactions days =
     (let today = DateTime now;
          futureDate = newDate (getTime today + days * Num 24 * Num 60 * Num 60 * Num 1000)
      in filter (\<lambda>t.
           if status t \<noteq> Pendente then False
           else date_le today (effectiveDate t) \<and> date_le (effectiveDate t) futureDate)
         transactions)"

definition getOverdueTransactions :: "int \<Rightarrow> Transaction list \<Rightarrow> Transaction list" where
  "getOverdueTransactions now transactions =
     (let today = DateTime now
      in filter (\<lambda>t.
           if status t \<noteq> Pendente then False
           else date_lt (effectiveDate t) today)
         transactions)"

subsection \<open>\<^verbatim>\<open>accountCalculations\<close>\<close>

definition getTotalBalance :: "Account list \<Rightarrow> number" where
  "getTotalBalance accounts =
     foldl (\<lambda>sum a. sum + balance a) (Num 0) (filter isActive accounts)"

definition updateAccountBalance :: "Account \<Rightarrow> Transaction list \<Rightarrow> number" where
  "updateAccountBalance account transactions =
     (let accountTransactions =
        filter (\<lambda>t. accountId t = acc_id account \<and> status t = Concluida) transactions
      in foldl (\<lambda>bal t.
           if txn_type t \<in> set [Receita, Credito] then bal + amount t
           else if txn_type t \<in> set [Despesa, Divida, CartaoCredito, Investimento]
             then bal - amount t
           else bal)
         (initialBalance account) accountTransactions)"

subsection \<open>\<^verbatim>\<open>investmentCalculations\<close>\<close>

definition getTotalInvestments :: "Investment list \<Rightarrow> number" where
  "getTotalInvestments investments =
     foldl (\<lambda>sum i. sum + currentValue i) (Num 0) (filter inv_isActive investments)"

text \<open>
  The allocation is an object used as a dictionary, a map; its keys are the investment
  types, none of them the name of a property that every object inherits. Reading a
  missing key gives \<^verbatim>\<open>undefined\<close>, which is falsy like \<open>0\<close> and NaN, so the
  initialisation \<^verbatim>\<open>if (!m[k]) m[k] = 0\<close> also resets an entry that is zero or NaN.
  \<open>slot m k\<close> is the entry after it.
\<close>

definition slot :: "('k \<rightharpoonup> number) \<Rightarrow> 'k \<Rightarrow> number" where
  "slot m k = (case m k of None \<Rightarrow> Num 0 | Some v \<Rightarrow> if truthy v then v else Num 0)"

definition getInvestmentAllocation :: "Investment list \<Rightarrow> (InvestmentType \<rightharpoonup> number)" where
  "getInvestmentAllocation investments =
     (let total = getTotalInvestments investments
      in if strict_eq total (Num 0) then Map.empty
         else foldl (\<lambda>allocation investment.
                allocation(inv_type investment \<mapsto>
                  slot allocation (inv_type investment)
                    + (currentValue investment / total) * Num 100))
              Map.empty (filter inv_isActive investments))"

subsection \<open>\<^verbatim>\<open>generateMonthlyReport\<close>\<close>

text \<open>
  Category ids and account ids are arbitrary strings, and the two dictionaries are
  objects created by \<^verbatim>\<open>{}\<close>, which inherit the properties of \<^verbatim>\<open>Object.prototype\<close>
  under the names below. Read from an object that has no property of its own under
  such a name, the key gives the inherited value, a function or (for \<^verbatim>\<open>__proto__\<close>)
  the prototype object, which is truthy; adding a number to it gives a string.
  Assigning a number or a string to \<^verbatim>\<open>__proto__\<close> changes nothing; assigning under any
  other name creates or replaces the object's own property.
\<close>

definition inheritedNames :: "string list" where
  "inheritedNames =
     [''constructor'', ''hasOwnProperty'', ''isPrototypeOf'', ''propertyIsEnumerable'',
      ''toLocaleString'', ''toString'', ''valueOf'', ''__defineGetter__'',
      ''__defineSetter__'', ''__lookupGetter__'', ''__lookupSetter__'', ''__proto__'']"

text \<open>
  The body of the loop over the transactions of the month,
  \<^verbatim>\<open>if (!m[t.categoryId]) m[t.categoryId] = 0; m[t.categoryId] += t.amount\<close>.
  A number that is zero or NaN is falsy and is reset to \<open>0\<close>; a string left by an
  earlier round is not empty, so it is truthy, and a string plus a number is a string.
\<close>

definition categoryStep :: "(string \<rightharpoonup> entry) \<Rightarrow> Transaction \<Rightarrow> (string \<rightharpoonup> entry)" where
  "categoryStep m t =
     (let k = categoryId t in
      case m k of
        Some (NumberEntry v) \<Rightarrow> m(k \<mapsto> NumberEntry ((if truthy v then v else Num 0) + amount t))
      | Some StringEntry \<Rightarrow> m(k \<mapsto> StringEntry)
      | None \<Rightarrow>
          if k = ''__proto__'' then m
          else if k \<in> set inheritedNames then m(k \<mapsto> StringEntry)
          else m(k \<mapsto> NumberEntry (Num 0 + amount t)))"

text \<open>The month and the year are whole numbers; the month counts from \<open>1\<close>.\<close>

definition generateMonthlyReport ::
  "(int \<Rightarrow> int) \<Rightarrow> Transaction list \<Rightarrow> Account list \<Rightarrow> int \<Rightarrow> int \<Rightarrow> MonthlyReport" where
  "generateMonthlyReport utc transactions accounts mon yr =
     (let startDate = newDateYMD utc yr (mon - 1) 1;
          endDate = newDateYMD utc yr mon 0;
          monthlyTransactions = getTransactionsByPeriod transactions startDate endDate;
          income = getTotalIncome monthlyTransactions;
          expenses = getTotalExpenses monthlyTransactions
      in \<lparr> month = mon, year = yr,
           totalIncome = income, totalExpenses = expenses,
           reportBalance = income - expenses,
           categoryBreakdown = foldl categoryStep Map.empty monthlyTransactions,
           accountBalances =
             foldl (\<lambda>m a. if acc_id a = ''__proto__'' then m else m(acc_id a \<mapsto> balance a))
               Map.empty accounts \<rparr>)"

subsection \<open>Sample entities\<close>

text \<open>
  A \<^verbatim>\<open>Math.pow\<close> to pass in closed examples: the correctly rounded power of a finite
  base for a whole exponent from \<open>0\<close> on, and NaN elsewhere, where no example calls it.
\<close>

definition samplePow :: "number \<Rightarrow> number \<Rightarrow> number" where
  "samplePow b e =
     (case (b, e) of
        (Num x, Num n) \<Rightarrow> if 0 \<le> n \<and> of_int \<lfloor>n\<rfloor> = n then fround (x ^ nat \<lfloor>n\<rfloor>) else NaN
      | _ \<Rightarrow> NaN)"

text \<open>
  The entities of the scenarios: a transaction of account \<open>acc1\<close> and category
  \<open>cat1\<close>, dated 31 January 2024 at noon UTC, without the optional fields; an account;
  an investment.
\<close>

definition sampleTransaction ::
  "TransactionType \<Rightarrow> TransactionStatus \<Rightarrow> number \<Rightarrow> Transaction" where
  "sampleTransaction ty st a =
     \<lparr> txn_id = ''t1'', txn_type = ty, amount = a, accountId = ''acc1'',
       categoryId = ''cat1'', date = DateTime 1706702400000, scheduledDate = None,
       status = st, interestRate = None, installments = None, currentInstallment = None \<rparr>"

definition sampleAccount :: "string \<Rightarrow> number \<Rightarrow> number \<Rightarrow> bool \<Rightarrow> Account" where
  "sampleAccount i initial current active =
     \<lparr> acc_id = i, balance = current, initialBalance = initial, isActive = active \<rparr>"

text \<open>The whole-number balances of the sample accounts \<open>acc1\<close> and \<open>acc2\<close>.\<close>

definition sampleWhole :: "Account \<Rightarrow> int" where
  "sampleWhole a = (if acc_id a = ''acc1'' then 100 else 250)"

definition sampleInvestment :: "InvestmentType \<Rightarrow> number \<Rightarrow> bool \<Rightarrow> Investment" where
  "sampleInvestment ty v active =
     \<lparr> inv_type = ty, inv_amount = v, currentValue = v, inv_isActive = active \<rparr>"

section \<open>Properties of the arithmetic\<close>

subsection \<open>Powers of two and the exponent of a rational\<close>

lemma pow2_powi: "pow2 e = power_int 2 e"
  by (simp add: pow2_def power_int_def inverse_eq_divide power_one_over)

lemma pow2_pos: "0 < pow2 e"
  by (simp add: pow2_powi)

lemma pow2_le_iff: "pow2 a \<le> pow2 b \<longleftrightarrow> a \<le> b"
proof
  assume "a \<le> b"
  then show "pow2 a \<le> pow2 b"
    by (simp add: pow2_powi power_int_increasing)
next
  assume h: "pow2 a \<le> pow2 b"
  show "a \<le> b"
  proof (rule ccontr)
    assume "\<not> a \<le> b"
    then have "b < a" by simp
    then have "power_int (2::rat) b < power_int 2 a"
      by (intro power_int_strict_increasing) auto
    with h show False by (simp add: pow2_powi)
  qed
qed

lemma pow2_add: "pow2 (a + b) = pow2 a * pow2 b"
  by (simp add: pow2_powi power_int_add)

lemma ilog2_lower:
  assumes "0 < q"
  shows "pow2 (ilog2 q) \<le> q"
proof -
  obtain a b where ab: "quotient_of q = (a, b)" by (cases "quotient_of q")
  then have b: "0 < b" and q: "q = of_int a / of_int b"
    using quotient_of_denom_pos quotient_of_div by auto
  from assms q b have a: "0 < a"
    by (simp add: zero_less_divide_iff)
  define d where "d = bitlen a - bitlen b"
  show ?thesis
  proof (cases "pow2 d \<le> q")
    case True
    then show ?thesis by (simp add: ilog2_def ab d_def Let_def)
  next
    case False
    have la: "(2::int) ^ nat (bitlen a - 1) \<le> a" using bitlen_bounds[OF a] by simp
    have lb: "b < 2 ^ nat (bitlen b)" using bitlen_bounds[OF b] by simp
    have ba1: "1 \<le> bitlen a" using a bitlen_eq_zero_iff[of a] bitlen_nonneg[of a] by linarith
    have bb0: "0 \<le> bitlen b" by (rule bitlen_nonneg)
    have la': "pow2 (bitlen a - 1) \<le> of_int a"
    proof -
      have "(of_int ((2::int) ^ nat (bitlen a - 1)) :: rat) \<le> of_int a"
        using la by (simp only: of_int_le_iff)
      then show ?thesis using ba1 by (simp add: pow2_def)
    qed
    have lb': "(of_int b :: rat) \<le> pow2 (bitlen b)"
    proof -
      have "b \<le> 2 ^ nat (bitlen b)" using lb by simp
      then have "(of_int b :: rat) \<le> of_int ((2::int) ^ nat (bitlen b))"
        by (simp only: of_int_le_iff)
      then show ?thesis using bb0 by (simp add: pow2_def)
    qed
    have "pow2 (d - 1) * of_int b \<le> pow2 (d - 1) * pow2 (bitlen b)"
      using lb' pow2_pos[of "d - 1"] by (simp add: mult_left_mono)
    also have "\<dots> = pow2 (bitlen a - 1)"
      by (simp add: d_def flip: pow2_add)
    also have "\<dots> \<le> of_int a" by (rule la')
    finally have "pow2 (d - 1) \<le> of_int a / of_int b"
      using b by (simp add: pos_le_divide_eq)
    then have "pow2 (d - 1) \<le> q" by (simp only: q)
    with False show ?thesis by (simp add: ilog2_def ab d_def Let_def)
  qed
qed

lemma ilog2_upper:
  assumes "0 < q"
  shows "q < pow2 (ilog2 q + 1)"
proof -
  obtain a b where ab: "quotient_of q = (a, b)" by (cases "quotient_of q")
  then have b: "0 < b" and q: "q = of_int a / of_int b"
    using quotient_of_denom_pos quotient_of_div by auto
  from assms q b have a: "0 < a"
    by (simp add: zero_less_divide_iff)
  define d where "d = bitlen a - bitlen b"
  show ?thesis
  proof (cases "pow2 d \<le> q")
    case False
    then show ?thesis by (simp add: ilog2_def ab d_def Let_def)
  next
    case True
    have ua: "a < 2 ^ nat (bitlen a)" using bitlen_bounds[OF a] by simp
    have lb: "(2::int) ^ nat (bitlen b - 1) \<le> b" using bitlen_bounds[OF b] by simp
    have bb1: "1 \<le> bitlen b" using b bitlen_eq_zero_iff[of b] bitlen_nonneg[of b] by linarith
    have ba0: "0 \<le> bitlen a" by (rule bitlen_nonneg)
    have ua': "(of_int a :: rat) < pow2 (bitlen a)"
    proof -
      have "(of_int a :: rat) < of_int ((2::int) ^ nat (bitlen a))"
        using ua by (simp only: of_int_less_iff)
      then show ?thesis using ba0 by (simp add: pow2_def)
    qed
    have lb': "pow2 (bitlen b - 1) \<le> (of_int b :: rat)"
    proof -
      have "(of_int ((2::int) ^ nat (bitlen b - 1)) :: rat) \<le> of_int b"
        using lb by (simp only: of_int_le_iff)
      then show ?thesis using bb1 by (simp add: pow2_def)
    qed
    have "of_int a < pow2 (bitlen a)" by (rule ua')
    also have "\<dots> = pow2 (d + 1) * pow2 (bitlen b - 1)"
      by (simp add: d_def flip: pow2_add)
    also have "\<dots> \<le> pow2 (d + 1) * of_int b"
      using lb' pow2_pos[of "d + 1"] by (simp add: mult_left_mono)
    finally have "of_int a / of_int b < pow2 (d + 1)"
      using b by (simp add: pos_divide_less_eq)
    then have "q < pow2 (d + 1)" by (simp only: q)
    with True show ?thesis by (simp add: ilog2_def ab d_def Let_def)
  qed
qed

subsection \<open>The rounding error is at most half a unit in the last place\<close>

lemma rne_error: "\<bar>of_int (rne x) - x\<bar> \<le> 1 / 2"
proof -
  define f where "f = \<lfloor>x\<rfloor>"
  define r where "r = x - of_int f"
  have r: "0 \<le> r" "r < 1" unfolding r_def f_def by linarith+
  have e: "rne x = (if r < 1 / 2 then f else if 1 / 2 < r then f + 1
             else if even f then f else f + 1)"
    by (simp add: rne_def f_def r_def Let_def)
  have d: "of_int f - x = - r" "of_int f + 1 - x = 1 - r"
    by (simp_all add: r_def)
  show ?thesis using r unfolding e by (auto simp add: d)
qed

lemma round_pos_error:
  "\<bar>round_pos q - q\<bar> \<le> pow2 (quantum q) / 2"
proof -
  define u where "u = quantum q"
  have p: "0 < pow2 u" by (rule pow2_pos)
  have "round_pos q - q = (of_int (rne (q / pow2 u)) - q / pow2 u) * pow2 u"
    using p by (simp add: round_pos_def u_def [symmetric] Let_def left_diff_distrib)
  then have "\<bar>round_pos q - q\<bar> = \<bar>of_int (rne (q / pow2 u)) - q / pow2 u\<bar> * pow2 u"
    using p by (simp add: abs_mult)
  also have "\<dots> \<le> 1 / 2 * pow2 u"
    using rne_error[of "q / pow2 u"] p by (intro mult_right_mono) auto
  finally show ?thesis by (simp add: u_def)
qed

subsection \<open>Whole numbers up to \<open>2\<^sup>5\<^sup>3\<close> are computed exactly\<close>

lemma rne_of_int: "rne (of_int n) = n"
  by (simp add: rne_def)

lemma quantum_int:
  assumes "0 < k" "k \<le> 2 ^ 53"
  shows "quantum (of_int k) \<le> 1"
    and "\<exists>m. (of_int k :: rat) = of_int m * pow2 (quantum (of_int k))"
proof -
  let ?q = "of_int k :: rat"
  define e where "e = ilog2 ?q"
  define u where "u = quantum ?q"
  have u: "u = max (e - 52) (- 1074)" by (simp add: u_def e_def quantum_def)
  have qpos: "0 < ?q" using assms by simp
  have low: "pow2 e \<le> ?q" unfolding e_def by (rule ilog2_lower[OF qpos])
  also have "?q \<le> of_int (2 ^ 53)" using assms(2) by (simp only: of_int_le_iff)
  also have "\<dots> = pow2 53" by (simp add: pow2_def)
  finally have e53: "e \<le> 53" by (simp add: pow2_le_iff)
  then show "quantum ?q \<le> 1" using u by (simp add: u_def)
  have "\<exists>m. ?q = of_int m * pow2 u"
  proof (cases "u \<le> 0")
    case True
    have "pow2 (- u) * pow2 u = 1"
      by (simp flip: pow2_add) (simp add: pow2_def)
    moreover have "pow2 (- u) = of_int (2 ^ nat (- u))"
      using True by (simp add: pow2_def)
    ultimately have "?q = of_int (k * 2 ^ nat (- u)) * pow2 u"
      by (simp add: mult.assoc)
    then show ?thesis by blast
  next
    case False
    with e53 u have u1: "u = 1" and "e = 53" by auto
    then have "pow2 53 \<le> ?q" using low by simp
    then have "(of_int (2 ^ 53) :: rat) \<le> of_int k" by (simp add: pow2_def)
    then have "2 ^ 53 \<le> k" by (simp only: of_int_le_iff)
    with assms(2) have "k = 2 ^ 53" by simp
    then have "?q = of_int (2 ^ 52) * pow2 u" by (simp add: u1 pow2_def)
    then show ?thesis by blast
  qed
  then show "\<exists>m. ?q = of_int m * pow2 (quantum ?q)" by (simp only: u_def)
qed

lemma round_pos_int:
  assumes "0 < k" "k \<le> 2 ^ 53"
  shows "round_pos (of_int k) = of_int k" and "\<not> overflows (of_int k)"
proof -
  let ?q = "of_int k :: rat"
  define u where "u = quantum ?q"
  from quantum_int[OF assms] obtain m where u1: "u \<le> 1" and eq: "?q = of_int m * pow2 u"
    unfolding u_def by blast
  have "pow2 u \<noteq> 0" using pow2_pos[of u] by simp
  then have "of_int m * pow2 u / pow2 u = (of_int m :: rat)" by simp
  then have "?q / pow2 u = of_int m" by (simp only: eq [symmetric])
  then have "round_pos ?q = of_int m * pow2 u"
    by (simp add: round_pos_def u_def [symmetric] rne_of_int Let_def)
  then show "round_pos ?q = ?q" by (simp only: eq [symmetric])
  from u1 show "\<not> overflows ?q"
    by (simp add: overflows_def u_def [symmetric] Let_def)
qed

lemma fround_int:
  assumes "\<bar>k\<bar> \<le> 2 ^ 53"
  shows "fround (of_int k) = Num (of_int k)"
proof -
  consider "k = 0" | "0 < k" | "k < 0" by linarith
  then show ?thesis
  proof cases
    case 1
    then show ?thesis by (simp add: fround_def)
  next
    case 2
    with assms have "k \<le> 2 ^ 53" by simp
    with 2 show ?thesis
      using round_pos_int[of k] by (simp add: fround_def)
  next
    case 3
    with assms have k: "0 < - k" "- k \<le> 2 ^ 53" by simp_all
    have r: "round_pos (- of_int k) = - of_int k" "\<not> overflows (- of_int k)"
      using round_pos_int[OF k] by simp_all
    from 3 r show ?thesis by (simp add: fround_def)
  qed
qed

lemma add_int:
  "\<bar>a + b\<bar> \<le> 2 ^ 53 \<Longrightarrow> Num (of_int a) + Num (of_int b) = Num (of_int (a + b))"
  using fround_int[of "a + b"] by (simp add: plus_number_def)

lemma sub_int:
  "\<bar>a - b\<bar> \<le> 2 ^ 53 \<Longrightarrow> Num (of_int a) - Num (of_int b) = Num (of_int (a - b))"
  using fround_int[of "a - b"] by (simp add: minus_number_def)

lemma mul_int:
  "0 \<le> a \<Longrightarrow> 0 \<le> b \<Longrightarrow> a * b \<le> 2 ^ 53 \<Longrightarrow>
     Num (of_int a) * Num (of_int b) = Num (of_int (a * b))"
  using fround_int[of "a * b"]
  by (auto simp add: times_number_def mul_number_def is_nan_def is_inf_def is_zero_def
      signed_zero_def)

lemma div_int:
  "0 \<le> a \<Longrightarrow> 0 < b \<Longrightarrow> a \<le> 2 ^ 53 \<Longrightarrow>
     Num (of_int (a * b)) / Num (of_int b) = Num (of_int a)"
  using fround_int[of "a"]
  by (auto simp add: divide_number_def div_number_def is_nan_def is_inf_def is_zero_def
      signed_zero_def)

subsection \<open>The sign of a result\<close>

text \<open>
  Rounding keeps the sign, so sums, differences and products of numbers of known sign
  have the expected sign, the zeros and the infinities included. \<open>b \<le> Num 0\<close> holds of
  the negative numbers, the two zeros and \<open>-\<infinity>\<close>.
\<close>

lemma rne_nonneg: "0 \<le> x \<Longrightarrow> 0 \<le> rne x"
  by (simp add: rne_def Let_def)

lemma round_pos_nonneg: "0 \<le> q \<Longrightarrow> 0 \<le> round_pos q"
proof -
  assume "0 \<le> q"
  then have "0 \<le> q / pow2 (quantum q)" using pow2_pos[of "quantum q"] by simp
  then have "0 \<le> rne (q / pow2 (quantum q))" by (rule rne_nonneg)
  then show ?thesis
    using pow2_pos[of "quantum q"] by (simp add: round_pos_def Let_def)
qed

lemma fround_nonneg: "0 \<le> q \<Longrightarrow> nonneg (fround q)"
  using round_pos_nonneg[of q] by (simp add: fround_def)

lemma le_zero_cases:
  "b \<le> Num 0 \<longleftrightarrow> b = NegInf \<or> b = NegZero \<or> (\<exists>x. b = Num x \<and> x \<le> 0)"
  by (cases b) (auto simp add: less_eq_number_def is_nan_def)

lemma ge_zero_cases:
  "Num 0 \<le> b \<longleftrightarrow> b = PosInf \<or> b = NegZero \<or> (\<exists>x. b = Num x \<and> 0 \<le> x)"
  by (cases b) (auto simp add: less_eq_number_def is_nan_def)

lemma fround_le_zero: "q \<le> 0 \<Longrightarrow> fround q \<le> Num 0"
  using round_pos_nonneg[of "- q"] by (simp add: fround_def le_zero_cases)

lemma fround_ge_zero: "0 \<le> q \<Longrightarrow> Num 0 \<le> fround q"
  using round_pos_nonneg[of q] by (simp add: fround_def ge_zero_cases)

lemma mul_le_zero:
  assumes "b \<le> Num 0" "Num 0 < mr" "is_finite mr"
  shows "b * mr \<le> Num 0"
proof -
  from assms(2,3) obtain m where m: "mr = Num m" "0 < m"
    by (cases mr) (auto simp add: less_number_def is_finite_def is_nan_def is_inf_def)
  from assms(1) consider "b = NegInf" | "b = NegZero" | x where "b = Num x" "x \<le> 0"
    unfolding le_zero_cases by blast
  then show ?thesis
  proof cases
    case 1
    with m show ?thesis
      by (simp add: times_number_def mul_number_def is_nan_def is_inf_def is_zero_def
          signed_inf_def le_zero_cases)
  next
    case 2
    with m show ?thesis
      by (simp add: times_number_def mul_number_def is_nan_def is_inf_def is_zero_def
          signed_zero_def le_zero_cases)
  next
    case 3
    then have "x * m \<le> 0" using m(2) by (simp add: mult_le_0_iff)
    from fround_le_zero[OF this] 3 m show ?thesis
      by (auto simp add: times_number_def mul_number_def is_nan_def is_inf_def is_zero_def
          signed_zero_def le_zero_cases)
  qed
qed

lemma neg_le_zero: "Num 0 \<le> t \<Longrightarrow> - t \<le> Num 0"
  by (cases t) (auto simp add: uminus_number_def less_eq_number_def is_nan_def)

lemma neg_ge_zero: "t \<le> Num 0 \<Longrightarrow> Num 0 \<le> - t"
  by (cases t) (auto simp add: uminus_number_def less_eq_number_def is_nan_def)

lemma add_ge_zero: "Num 0 \<le> a \<Longrightarrow> Num 0 \<le> b \<Longrightarrow> Num 0 \<le> a + b"
proof -
  assume a: "Num 0 \<le> a" and b: "Num 0 \<le> b"
  have f: "Num 0 \<le> Num x + Num y" if "0 \<le> x" "0 \<le> y" for x y
    using that fround_ge_zero[of "x + y"] by (simp add: plus_number_def)
  from a b f show ?thesis
    unfolding ge_zero_cases[of a] ge_zero_cases[of b]
    by (elim disjE exE conjE) (simp_all add: plus_number_def less_eq_number_def is_nan_def)
qed

lemma add_le_zero: "a \<le> Num 0 \<Longrightarrow> b \<le> Num 0 \<Longrightarrow> a + b \<le> Num 0"
proof -
  assume a: "a \<le> Num 0" and b: "b \<le> Num 0"
  have f: "Num x + Num y \<le> Num 0" if "x \<le> 0" "y \<le> 0" for x y
    using that fround_le_zero[of "x + y"] by (simp add: plus_number_def)
  from a b f show ?thesis
    unfolding le_zero_cases[of a] le_zero_cases[of b]
    by (elim disjE exE conjE) (simp_all add: plus_number_def less_eq_number_def is_nan_def)
qed

lemma minus_plus_number: "a - t = a + (- t)" for a t :: number
  by (simp add: minus_number_def plus_number_def uminus_number_def)

lemma sub_ge_zero: "Num 0 \<le> a \<Longrightarrow> t \<le> Num 0 \<Longrightarrow> Num 0 \<le> a - t"
  unfolding minus_plus_number by (intro add_ge_zero neg_ge_zero)

lemma sub_le_zero: "b \<le> Num 0 \<Longrightarrow> Num 0 \<le> t \<Longrightarrow> b - t \<le> Num 0"
  unfolding minus_plus_number by (intro add_le_zero neg_le_zero)

subsection \<open>Checking one rounding\<close>

text \<open>
  The double nearest to a rational \<open>q\<close> in the normal range is \<open>m \<times> 2\<^sup>e\<^sup>-\<^sup>5\<^sup>2\<close> as soon as
  \<open>2\<^sup>e \<le> \<bar>q\<bar> < 2\<^sup>e\<^sup>+\<^sup>1\<close> and \<open>m\<close> is the integer nearest to \<open>\<bar>q\<bar> / 2\<^sup>e\<^sup>-\<^sup>5\<^sup>2\<close>, the even one
  of the two at a tie. A closed computation is checked one operation at a time from
  these, the exponent and the integer being given.
\<close>

lemma ilog2_unique:
  assumes "pow2 e \<le> q" "q < pow2 (e + 1)"
  shows "ilog2 q = e"
proof -
  have qpos: "0 < q" using pow2_pos[of e] assms(1) by simp
  have "pow2 e < pow2 (ilog2 q + 1)"
    using assms(1) ilog2_upper[OF qpos] by simp
  then have a: "e < ilog2 q + 1"
    using pow2_le_iff[of "ilog2 q + 1" e] by (simp add: not_le [symmetric])
  have "pow2 (ilog2 q) < pow2 (e + 1)"
    using assms(2) ilog2_lower[OF qpos] by simp
  then have b: "ilog2 q < e + 1"
    using pow2_le_iff[of "e + 1" "ilog2 q"] by (simp add: not_le [symmetric])
  from a b show ?thesis by simp
qed

lemma rne_nearest:
  assumes "\<bar>of_int m - x\<bar> < 1 / 2 \<or> (\<bar>of_int m - x\<bar> = 1 / 2 \<and> even m)"
  shows "rne x = m"
proof -
  define f where "f = \<lfloor>x\<rfloor>"
  define r where "r = x - of_int f"
  define d where "d = m - f"
  have r: "0 \<le> r" "r < 1" unfolding r_def f_def by linarith+
  have x: "x = of_int f + r" by (simp add: r_def)
  have m: "m = f + d" by (simp add: d_def)
  have e: "rne x = (if r < 1 / 2 then f else if 1 / 2 < r then f + 1
             else if even f then f else f + 1)"
    by (simp add: rne_def f_def r_def Let_def)
  have dr: "of_int m - x = of_int d - r" by (simp add: x m)
  have lo: "d \<le> 0" if "of_int d < (1::rat)" for d :: int
  proof -
    from that have "(of_int d :: rat) < of_int 1" by simp
    then have "d < 1" by (simp only: of_int_less_iff)
    then show ?thesis by simp
  qed
  have hi: "0 \<le> d" if "- 1 < (of_int d :: rat)" for d :: int
  proof -
    from that have "(of_int (- 1) :: rat) < of_int d" by simp
    then have "- 1 < d" by (simp only: of_int_less_iff)
    then show ?thesis by simp
  qed
  have ab: "\<bar>of_int d - r\<bar> \<le> 1 / 2" using assms unfolding dr by linarith
  consider "r < 1 / 2" | "1 / 2 < r" | "r = 1 / 2" by linarith
  then show ?thesis
  proof cases
    case 1
    with ab r have "(of_int d :: rat) < 1" "(0::rat) < of_int d + 1" by linarith+
    then have "(of_int d :: rat) < of_int 1" "(of_int 0 :: rat) < of_int (d + 1)" by simp_all
    then have "d < 1" "0 < d + 1" by (simp_all only: of_int_less_iff)
    then have "d = 0" by simp
    with 1 show ?thesis by (simp add: e m)
  next
    case 2
    with ab r have "(of_int d :: rat) < 2" "(0::rat) < of_int d" by linarith+
    then have "(of_int d :: rat) < of_int 2" "(of_int 0 :: rat) < of_int d" by simp_all
    then have "d < 2" "0 < d" by (simp_all only: of_int_less_iff)
    then have "d = 1" by simp
    with 2 show ?thesis by (simp add: e m)
  next
    case 3
    with ab have "(of_int d :: rat) < 2" "(0::rat) < of_int d + 1" by linarith+
    then have "(of_int d :: rat) < of_int 2" "(of_int 0 :: rat) < of_int (d + 1)" by simp_all
    then have "d < 2" "0 < d + 1" by (simp_all only: of_int_less_iff)
    then have d01: "d = 0 \<or> d = 1" by auto
    have ne: "\<not> \<bar>of_int d - r\<bar> < 1 / 2"
      using d01 3 by auto
    with assms have ev: "even m" unfolding dr by blast
    from d01 show ?thesis
    proof
      assume "d = 0"
      with ev 3 show ?thesis by (simp add: e m)
    next
      assume "d = 1"
      with ev 3 show ?thesis by (simp add: e m)
    qed
  qed
qed

lemma fround_nearest_pos:
  assumes "pow2 e \<le> q" "q < pow2 (e + 1)" "- 1022 \<le> e" "e < 1023"
    and "\<bar>of_int m - q / pow2 (e - 52)\<bar> < 1 / 2
         \<or> (\<bar>of_int m - q / pow2 (e - 52)\<bar> = 1 / 2 \<and> even m)"
    and "r = of_int m * pow2 (e - 52)"
  shows "fround q = Num r"
proof -
  have qpos: "0 < q" using pow2_pos[of e] assms(1) by simp
  have i: "ilog2 q = e" using assms(1,2) by (rule ilog2_unique)
  have u: "quantum q = e - 52" using assms(3) by (simp add: quantum_def i)
  have n: "rne (q / pow2 (e - 52)) = m" using assms(5) by (rule rne_nearest)
  have rp: "round_pos q = of_int m * pow2 (e - 52)"
    by (simp add: round_pos_def u n Let_def)
  have ov: "\<not> overflows q" using assms(4) by (simp add: overflows_def u Let_def)
  from qpos rp ov assms(6) show ?thesis by (simp add: fround_def)
qed

lemma fround_nearest_neg:
  assumes "pow2 e \<le> - q" "- q < pow2 (e + 1)" "- 1022 \<le> e" "e < 1023"
    and "\<bar>of_int m - (- q) / pow2 (e - 52)\<bar> < 1 / 2
         \<or> (\<bar>of_int m - (- q) / pow2 (e - 52)\<bar> = 1 / 2 \<and> even m)"
    and "0 < m"
    and "r = - (of_int m * pow2 (e - 52))"
  shows "fround q = Num r"
proof -
  have qpos: "0 < - q" using pow2_pos[of e] assms(1) by simp
  have i: "ilog2 (- q) = e" using assms(1,2) by (rule ilog2_unique)
  have u: "quantum (- q) = e - 52" using assms(3) by (simp add: quantum_def i)
  have n: "rne ((- q) / pow2 (e - 52)) = m" using assms(5) by (rule rne_nearest)
  have rp: "round_pos (- q) = of_int m * pow2 (e - 52)"
    by (simp only: round_pos_def u n Let_def)
  have ov: "\<not> overflows (- q)" using assms(4) by (simp add: overflows_def u Let_def)
  have nz: "of_int m * pow2 (e - 52) \<noteq> (0::rat)"
    using assms(6) pow2_pos[of "e - 52"] by simp
  from qpos rp ov nz assms(7) show ?thesis by (simp add: fround_def)
qed

lemma add_Num: "fround (x + y) = r \<Longrightarrow> Num x + Num y = r"
  by (simp add: plus_number_def)

lemma sub_Num: "fround (x - y) = r \<Longrightarrow> y \<noteq> 0 \<Longrightarrow> Num x - Num y = r"
  by (simp add: minus_number_def)

lemma mul_Num: "fround (x * y) = r \<Longrightarrow> x \<noteq> 0 \<Longrightarrow> y \<noteq> 0 \<Longrightarrow> Num x * Num y = r"
  by (simp add: times_number_def mul_number_def is_nan_def is_inf_def is_zero_def)

lemma div_Num: "fround (x / y) = r \<Longrightarrow> x \<noteq> 0 \<Longrightarrow> y \<noteq> 0 \<Longrightarrow> Num x / Num y = r"
  by (simp add: divide_number_def div_number_def is_nan_def is_inf_def is_zero_def)

lemma pow_Num:
  "y = of_int n \<Longrightarrow> 0 \<le> n \<Longrightarrow> fround (x ^ nat n) = r \<Longrightarrow> samplePow (Num x) (Num y) = r"
  by (simp add: samplePow_def)

lemma funpow_next: "(f ^^ n) x = y \<Longrightarrow> f y = z \<Longrightarrow> m = Suc n \<Longrightarrow> (f ^^ m) x = z"
  by simp

section \<open>The calculator\<close>

text \<open>
  The schedule walk returns when the number of paid periods is a whole number from \<open>0\<close>
  to \<open>2\<^sup>5\<^sup>3\<close>, and so does \<open>remainingBalance\<close>.
\<close>

lemma amortize_returns:
  "0 \<le> i \<Longrightarrow> i \<le> k \<Longrightarrow> k \<le> 2 ^ 53 \<Longrightarrow>
     \<exists>b. amortize monthlyRate installment (Num (of_int k)) (Num (of_int i)) bal = Some b"
proof (induction "nat (k - i)" arbitrary: i bal)
  case 0
  then have "i = k" by simp
  then show ?case by (subst amortize.simps) (simp add: less_number_def)
next
  case (Suc m)
  then have lt: "i < k" by linarith
  then have c: "Num (of_int i) < Num (of_int k)" by (simp add: less_number_def)
  have s: "Num (of_int i) + Num 1 = Num (of_int (i + 1))"
    using add_int[of i 1] Suc.prems lt by simp
  have "\<exists>b. amortize monthlyRate installment (Num (of_int k)) (Num (of_int (i + 1)))
          (bal - (installment - bal * monthlyRate)) = Some b"
    using Suc.hyps(2) Suc.prems lt by (intro Suc.hyps(1)) auto
  then show ?case by (subst amortize.simps) (simp only: c s if_True)
qed

lemma remainingBalance_returns:
  assumes "0 \<le> k" "k \<le> 2 ^ 53"
  shows "\<exists>b. remainingBalance pow princ rate totalPeriods (Num (of_int k)) = Some b"
proof (cases "strict_eq rate (Num 0)")
  case True
  then show ?thesis by (simp add: remainingBalance_def)
next
  case False
  from amortize_returns[of 0 k] assms
  obtain b where "amortize (rate / Num 100 / Num 12)
      (installmentPayment pow princ (rate * Num 12) totalPeriods) (Num (of_int k)) (Num 0) princ
        = Some b"
    by fastforce
  with False show ?thesis by (simp add: remainingBalance_def)
qed

text \<open>
  Above \<open>2\<^sup>5\<^sup>3\<close> the counter of the walk stalls: adding \<open>1\<close> to \<open>2\<^sup>5\<^sup>3\<close> gives \<open>2\<^sup>5\<^sup>3\<close>
  again. With more paid periods than that, or infinitely many, the walk never returns,
  and neither does \<open>remainingBalance\<close> at a rate other than zero.
\<close>

lemma counter_stalls: "Num (2 ^ 53) + Num 1 = Num (2 ^ 53)"
  by code_simp

lemma counter_stays_whole:
  assumes "0 \<le> k" "k \<le> 2 ^ 53"
  shows "\<exists>k'. Num (of_int k) + Num 1 = Num (of_int k') \<and> 0 \<le> k' \<and> k' \<le> 2 ^ 53"
proof (cases "k = 2 ^ 53")
  case True
  then have "Num (of_int k) + Num 1 = Num (of_int k)" using counter_stalls by simp
  with assms show ?thesis by blast
next
  case False
  with assms have "\<bar>k + 1\<bar> \<le> 2 ^ 53" by simp
  then have "Num (of_int k) + Num 1 = Num (of_int (k + 1))"
    using add_int[of k 1] by simp
  with assms False show ?thesis by (intro exI[of _ "k + 1"]) simp
qed

lemma amortize_never_returns:
  assumes "amortize monthlyRate installment paidPeriods i bal = Some y"
  shows "\<not> (Num (2 ^ 53) < paidPeriods \<and> (\<exists>k. i = Num (of_int k) \<and> 0 \<le> k \<and> k \<le> 2 ^ 53))"
proof (rule amortize.raw_induct
    [where P = "\<lambda>(mr::number) (inst::number) paid i (bal::number) (y::number).
       \<not> (Num (2 ^ 53) < paid \<and> (\<exists>k. i = Num (of_int k) \<and> 0 \<le> k \<and> k \<le> 2 ^ 53))",
     OF _ assms])
  fix f :: "number \<Rightarrow> number \<Rightarrow> number \<Rightarrow> number \<Rightarrow> number \<Rightarrow> number option"
    and mr inst paid j b z :: number
  assume IH: "\<And>mr' inst' paid' j' b' z'. f mr' inst' paid' j' b' = Some z' \<Longrightarrow>
      \<not> (Num (2 ^ 53) < paid' \<and> (\<exists>k. j' = Num (of_int k) \<and> 0 \<le> k \<and> k \<le> 2 ^ 53))"
  assume body: "(if j < paid then f mr inst paid (j + Num 1) (b - (inst - b * mr))
                 else Some b) = Some z"
  show "\<not> (Num (2 ^ 53) < paid \<and> (\<exists>k. j = Num (of_int k) \<and> 0 \<le> k \<and> k \<le> 2 ^ 53))"
  proof
    assume a: "Num (2 ^ 53) < paid \<and> (\<exists>k. j = Num (of_int k) \<and> 0 \<le> k \<and> k \<le> 2 ^ 53)"
    then obtain k where k: "j = Num (of_int k)" "0 \<le> k" "k \<le> 2 ^ 53" by blast
    have "(of_int k :: rat) \<le> of_int (2 ^ 53)" using k(3) by (simp only: of_int_le_iff)
    then have le: "(of_int k :: rat) \<le> 2 ^ 53" by simp
    from a have p: "Num (2 ^ 53) < paid" by simp
    then have "j < paid"
      using le by (cases paid) (auto simp add: less_number_def k(1))
    with body have r: "f mr inst paid (j + Num 1) (b - (inst - b * mr)) = Some z"
      by simp
    from counter_stays_whole[OF k(2,3)] obtain k' where
      "j + Num 1 = Num (of_int k')" "0 \<le> k'" "k' \<le> 2 ^ 53"
      unfolding k(1) by blast
    with IH[OF r] p show False by blast
  qed
qed

lemma amortize_diverges:
  "Num (2 ^ 53) < paidPeriods \<Longrightarrow>
     amortize monthlyRate installment paidPeriods (Num 0) bal = None"
proof (rule ccontr)
  assume p: "Num (2 ^ 53) < paidPeriods"
  assume "amortize monthlyRate installment paidPeriods (Num 0) bal \<noteq> None"
  then obtain y where "amortize monthlyRate installment paidPeriods (Num 0) bal = Some y"
    by auto
  from amortize_never_returns[OF this] p show False
    by (auto dest: spec[of _ 0])
qed

lemma remainingBalance_diverges:
  "\<not> strict_eq rate (Num 0) \<Longrightarrow> Num (2 ^ 53) < paidPeriods \<Longrightarrow>
     remainingBalance pow princ rate totalPeriods paidPeriods = None"
  by (simp add: remainingBalance_def amortize_diverges)

lemma installmentPayment_rate_0:
  "strict_eq rate (Num 0) \<Longrightarrow> installmentPayment pow princ rate periods = princ / periods"
  by (simp add: installmentPayment_def)

text \<open>
  C9. At rate zero the installment is the plain division of the principal by the number
  of periods: \<open>installmentPayment(principal, 0, periods) = principal / periods\<close>, for every
  principal and every number of periods (so in particular for a positive principal and
  at least one period), the rate being either zero. The division is that of doubles; it
  is exact when it comes out even, as for 1200 in 12 periods, which gives 100.
\<close>

theorem installmentPayment_zero_rate:
  "installmentPayment pow princ (Num 0) periods = princ / periods
   \<and> installmentPayment pow princ NegZero periods = princ / periods
   \<and> (0 \<le> a \<and> 0 < n \<and> a \<le> 2 ^ 53 \<longrightarrow>
        installmentPayment pow (Num (of_int (a * n))) (Num 0) (Num (of_int n)) = Num (of_int a))"
proof (intro conjI impI)
  have z: "strict_eq (Num 0) (Num 0)" "strict_eq NegZero (Num 0)"
    by (simp_all add: strict_eq_def is_nan_def is_zero_def)
  show "installmentPayment pow princ (Num 0) periods = princ / periods"
    by (rule installmentPayment_rate_0[OF z(1)])
  show "installmentPayment pow princ NegZero periods = princ / periods"
    by (rule installmentPayment_rate_0[OF z(2)])
  assume "0 \<le> a \<and> 0 < n \<and> a \<le> 2 ^ 53"
  then have "Num (of_int (a * n)) / Num (of_int n) = Num (of_int a)"
    by (intro div_int) auto
  then show "installmentPayment pow (Num (of_int (a * n))) (Num 0) (Num (of_int n))
      = Num (of_int a)"
    by (simp only: installmentPayment_rate_0[OF z(1)])
qed

theorem installmentPayment_zero_rate_witness:
  "(0::int) \<le> 100 \<and> (0::int) < 12 \<and> (100::int) \<le> 2 ^ 53
   \<and> installmentPayment samplePow (Num 1200) (Num 0) (Num 12) = Num 1200 / Num 12
   \<and> installmentPayment samplePow (Num 1200) (Num 0) (Num 12) = Num 100"
proof -
  have h: "(0::int) \<le> 100 \<and> (0::int) < 12 \<and> (100::int) \<le> 2 ^ 53" by simp
  from installmentPayment_zero_rate[of samplePow "Num 1200" "Num 12" 100 12] h
  have "installmentPayment samplePow (Num 1200) (Num 0) (Num 12) = Num 1200 / Num 12"
    and "installmentPayment samplePow (Num (of_int (100 * 12))) (Num 0) (Num (of_int 12))
      = Num (of_int 100)"
    by blast+
  with h show ?thesis by simp
qed

lemma remainingBalance_zero_rate:
  "remainingBalance pow princ (Num 0) totalPeriods paidPeriods
     = Some (princ * (totalPeriods - paidPeriods) / totalPeriods)"
  by (simp add: remainingBalance_def strict_eq_def is_nan_def)

lemma remainingBalance_nothing_paid:
  "\<not> strict_eq rate (Num 0) \<Longrightarrow>
     remainingBalance pow princ rate totalPeriods (Num 0) = Some (Math_max (Num 0) princ)"
  by (subst remainingBalance_def, subst amortize.simps) (simp add: less_number_def)

lemma Math_max_nonneg: "Num 0 \<le> a \<Longrightarrow> strict_eq (Math_max (Num 0) a) a"
  by (cases a)
    (auto simp add: Math_max_def less_eq_number_def less_number_def strict_eq_def is_nan_def
      is_zero_def)

lemma fully_paid_zero_rate:
  assumes "is_finite princ" "is_finite totalPeriods" "\<not> is_zero totalPeriods"
  shows "strict_eq (princ * (totalPeriods - totalPeriods) / totalPeriods) (Num 0)"
proof -
  from assms(2,3) obtain y where y: "totalPeriods = Num y" "y \<noteq> 0"
    by (cases totalPeriods) (auto simp: is_finite_def is_nan_def is_inf_def is_zero_def)
  then have d: "Num y - Num y = Num 0"
    by (simp add: minus_number_def fround_def)
  from assms(1) have "is_zero (princ * Num 0)"
    by (cases princ)
      (auto simp: times_number_def mul_number_def is_finite_def is_nan_def is_inf_def
        is_zero_def signed_zero_def)
  then have "is_zero (princ * Num 0 / Num y)"
    using y(2)
    by (auto simp: divide_number_def div_number_def is_nan_def is_inf_def is_zero_def
        signed_zero_def)
  then show ?thesis
    by (auto simp: d y(1) strict_eq_def is_zero_def is_nan_def)
qed

lemma unpaid_whole_zero_rate:
  assumes "0 \<le> a" "0 < n" "a * n \<le> 2 ^ 53"
  shows "Num (of_int a) * (Num (of_int n) - Num 0) / Num (of_int n) = Num (of_int a)"
proof -
  have a53: "a \<le> 2 ^ 53"
  proof -
    have "a * 1 \<le> a * n" using assms(1,2) by (intro mult_left_mono) auto
    with assms(3) show ?thesis by simp
  qed
  have "Num (of_int n) - Num 0 = Num (of_int n)"
    by (simp add: minus_number_def)
  moreover have "Num (of_int a) * Num (of_int n) = Num (of_int (a * n))"
    using assms by (intro mul_int) auto
  moreover have "Num (of_int (a * n)) / Num (of_int n) = Num (of_int a)"
    using assms a53 by (intro div_int) auto
  ultimately show ?thesis by simp
qed

lemma Math_max_clamps: "is_nan (Math_max (Num 0) b) \<or> nonneg (Math_max (Num 0) b)"
  by (cases b) (auto simp add: Math_max_def less_number_def is_nan_def is_zero_def)

lemma remainingBalance_clamped:
  "\<not> strict_eq rate (Num 0) \<Longrightarrow>
   remainingBalance pow princ rate totalPeriods paidPeriods = Some z \<Longrightarrow>
     is_nan z \<or> nonneg z"
  using Math_max_clamps by (auto simp add: remainingBalance_def Let_def)

text \<open>
  The walk over the schedule. For a whole number \<open>k\<close> of paid periods from \<open>0\<close> to \<open>2\<^sup>5\<^sup>3\<close>
  the loop applies \<open>k\<close> times the step
  \<^verbatim>\<open>balance -= installment - balance * monthlyRate\<close> to the principal, and the result
  is the end of the walk clamped at zero.
\<close>

lemma amortize_walk:
  "0 \<le> i \<Longrightarrow> i \<le> k \<Longrightarrow> k \<le> 2 ^ 53 \<Longrightarrow>
     amortize monthlyRate installment (Num (of_int k)) (Num (of_int i)) bal
       = Some (((\<lambda>b. b - (installment - b * monthlyRate)) ^^ nat (k - i)) bal)"
proof (induction "nat (k - i)" arbitrary: i bal)
  case 0
  then have "i = k" by simp
  then show ?case by (subst amortize.simps) (simp add: less_number_def)
next
  case (Suc m)
  then have lt: "i < k" by linarith
  then have c: "Num (of_int i) < Num (of_int k)" by (simp add: less_number_def)
  have s: "Num (of_int i) + Num 1 = Num (of_int (i + 1))"
    using add_int[of i 1] Suc.prems lt by simp
  have n: "nat (k - i) = Suc (nat (k - (i + 1)))" using lt by simp
  have "amortize monthlyRate installment (Num (of_int k)) (Num (of_int (i + 1)))
          (bal - (installment - bal * monthlyRate))
        = Some (((\<lambda>b. b - (installment - b * monthlyRate)) ^^ nat (k - (i + 1)))
                  (bal - (installment - bal * monthlyRate)))"
    using Suc.hyps(2) Suc.prems lt by (intro Suc.hyps(1)) auto
  then show ?case
    by (subst amortize.simps) (simp only: c s if_True n funpow_Suc_right o_apply)
qed

lemma remainingBalance_walk:
  assumes "\<not> strict_eq rate (Num 0)" "0 \<le> k" "k \<le> 2 ^ 53"
  shows "remainingBalance pow princ rate totalPeriods (Num (of_int k))
    = Some (Math_max (Num 0)
        (((\<lambda>b. b - (installmentPayment pow princ (rate * Num 12) totalPeriods
                      - b * (rate / Num 100 / Num 12))) ^^ nat k) princ))"
  using assms amortize_walk[of 0 k "rate / Num 100 / Num 12"
      "installmentPayment pow princ (rate * Num 12) totalPeriods" princ]
  by (simp add: remainingBalance_def Let_def)

text \<open>
  With a positive finite monthly rate and an installment that is not negative, a
  balance at or below zero stays there: the interest on it is not positive, so the
  part of the installment that goes to the principal is not negative. Once the walk
  has reached zero or less, the remaining balance is \<open>0\<close>.
\<close>

lemma walk_stays_settled:
  assumes "Num 0 < mr" "is_finite mr" "Num 0 \<le> inst" "b \<le> Num 0"
  shows "((\<lambda>b. b - (inst - b * mr)) ^^ n) b \<le> Num 0"
proof (induction n)
  case 0
  from assms(4) show ?case by simp
next
  case (Suc n)
  let ?c = "((\<lambda>b. b - (inst - b * mr)) ^^ n) b"
  have "?c * mr \<le> Num 0" using Suc assms(1,2) by (rule mul_le_zero)
  then have "Num 0 \<le> inst - ?c * mr" using assms(3) by (intro sub_ge_zero)
  then have "?c - (inst - ?c * mr) \<le> Num 0" using Suc by (intro sub_le_zero)
  then show ?case by simp
qed

lemma Math_max_settled: "b \<le> Num 0 \<Longrightarrow> Math_max (Num 0) b = Num 0"
  unfolding le_zero_cases
  by (auto simp add: Math_max_def less_number_def is_nan_def is_zero_def)

lemma zero_rate_monthly:
  "strict_eq rate (Num 0) \<Longrightarrow> \<not> Num 0 < rate / Num 100 / Num 12"
  by (cases rate)
    (auto simp add: strict_eq_def divide_number_def div_number_def is_nan_def is_inf_def
      is_zero_def signed_zero_def less_number_def)

lemma remainingBalance_settled:
  assumes "mr = rate / Num 100 / Num 12"
    and "inst = installmentPayment pow princ (rate * Num 12) totalPeriods"
    and "Num 0 < mr" "is_finite mr" "Num 0 \<le> inst"
    and "0 \<le> j" "j \<le> k" "k \<le> 2 ^ 53"
    and "((\<lambda>b. b - (inst - b * mr)) ^^ nat j) princ \<le> Num 0"
  shows "remainingBalance pow princ rate totalPeriods (Num (of_int k)) = Some (Num 0)"
proof -
  let ?f = "\<lambda>b. b - (inst - b * mr)"
  have nz: "\<not> strict_eq rate (Num 0)"
    using assms(3) zero_rate_monthly[of rate] unfolding assms(1) by blast
  have "nat k = (nat k - nat j) + nat j" using assms(6,7) by simp
  then have "(?f ^^ nat k) princ = (?f ^^ (nat k - nat j)) ((?f ^^ nat j) princ)"
    by (metis funpow_add o_apply)
  also have "\<dots> \<le> Num 0"
    using assms(3,4,5,9) by (rule walk_stays_settled)
  finally have "Math_max (Num 0) ((?f ^^ nat k) princ) = Num 0"
    by (rule Math_max_settled)
  moreover have "0 \<le> k" using assms(6,7) by simp
  ultimately show ?thesis
    using remainingBalance_walk[OF nz _ assms(8), of pow princ totalPeriods]
    by (simp add: assms(1,2))
qed

text \<open>
  The schedule of \<open>1200\<close> at rate \<open>2\<close> over \<open>12\<close> periods, the power being correctly
  rounded: the monthly rate, the installment \<open>113.47...\<close>, and the balance after eleven
  periods, \<open>-36.45...\<close>.
\<close>

lemma schedule_1200_2_12:
  "Num 2 / Num 100 / Num 12 = Num (7686143364045647 / 4611686018427387904)"
  "installmentPayment samplePow (Num 1200) (Num 2 * Num 12) (Num 12)
     = Num (1996212019291071 / 17592186044416)"
  "((\<lambda>b. b - (Num (1996212019291071 / 17592186044416)
                  - b * Num (7686143364045647 / 4611686018427387904))) ^^ 11) (Num 1200)
     = Num (- (2565374163763045 / 70368744177664))"
proof -
  (* the monthly rate *)
  have m1: "Num 2 / Num 100 = Num (5764607523034235 / 288230376151711744)"
    by (rule div_Num, rule fround_nearest_pos[where e = "- 6" and m = 5764607523034235])
      (simp_all add: pow2_def)
  have m2: "Num (5764607523034235 / 288230376151711744) / Num 12
      = Num (7686143364045647 / 4611686018427387904)"
    by (rule div_Num, rule fround_nearest_pos[where e = "- 10" and m = 7686143364045647])
      (simp_all add: pow2_def)
  (* the installment, at twelve times the rate *)
  have i1: "Num 2 * Num 12 = Num 24"
    by (rule mul_Num, rule fround_nearest_pos[where e = 4 and m = 6755399441055744])
      (simp_all add: pow2_def)
  have i2: "Num 24 / Num 100 = Num (1080863910568919 / 4503599627370496)"
    by (rule div_Num, rule fround_nearest_pos[where e = "- 3" and m = 8646911284551352])
      (simp_all add: pow2_def)
  have i3: "Num (1080863910568919 / 4503599627370496) / Num 12
      = Num (5764607523034235 / 288230376151711744)"
    by (rule div_Num, rule fround_nearest_pos[where e = "- 6" and m = 5764607523034235])
      (simp_all add: pow2_def)
  have i4: "Num 1 + Num (5764607523034235 / 288230376151711744)
      = Num (2296835809958953 / 2251799813685248)"
    by (rule add_Num, rule fround_nearest_pos[where e = 0 and m = 4593671619917906])
      (simp_all add: pow2_def)
  have i5: "samplePow (Num (2296835809958953 / 2251799813685248)) (Num 12)
      = Num (5711653273407569 / 4503599627370496)"
    by (rule pow_Num[where n = 12], simp, simp, rule fround_nearest_pos[where e = 0 and m = 5711653273407569])
      (simp_all add: pow2_def power_divide)
  have i6: "Num (5764607523034235 / 288230376151711744) * Num (5711653273407569 / 4503599627370496)
      = Num (913864523745211 / 36028797018963968)"
    by (rule mul_Num, rule fround_nearest_pos[where e = "- 6" and m = 7310916189961688])
      (simp_all add: pow2_def)
  have i7: "Num 1200 * Num (913864523745211 / 36028797018963968)
      = Num (8567479910111353 / 281474976710656)"
    by (rule mul_Num, rule fround_nearest_pos[where e = 4 and m = 8567479910111353])
      (simp_all add: pow2_def)
  have i8: "Num (5711653273407569 / 4503599627370496) - Num 1
      = Num (1208053646037073 / 4503599627370496)"
    by (rule sub_Num, rule fround_nearest_pos[where e = "- 2" and m = 4832214584148292])
      (simp_all add: pow2_def)
  have i9: "Num (8567479910111353 / 281474976710656) / Num (1208053646037073 / 4503599627370496)
      = Num (1996212019291071 / 17592186044416)"
    by (rule div_Num, rule fround_nearest_pos[where e = 6 and m = 7984848077164284])
      (simp_all add: pow2_def)
  (* the steps of the walk: the interest, the part paid off, the balance *)
  have a0: "Num 1200 * Num (7686143364045647 / 4611686018427387904) = Num 2"
    by (rule mul_Num, rule fround_nearest_pos[where e = 1 and m = 4503599627370496])
      (simp_all add: pow2_def)
  have c0: "Num (1996212019291071 / 17592186044416) - Num 2
      = Num (1961027647202239 / 17592186044416)"
    by (rule sub_Num, rule fround_nearest_pos[where e = 6 and m = 7844110588808956])
      (simp_all add: pow2_def)
  have d0: "Num 1200 - Num (1961027647202239 / 17592186044416)
      = Num (299212431345265 / 274877906944)"
    by (rule sub_Num, rule fround_nearest_pos[where e = 10 and m = 4787398901524240])
      (simp_all add: pow2_def)
  have a1: "Num (299212431345265 / 274877906944) * Num (7686143364045647 / 4611686018427387904)
      = Num (8170494125268037 / 4503599627370496)"
    by (rule mul_Num, rule fround_nearest_pos[where e = 0 and m = 8170494125268037])
      (simp_all add: pow2_def)
  have c1: "Num (1996212019291071 / 17592186044416) - Num (8170494125268037 / 4503599627370496)
      = Num (7857184106456971 / 70368744177664)"
    by (rule sub_Num, rule fround_nearest_pos[where e = 6 and m = 7857184106456971])
      (simp_all add: pow2_def)
  have d1: "Num (299212431345265 / 274877906944) - Num (7857184106456971 / 70368744177664)
      = Num (8592649789741359 / 8796093022208)"
    by (rule sub_Num, rule fround_nearest_pos[where e = 9 and m = 8592649789741359])
      (simp_all add: pow2_def)
  have a2: "Num (8592649789741359 / 8796093022208) * Num (7686143364045647 / 4611686018427387904)
      = Num (916549310905745 / 562949953421312)"
    by (rule mul_Num, rule fround_nearest_pos[where e = 0 and m = 7332394487245960])
      (simp_all add: pow2_def)
  have c2: "Num (1996212019291071 / 17592186044416) - Num (916549310905745 / 562949953421312)
      = Num (3935139706650533 / 35184372088832)"
    by (rule sub_Num, rule fround_nearest_pos[where e = 6 and m = 7870279413301066])
      (simp_all add: pow2_def)
  have d2: "Num (8592649789741359 / 8796093022208) - Num (3935139706650533 / 35184372088832)
      = Num (3804432431539363 / 4398046511104)"
    by (rule sub_Num, rule fround_nearest_pos[where e = 9 and m = 7608864863078726])
      (simp_all add: pow2_def)
  have a3: "Num (3804432431539363 / 4398046511104) * Num (7686143364045647 / 4611686018427387904)
      = Num (6492898016493847 / 4503599627370496)"
    by (rule mul_Num, rule fround_nearest_pos[where e = 0 and m = 6492898016493847])
      (simp_all add: pow2_def)
  have c3: "Num (1996212019291071 / 17592186044416) - Num (6492898016493847 / 4503599627370496)
      = Num (985424568207071 / 8796093022208)"
    by (rule sub_Num, rule fround_nearest_pos[where e = 6 and m = 7883396545656568])
      (simp_all add: pow2_def)
  have d3: "Num (3804432431539363 / 4398046511104) - Num (985424568207071 / 8796093022208)
      = Num (6623440294871655 / 8796093022208)"
    by (rule sub_Num, rule fround_nearest_pos[where e = 9 and m = 6623440294871655])
      (simp_all add: pow2_def)
  have a4: "Num (6623440294871655 / 8796093022208) * Num (7686143364045647 / 4611686018427387904)
      = Num (2826001192478573 / 2251799813685248)"
    by (rule mul_Num, rule fround_nearest_pos[where e = 0 and m = 5652002384957146])
      (simp_all add: pow2_def)
  have c4: "Num (1996212019291071 / 17592186044416) - Num (2826001192478573 / 2251799813685248)
      = Num (7896535539899329 / 70368744177664)"
    by (rule sub_Num, rule fround_nearest_pos[where e = 6 and m = 7896535539899329])
      (simp_all add: pow2_def)
  have d4: "Num (6623440294871655 / 8796093022208) - Num (7896535539899329 / 70368744177664)
      = Num (5636373352384239 / 8796093022208)"
    by (rule sub_Num, rule fround_nearest_pos[where e = 9 and m = 5636373352384239])
      (simp_all add: pow2_def)
  have a5: "Num (5636373352384239 / 8796093022208) * Num (7686143364045647 / 4611686018427387904)
      = Num (2404852630350609 / 2251799813685248)"
    by (rule mul_Num, rule fround_nearest_pos[where e = 0 and m = 4809705260701218])
      (simp_all add: pow2_def)
  have c5: "Num (1996212019291071 / 17592186044416) - Num (2404852630350609 / 2251799813685248)
      = Num (7909696432465827 / 70368744177664)"
    by (rule sub_Num, rule fround_nearest_pos[where e = 6 and m = 7909696432465827])
      (simp_all add: pow2_def)
  have d5: "Num (5636373352384239 / 8796093022208) - Num (7909696432465827 / 70368744177664)
      = Num (4647661298326011 / 8796093022208)"
    by (rule sub_Num, rule fround_nearest_pos[where e = 9 and m = 4647661298326011])
      (simp_all add: pow2_def)
  have a6: "Num (4647661298326011 / 8796093022208) * Num (7686143364045647 / 4611686018427387904)
      = Num (3966004307904863 / 4503599627370496)"
    by (rule mul_Num, rule fround_nearest_pos[where e = "- 1" and m = 7932008615809726])
      (simp_all add: pow2_def)
  have c6: "Num (1996212019291071 / 17592186044416) - Num (3966004307904863 / 4503599627370496)
      = Num (7922879259853271 / 70368744177664)"
    by (rule sub_Num, rule fround_nearest_pos[where e = 6 and m = 7922879259853271])
      (simp_all add: pow2_def)
  have d6: "Num (4647661298326011 / 8796093022208) - Num (7922879259853271 / 70368744177664)
      = Num (57145334231943 / 137438953472)"
    by (rule sub_Num, rule fround_nearest_pos[where e = 8 and m = 7314602781688704])
      (simp_all add: pow2_def)
  have a7: "Num (57145334231943 / 137438953472) * Num (7686143364045647 / 4611686018427387904)
      = Num (3120897186853847 / 4503599627370496)"
    by (rule mul_Num, rule fround_nearest_pos[where e = "- 1" and m = 6241794373707694])
      (simp_all add: pow2_def)
  have c7: "Num (1996212019291071 / 17592186044416) - Num (3120897186853847 / 4503599627370496)
      = Num (7936084058619693 / 70368744177664)"
    by (rule sub_Num, rule fround_nearest_pos[where e = 6 and m = 7936084058619693])
      (simp_all add: pow2_def)
  have d7: "Num (57145334231943 / 137438953472) - Num (7936084058619693 / 70368744177664)
      = Num (5330581767033781 / 17592186044416)"
    by (rule sub_Num, rule fround_nearest_pos[where e = 8 and m = 5330581767033781])
      (simp_all add: pow2_def)
  have a8: "Num (5330581767033781 / 17592186044416) * Num (7686143364045647 / 4611686018427387904)
      = Num (4548763107868827 / 9007199254740992)"
    by (rule mul_Num, rule fround_nearest_pos[where e = "- 1" and m = 4548763107868827])
      (simp_all add: pow2_def)
  have c8: "Num (1996212019291071 / 17592186044416) - Num (4548763107868827 / 9007199254740992)
      = Num (7949310865384059 / 70368744177664)"
    by (rule sub_Num, rule fround_nearest_pos[where e = 6 and m = 7949310865384059])
      (simp_all add: pow2_def)
  have d8: "Num (5330581767033781 / 17592186044416) - Num (7949310865384059 / 70368744177664)
      = Num (1671627025343883 / 8796093022208)"
    by (rule sub_Num, rule fround_nearest_pos[where e = 7 and m = 6686508101375532])
      (simp_all add: pow2_def)
  have a9: "Num (1671627025343883 / 8796093022208) * Num (7686143364045647 / 4611686018427387904)
      = Num (5705820246507121 / 18014398509481984)"
    by (rule mul_Num, rule fround_nearest_pos[where e = "- 2" and m = 5705820246507121])
      (simp_all add: pow2_def)
  have c9: "Num (1996212019291071 / 17592186044416) - Num (5705820246507121 / 18014398509481984)
      = Num (3981279858413183 / 35184372088832)"
    by (rule sub_Num, rule fround_nearest_pos[where e = 6 and m = 7962559716826366])
      (simp_all add: pow2_def)
  have d9: "Num (1671627025343883 / 8796093022208) - Num (3981279858413183 / 35184372088832)
      = Num (2705228242962349 / 35184372088832)"
    by (rule sub_Num, rule fround_nearest_pos[where e = 6 and m = 5410456485924698])
      (simp_all add: pow2_def)
  have a10: "Num (2705228242962349 / 35184372088832) * Num (7686143364045647 / 4611686018427387904)
      = Num (1154230716997269 / 9007199254740992)"
    by (rule mul_Num, rule fround_nearest_pos[where e = "- 3" and m = 4616922867989076])
      (simp_all add: pow2_def)
  have c10: "Num (1996212019291071 / 17592186044416) - Num (1154230716997269 / 9007199254740992)
      = Num (7975830649687743 / 70368744177664)"
    by (rule sub_Num, rule fround_nearest_pos[where e = 6 and m = 7975830649687743])
      (simp_all add: pow2_def)
  have d10: "Num (2705228242962349 / 35184372088832) - Num (7975830649687743 / 70368744177664)
      = Num (- (2565374163763045 / 70368744177664))"
    by (rule sub_Num, rule fround_nearest_neg[where e = 5 and m = 5130748327526090])
      (simp_all add: pow2_def)
  (* the monthly rate, the installment and the walk, put together *)
  have mrv: "Num 2 / Num 100 / Num 12 = Num (7686143364045647 / 4611686018427387904)"
    by (simp only: m1 m2)
  have nz12: "\<not> strict_eq (Num 24) (Num 0)"
    by (simp add: strict_eq_def is_nan_def is_zero_def)
  have instv: "installmentPayment samplePow (Num 1200) (Num 2 * Num 12) (Num 12)
      = Num (1996212019291071 / 17592186044416)"
    by (simp only: installmentPayment_def Let_def i1 nz12 if_False i2 i3 i4 i5 i6 i7 i8 i9)
  let ?f = "\<lambda>b. b - (Num (1996212019291071 / 17592186044416)
                  - b * Num (7686143364045647 / 4611686018427387904))"
  have w0: "(?f ^^ 0) (Num 1200) = Num 1200"
    by simp
  have s0: "?f (Num 1200) = Num (299212431345265 / 274877906944)"
    by (simp only: a0 c0 d0)
  have w1: "(?f ^^ 1) (Num 1200) = Num (299212431345265 / 274877906944)"
    by (rule funpow_next[OF w0 s0]) simp
  have s1: "?f (Num (299212431345265 / 274877906944)) = Num (8592649789741359 / 8796093022208)"
    by (simp only: a1 c1 d1)
  have w2: "(?f ^^ 2) (Num 1200) = Num (8592649789741359 / 8796093022208)"
    by (rule funpow_next[OF w1 s1]) simp
  have s2: "?f (Num (8592649789741359 / 8796093022208)) = Num (3804432431539363 / 4398046511104)"
    by (simp only: a2 c2 d2)
  have w3: "(?f ^^ 3) (Num 1200) = Num (3804432431539363 / 4398046511104)"
    by (rule funpow_next[OF w2 s2]) simp
  have s3: "?f (Num (3804432431539363 / 4398046511104)) = Num (6623440294871655 / 8796093022208)"
    by (simp only: a3 c3 d3)
  have w4: "(?f ^^ 4) (Num 1200) = Num (6623440294871655 / 8796093022208)"
    by (rule funpow_next[OF w3 s3]) simp
  have s4: "?f (Num (6623440294871655 / 8796093022208)) = Num (5636373352384239 / 8796093022208)"
    by (simp only: a4 c4 d4)
  have w5: "(?f ^^ 5) (Num 1200) = Num (5636373352384239 / 8796093022208)"
    by (rule funpow_next[OF w4 s4]) simp
  have s5: "?f (Num (5636373352384239 / 8796093022208)) = Num (4647661298326011 / 8796093022208)"
    by (simp only: a5 c5 d5)
  have w6: "(?f ^^ 6) (Num 1200) = Num (4647661298326011 / 8796093022208)"
    by (rule funpow_next[OF w5 s5]) simp
  have s6: "?f (Num (4647661298326011 / 8796093022208)) = Num (57145334231943 / 137438953472)"
    by (simp only: a6 c6 d6)
  have w7: "(?f ^^ 7) (Num 1200) = Num (57145334231943 / 137438953472)"
    by (rule funpow_next[OF w6 s6]) simp
  have s7: "?f (Num (57145334231943 / 137438953472)) = Num (5330581767033781 / 17592186044416)"
    by (simp only: a7 c7 d7)
  have w8: "(?f ^^ 8) (Num 1200) = Num (5330581767033781 / 17592186044416)"
    by (rule funpow_next[OF w7 s7]) simp
  have s8: "?f (Num (5330581767033781 / 17592186044416)) = Num (1671627025343883 / 8796093022208)"
    by (simp only: a8 c8 d8)
  have w9: "(?f ^^ 9) (Num 1200) = Num (1671627025343883 / 8796093022208)"
    by (rule funpow_next[OF w8 s8]) simp
  have s9: "?f (Num (1671627025343883 / 8796093022208)) = Num (2705228242962349 / 35184372088832)"
    by (simp only: a9 c9 d9)
  have w10: "(?f ^^ 10) (Num 1200) = Num (2705228242962349 / 35184372088832)"
    by (rule funpow_next[OF w9 s9]) simp
  have s10: "?f (Num (2705228242962349 / 35184372088832))
      = Num (- (2565374163763045 / 70368744177664))"
    by (simp only: a10 c10 d10)
  have w11: "(?f ^^ 11) (Num 1200) = Num (- (2565374163763045 / 70368744177664))"
    by (rule funpow_next[OF w10 s10]) simp
  show "Num 2 / Num 100 / Num 12 = Num (7686143364045647 / 4611686018427387904)"
    by (rule mrv)
  show "installmentPayment samplePow (Num 1200) (Num 2 * Num 12) (Num 12)
     = Num (1996212019291071 / 17592186044416)"
    by (rule instv)
  show "(?f ^^ 11) (Num 1200)
     = Num (- (2565374163763045 / 70368744177664))"
    by (rule w11)
qed

text \<open>
  A loan of \<open>1200\<close> at the rate \<open>10\<^sup>-\<^sup>1\<^sup>0\<close>, fully paid. The literal denotes the double
  below. Over twelve periods, the power being correctly rounded, the installment is
  \<open>99.9911...\<close> and the walk ends above zero.
\<close>

lemma tiny_rate: "lit (1 / 10 ^ 10) = Num (7737125245533627 / 77371252455336267181195264)"
  unfolding lit_def
  by (rule fround_nearest_pos[where e = "- 34" and m = 7737125245533627])
    (simp_all add: pow2_def)

lemma fully_paid_tiny_rate_12:
  "remainingBalance samplePow (Num 1200) (Num (7737125245533627 / 77371252455336267181195264)) (Num 12)
      (Num 12)
     = Some (Num (3753159259733 / 35184372088832))"
proof -
  (* the monthly rate *)
  have m1: "Num (7737125245533627 / 77371252455336267181195264) / Num 100
      = Num (4951760157141521 / 4951760157141521099596496896)"
    by (rule div_Num, rule fround_nearest_pos[where e = "- 40" and m = 4951760157141521])
      (simp_all add: pow2_def)
  have m2: "Num (4951760157141521 / 4951760157141521099596496896) / Num 12
      = Num (6602346876188695 / 79228162514264337593543950336)"
    by (rule div_Num, rule fround_nearest_pos[where e = "- 44" and m = 6602346876188695])
      (simp_all add: pow2_def)
  (* the installment, at twelve times the rate *)
  have i1: "Num (7737125245533627 / 77371252455336267181195264) * Num 12
      = Num (1450710983537555 / 1208925819614629174706176)"
    by (rule mul_Num, rule fround_nearest_pos[where e = "- 30" and m = 5802843934150220])
      (simp_all add: pow2_def)
  have i2: "Num (1450710983537555 / 1208925819614629174706176) / Num 100
      = Num (3713820117856141 / 309485009821345068724781056)"
    by (rule div_Num, rule fround_nearest_pos[where e = "- 37" and m = 7427640235712282])
      (simp_all add: pow2_def)
  have i3: "Num (3713820117856141 / 309485009821345068724781056) / Num 12
      = Num (4951760157141521 / 4951760157141521099596496896)"
    by (rule div_Num, rule fround_nearest_pos[where e = "- 40" and m = 4951760157141521])
      (simp_all add: pow2_def)
  have i4: "Num 1 + Num (4951760157141521 / 4951760157141521099596496896)
      = Num (562949953421875 / 562949953421312)"
    by (rule add_Num, rule fround_nearest_pos[where e = 0 and m = 4503599627375000])
      (simp_all add: pow2_def)
  have i5: "samplePow (Num (562949953421875 / 562949953421312)) (Num 12)
      = Num (140737488357017 / 140737488355328)"
    by (rule pow_Num[where n = 12], simp, simp, rule fround_nearest_pos[where e = 0 and m = 4503599627424544])
      (simp_all add: pow2_def power_divide)
  have i6: "Num (4951760157141521 / 4951760157141521099596496896) * Num (140737488357017 / 140737488355328)
      = Num (4951760157200947 / 4951760157141521099596496896)"
    by (rule mul_Num, rule fround_nearest_pos[where e = "- 40" and m = 4951760157200947])
      (simp_all add: pow2_def)
  have i7: "Num 1200 * Num (4951760157200947 / 4951760157141521099596496896)
      = Num (1450710983554965 / 1208925819614629174706176)"
    by (rule mul_Num, rule fround_nearest_pos[where e = "- 30" and m = 5802843934219860])
      (simp_all add: pow2_def)
  have i8: "Num (140737488357017 / 140737488355328) - Num 1 = Num (1689 / 140737488355328)"
    by (rule sub_Num, rule fround_nearest_pos[where e = "- 37" and m = 7428300557254656])
      (simp_all add: pow2_def)
  have i9: "Num (1450710983554965 / 1208925819614629174706176) / Num (1689 / 140737488355328)
      = Num (7036248891226923 / 70368744177664)"
    by (rule div_Num, rule fround_nearest_pos[where e = 6 and m = 7036248891226923])
      (simp_all add: pow2_def)
  (* the steps of the walk: the interest, the part paid off, the balance *)
  have a0: "Num 1200 * Num (6602346876188695 / 79228162514264337593543950336)
      = Num (7737125245533627 / 77371252455336267181195264)"
    by (rule mul_Num, rule fround_nearest_pos[where e = "- 34" and m = 7737125245533627])
      (simp_all add: pow2_def)
  have c0: "Num (7036248891226923 / 70368744177664) - Num (7737125245533627 / 77371252455336267181195264)
      = Num (3518124445609943 / 35184372088832)"
    by (rule sub_Num, rule fround_nearest_pos[where e = 6 and m = 7036248891219886])
      (simp_all add: pow2_def)
  have d0: "Num 1200 - Num (3518124445609943 / 35184372088832)
      = Num (4837890257623557 / 4398046511104)"
    by (rule sub_Num, rule fround_nearest_pos[where e = 10 and m = 4837890257623557])
      (simp_all add: pow2_def)
  have a1: "Num (4837890257623557 / 4398046511104) * Num (6602346876188695 / 79228162514264337593543950336)
      = Num (1773105530720443 / 19342813113834066795298816)"
    by (rule mul_Num, rule fround_nearest_pos[where e = "- 34" and m = 7092422122881772])
      (simp_all add: pow2_def)
  have c1: "Num (7036248891226923 / 70368744177664) - Num (1773105530720443 / 19342813113834066795298816)
      = Num (879531111402559 / 8796093022208)"
    by (rule sub_Num, rule fround_nearest_pos[where e = 6 and m = 7036248891220472])
      (simp_all add: pow2_def)
  have d1: "Num (4837890257623557 / 4398046511104) - Num (879531111402559 / 8796093022208)
      = Num (8796249403844555 / 8796093022208)"
    by (rule sub_Num, rule fround_nearest_pos[where e = 9 and m = 8796249403844555])
      (simp_all add: pow2_def)
  have a2: "Num (8796249403844555 / 8796093022208) * Num (6602346876188695 / 79228162514264337593543950336)
      = Num (805964875028733 / 9671406556917033397649408)"
    by (rule mul_Num, rule fround_nearest_pos[where e = "- 34" and m = 6447719000229864])
      (simp_all add: pow2_def)
  have c2: "Num (7036248891226923 / 70368744177664) - Num (805964875028733 / 9671406556917033397649408)
      = Num (7036248891221059 / 70368744177664)"
    by (rule sub_Num, rule fround_nearest_pos[where e = 6 and m = 7036248891221059])
      (simp_all add: pow2_def)
  have d2: "Num (8796249403844555 / 8796093022208) - Num (7036248891221059 / 70368744177664)
      = Num (7916718292441923 / 8796093022208)"
    by (rule sub_Num, rule fround_nearest_pos[where e = 9 and m = 7916718292441923])
      (simp_all add: pow2_def)
  have a3: "Num (7916718292441923 / 8796093022208) * Num (6602346876188695 / 79228162514264337593543950336)
      = Num (5803015877577903 / 77371252455336267181195264)"
    by (rule mul_Num, rule fround_nearest_pos[where e = "- 34" and m = 5803015877577903])
      (simp_all add: pow2_def)
  have c3: "Num (7036248891226923 / 70368744177664) - Num (5803015877577903 / 77371252455336267181195264)
      = Num (7036248891221645 / 70368744177664)"
    by (rule sub_Num, rule fround_nearest_pos[where e = 6 and m = 7036248891221645])
      (simp_all add: pow2_def)
  have d3: "Num (7916718292441923 / 8796093022208) - Num (7036248891221645 / 70368744177664)
      = Num (7037187181039217 / 8796093022208)"
    by (rule sub_Num, rule fround_nearest_pos[where e = 9 and m = 7037187181039217])
      (simp_all add: pow2_def)
  have a4: "Num (7037187181039217 / 8796093022208) * Num (6602346876188695 / 79228162514264337593543950336)
      = Num (5158312754925887 / 77371252455336267181195264)"
    by (rule mul_Num, rule fround_nearest_pos[where e = "- 34" and m = 5158312754925887])
      (simp_all add: pow2_def)
  have c4: "Num (7036248891226923 / 70368744177664) - Num (5158312754925887 / 77371252455336267181195264)
      = Num (879531111402779 / 8796093022208)"
    by (rule sub_Num, rule fround_nearest_pos[where e = 6 and m = 7036248891222232])
      (simp_all add: pow2_def)
  have d4: "Num (7037187181039217 / 8796093022208) - Num (879531111402779 / 8796093022208)
      = Num (3078828034818219 / 4398046511104)"
    by (rule sub_Num, rule fround_nearest_pos[where e = 9 and m = 6157656069636438])
      (simp_all add: pow2_def)
  have a5: "Num (3078828034818219 / 4398046511104) * Num (6602346876188695 / 79228162514264337593543950336)
      = Num (2256804816136909 / 38685626227668133590597632)"
    by (rule mul_Num, rule fround_nearest_pos[where e = "- 34" and m = 4513609632273818])
      (simp_all add: pow2_def)
  have c5: "Num (7036248891226923 / 70368744177664) - Num (2256804816136909 / 38685626227668133590597632)
      = Num (3518124445611409 / 35184372088832)"
    by (rule sub_Num, rule fround_nearest_pos[where e = 6 and m = 7036248891222818])
      (simp_all add: pow2_def)
  have d5: "Num (3078828034818219 / 4398046511104) - Num (3518124445611409 / 35184372088832)
      = Num (2639062479116793 / 4398046511104)"
    by (rule sub_Num, rule fround_nearest_pos[where e = 9 and m = 5278124958233586])
      (simp_all add: pow2_def)
  have a6: "Num (2639062479116793 / 4398046511104) * Num (6602346876188695 / 79228162514264337593543950336)
      = Num (3868906509621695 / 77371252455336267181195264)"
    by (rule mul_Num, rule fround_nearest_pos[where e = "- 35" and m = 7737813019243390])
      (simp_all add: pow2_def)
  have c6: "Num (7036248891226923 / 70368744177664) - Num (3868906509621695 / 77371252455336267181195264)
      = Num (1759062222805851 / 17592186044416)"
    by (rule sub_Num, rule fround_nearest_pos[where e = 6 and m = 7036248891223404])
      (simp_all add: pow2_def)
  have d6: "Num (2639062479116793 / 4398046511104) - Num (1759062222805851 / 17592186044416)
      = Num (8797187693661321 / 17592186044416)"
    by (rule sub_Num, rule fround_nearest_pos[where e = 8 and m = 8797187693661321])
      (simp_all add: pow2_def)
  have a7: "Num (8797187693661321 / 17592186044416) * Num (6602346876188695 / 79228162514264337593543950336)
      = Num (1612101693484759 / 38685626227668133590597632)"
    by (rule mul_Num, rule fround_nearest_pos[where e = "- 35" and m = 6448406773939036])
      (simp_all add: pow2_def)
  have c7: "Num (7036248891226923 / 70368744177664) - Num (1612101693484759 / 38685626227668133590597632)
      = Num (7036248891223991 / 70368744177664)"
    by (rule sub_Num, rule fround_nearest_pos[where e = 6 and m = 7036248891223991])
      (simp_all add: pow2_def)
  have d7: "Num (8797187693661321 / 17592186044416) - Num (7036248891223991 / 70368744177664)
      = Num (7038125470855323 / 17592186044416)"
    by (rule sub_Num, rule fround_nearest_pos[where e = 8 and m = 7038125470855323])
      (simp_all add: pow2_def)
  have a8: "Num (7038125470855323 / 17592186044416) * Num (6602346876188695 / 79228162514264337593543950336)
      = Num (5159000528634575 / 154742504910672534362390528)"
    by (rule mul_Num, rule fround_nearest_pos[where e = "- 35" and m = 5159000528634575])
      (simp_all add: pow2_def)
  have c8: "Num (7036248891226923 / 70368744177664) - Num (5159000528634575 / 154742504910672534362390528)
      = Num (7036248891224577 / 70368744177664)"
    by (rule sub_Num, rule fround_nearest_pos[where e = 6 and m = 7036248891224577])
      (simp_all add: pow2_def)
  have d8: "Num (7038125470855323 / 17592186044416) - Num (7036248891224577 / 70368744177664)
      = Num (5279063248049179 / 17592186044416)"
    by (rule sub_Num, rule fround_nearest_pos[where e = 8 and m = 5279063248049179])
      (simp_all add: pow2_def)
  have a9: "Num (5279063248049179 / 17592186044416) * Num (6602346876188695 / 79228162514264337593543950336)
      = Num (3869594283330007 / 154742504910672534362390528)"
    by (rule mul_Num, rule fround_nearest_pos[where e = "- 36" and m = 7739188566660014])
      (simp_all add: pow2_def)
  have c9: "Num (7036248891226923 / 70368744177664) - Num (3869594283330007 / 154742504910672534362390528)
      = Num (7036248891225163 / 70368744177664)"
    by (rule sub_Num, rule fround_nearest_pos[where e = 6 and m = 7036248891225163])
      (simp_all add: pow2_def)
  have d9: "Num (5279063248049179 / 17592186044416) - Num (7036248891225163 / 70368744177664)
      = Num (440000128155361 / 2199023255552)"
    by (rule sub_Num, rule fround_nearest_pos[where e = 7 and m = 7040002050485776])
      (simp_all add: pow2_def)
  have a10: "Num (440000128155361 / 2199023255552) * Num (6602346876188695 / 79228162514264337593543950336)
      = Num (2580188038025331 / 154742504910672534362390528)"
    by (rule mul_Num, rule fround_nearest_pos[where e = "- 36" and m = 5160376076050662])
      (simp_all add: pow2_def)
  have c10: "Num (7036248891226923 / 70368744177664) - Num (2580188038025331 / 154742504910672534362390528)
      = Num (3518124445612875 / 35184372088832)"
    by (rule sub_Num, rule fround_nearest_pos[where e = 6 and m = 7036248891225750])
      (simp_all add: pow2_def)
  have d10: "Num (440000128155361 / 2199023255552) - Num (3518124445612875 / 35184372088832)
      = Num (3521877604872901 / 35184372088832)"
    by (rule sub_Num, rule fround_nearest_pos[where e = 6 and m = 7043755209745802])
      (simp_all add: pow2_def)
  have a11: "Num (3521877604872901 / 35184372088832) * Num (6602346876188695 / 79228162514264337593543950336)
      = Num (322695448180137 / 38685626227668133590597632)"
    by (rule mul_Num, rule fround_nearest_pos[where e = "- 37" and m = 5163127170882192])
      (simp_all add: pow2_def)
  have c11: "Num (7036248891226923 / 70368744177664) - Num (322695448180137 / 38685626227668133590597632)
      = Num (219882777850823 / 2199023255552)"
    by (rule sub_Num, rule fround_nearest_pos[where e = 6 and m = 7036248891226336])
      (simp_all add: pow2_def)
  have d11: "Num (3521877604872901 / 35184372088832) - Num (219882777850823 / 2199023255552)
      = Num (3753159259733 / 35184372088832)"
    by (rule sub_Num, rule fround_nearest_pos[where e = "- 4" and m = 7686470163933184])
      (simp_all add: pow2_def)
  (* the monthly rate, the installment and the walk, put together *)
  have mrv: "Num (7737125245533627 / 77371252455336267181195264) / Num 100 / Num 12
      = Num (6602346876188695 / 79228162514264337593543950336)"
    by (simp only: m1 m2)
  have nz12: "\<not> strict_eq (Num (1450710983537555 / 1208925819614629174706176)) (Num 0)"
    by (simp add: strict_eq_def is_nan_def is_zero_def)
  have instv: "installmentPayment samplePow (Num 1200) (Num (7737125245533627 / 77371252455336267181195264) * Num 12) (Num 12)
      = Num (7036248891226923 / 70368744177664)"
    by (simp only: installmentPayment_def Let_def i1 nz12 if_False i2 i3 i4 i5 i6 i7 i8 i9)
  let ?f = "\<lambda>b. b - (Num (7036248891226923 / 70368744177664)
                  - b * Num (6602346876188695 / 79228162514264337593543950336))"
  have w0: "(?f ^^ 0) (Num 1200) = Num 1200"
    by simp
  have s0: "?f (Num 1200) = Num (4837890257623557 / 4398046511104)"
    by (simp only: a0 c0 d0)
  have w1: "(?f ^^ 1) (Num 1200) = Num (4837890257623557 / 4398046511104)"
    by (rule funpow_next[OF w0 s0]) simp
  have s1: "?f (Num (4837890257623557 / 4398046511104)) = Num (8796249403844555 / 8796093022208)"
    by (simp only: a1 c1 d1)
  have w2: "(?f ^^ 2) (Num 1200) = Num (8796249403844555 / 8796093022208)"
    by (rule funpow_next[OF w1 s1]) simp
  have s2: "?f (Num (8796249403844555 / 8796093022208)) = Num (7916718292441923 / 8796093022208)"
    by (simp only: a2 c2 d2)
  have w3: "(?f ^^ 3) (Num 1200) = Num (7916718292441923 / 8796093022208)"
    by (rule funpow_next[OF w2 s2]) simp
  have s3: "?f (Num (7916718292441923 / 8796093022208)) = Num (7037187181039217 / 8796093022208)"
    by (simp only: a3 c3 d3)
  have w4: "(?f ^^ 4) (Num 1200) = Num (7037187181039217 / 8796093022208)"
    by (rule funpow_next[OF w3 s3]) simp
  have s4: "?f (Num (7037187181039217 / 8796093022208)) = Num (3078828034818219 / 4398046511104)"
    by (simp only: a4 c4 d4)
  have w5: "(?f ^^ 5) (Num 1200) = Num (3078828034818219 / 4398046511104)"
    by (rule funpow_next[OF w4 s4]) simp
  have s5: "?f (Num (3078828034818219 / 4398046511104)) = Num (2639062479116793 / 4398046511104)"
    by (simp only: a5 c5 d5)
  have w6: "(?f ^^ 6) (Num 1200) = Num (2639062479116793 / 4398046511104)"
    by (rule funpow_next[OF w5 s5]) simp
  have s6: "?f (Num (2639062479116793 / 4398046511104)) = Num (8797187693661321 / 17592186044416)"
    by (simp only: a6 c6 d6)
  have w7: "(?f ^^ 7) (Num 1200) = Num (8797187693661321 / 17592186044416)"
    by (rule funpow_next[OF w6 s6]) simp
  have s7: "?f (Num (8797187693661321 / 17592186044416))
      = Num (7038125470855323 / 17592186044416)"
    by (simp only: a7 c7 d7)
  have w8: "(?f ^^ 8) (Num 1200) = Num (7038125470855323 / 17592186044416)"
    by (rule funpow_next[OF w7 s7]) simp
  have s8: "?f (Num (7038125470855323 / 17592186044416))
      = Num (5279063248049179 / 17592186044416)"
    by (simp only: a8 c8 d8)
  have w9: "(?f ^^ 9) (Num 1200) = Num (5279063248049179 / 17592186044416)"
    by (rule funpow_next[OF w8 s8]) simp
  have s9: "?f (Num (5279063248049179 / 17592186044416)) = Num (440000128155361 / 2199023255552)"
    by (simp only: a9 c9 d9)
  have w10: "(?f ^^ 10) (Num 1200) = Num (440000128155361 / 2199023255552)"
    by (rule funpow_next[OF w9 s9]) simp
  have s10: "?f (Num (440000128155361 / 2199023255552)) = Num (3521877604872901 / 35184372088832)"
    by (simp only: a10 c10 d10)
  have w11: "(?f ^^ 11) (Num 1200) = Num (3521877604872901 / 35184372088832)"
    by (rule funpow_next[OF w10 s10]) simp
  have s11: "?f (Num (3521877604872901 / 35184372088832)) = Num (3753159259733 / 35184372088832)"
    by (simp only: a11 c11 d11)
  have w12: "(?f ^^ 12) (Num 1200) = Num (3753159259733 / 35184372088832)"
    by (rule funpow_next[OF w11 s11]) simp
  have nz: "\<not> strict_eq (Num (7737125245533627 / 77371252455336267181195264)) (Num 0)"
    by (simp add: strict_eq_def is_nan_def is_zero_def)
  have "remainingBalance samplePow (Num 1200) (Num (7737125245533627 / 77371252455336267181195264)) (Num 12)
          (Num (of_int 12))
      = Some (Math_max (Num 0) ((?f ^^ nat 12) (Num 1200)))"
    using remainingBalance_walk[OF nz, of 12 samplePow "Num 1200" "Num 12"]
    by (simp add: mrv instv)
  then show "remainingBalance samplePow (Num 1200) (Num (7737125245533627 / 77371252455336267181195264)) (Num 12)
      (Num 12)
     = Some (Num (3753159259733 / 35184372088832))"
    by (simp add: w12 s0 Math_max_def less_number_def is_nan_def is_zero_def)
qed

text \<open>
  Over one period the power is the base itself, whatever the platform's
  \<^verbatim>\<open>Math.pow\<close> is otherwise; the installment is \<open>1199.89...\<close> and the one payment leaves
  \<open>0.10667121457618123\<close>.
\<close>

lemma fully_paid_tiny_rate_1:
  assumes "pow (Num (562949953421875 / 562949953421312)) (Num 1)
             = Num (562949953421875 / 562949953421312)"
  shows "remainingBalance pow (Num 1200) (Num (7737125245533627 / 77371252455336267181195264)) (Num 1)
      (Num 1)
     = Some (Num (234572481551 / 2199023255552))"
proof -
  (* the monthly rate *)
  have m1: "Num (7737125245533627 / 77371252455336267181195264) / Num 100
      = Num (4951760157141521 / 4951760157141521099596496896)"
    by (rule div_Num, rule fround_nearest_pos[where e = "- 40" and m = 4951760157141521])
      (simp_all add: pow2_def)
  have m2: "Num (4951760157141521 / 4951760157141521099596496896) / Num 12
      = Num (6602346876188695 / 79228162514264337593543950336)"
    by (rule div_Num, rule fround_nearest_pos[where e = "- 44" and m = 6602346876188695])
      (simp_all add: pow2_def)
  (* the installment, at twelve times the rate *)
  have i1: "Num (7737125245533627 / 77371252455336267181195264) * Num 12
      = Num (1450710983537555 / 1208925819614629174706176)"
    by (rule mul_Num, rule fround_nearest_pos[where e = "- 30" and m = 5802843934150220])
      (simp_all add: pow2_def)
  have i2: "Num (1450710983537555 / 1208925819614629174706176) / Num 100
      = Num (3713820117856141 / 309485009821345068724781056)"
    by (rule div_Num, rule fround_nearest_pos[where e = "- 37" and m = 7427640235712282])
      (simp_all add: pow2_def)
  have i3: "Num (3713820117856141 / 309485009821345068724781056) / Num 12
      = Num (4951760157141521 / 4951760157141521099596496896)"
    by (rule div_Num, rule fround_nearest_pos[where e = "- 40" and m = 4951760157141521])
      (simp_all add: pow2_def)
  have i4: "Num 1 + Num (4951760157141521 / 4951760157141521099596496896)
      = Num (562949953421875 / 562949953421312)"
    by (rule add_Num, rule fround_nearest_pos[where e = 0 and m = 4503599627375000])
      (simp_all add: pow2_def)
  note i5 = assms
  have i6: "Num (4951760157141521 / 4951760157141521099596496896) * Num (562949953421875 / 562949953421312)
      = Num (4951760157146473 / 4951760157141521099596496896)"
    by (rule mul_Num, rule fround_nearest_pos[where e = "- 40" and m = 4951760157146473])
      (simp_all add: pow2_def)
  have i7: "Num 1200 * Num (4951760157146473 / 4951760157141521099596496896)
      = Num (5802843934156023 / 4835703278458516698824704)"
    by (rule mul_Num, rule fround_nearest_pos[where e = "- 30" and m = 5802843934156023])
      (simp_all add: pow2_def)
  have i8: "Num (562949953421875 / 562949953421312) - Num 1 = Num (563 / 562949953421312)"
    by (rule sub_Num, rule fround_nearest_pos[where e = "- 40" and m = 4952200371503104])
      (simp_all add: pow2_def)
  have i9: "Num (5802843934156023 / 4835703278458516698824704) / Num (563 / 562949953421312)
      = Num (2638593334181069 / 2199023255552)"
    by (rule div_Num, rule fround_nearest_pos[where e = 10 and m = 5277186668362138])
      (simp_all add: pow2_def)
  (* the steps of the walk: the interest, the part paid off, the balance *)
  have a0: "Num 1200 * Num (6602346876188695 / 79228162514264337593543950336)
      = Num (7737125245533627 / 77371252455336267181195264)"
    by (rule mul_Num, rule fround_nearest_pos[where e = "- 34" and m = 7737125245533627])
      (simp_all add: pow2_def)
  have c0: "Num (2638593334181069 / 2199023255552) - Num (7737125245533627 / 77371252455336267181195264)
      = Num (2638593334180849 / 2199023255552)"
    by (rule sub_Num, rule fround_nearest_pos[where e = 10 and m = 5277186668361698])
      (simp_all add: pow2_def)
  have d0: "Num 1200 - Num (2638593334180849 / 2199023255552)
      = Num (234572481551 / 2199023255552)"
    by (rule sub_Num, rule fround_nearest_pos[where e = "- 4" and m = 7686471075463168])
      (simp_all add: pow2_def)
  (* the monthly rate, the installment and the walk, put together *)
  have mrv: "Num (7737125245533627 / 77371252455336267181195264) / Num 100 / Num 12
      = Num (6602346876188695 / 79228162514264337593543950336)"
    by (simp only: m1 m2)
  have nz12: "\<not> strict_eq (Num (1450710983537555 / 1208925819614629174706176)) (Num 0)"
    by (simp add: strict_eq_def is_nan_def is_zero_def)
  have instv: "installmentPayment pow (Num 1200) (Num (7737125245533627 / 77371252455336267181195264) * Num 12) (Num 1)
      = Num (2638593334181069 / 2199023255552)"
    by (simp only: installmentPayment_def Let_def i1 nz12 if_False i2 i3 i4 i5 i6 i7 i8 i9)
  let ?f = "\<lambda>b. b - (Num (2638593334181069 / 2199023255552)
                  - b * Num (6602346876188695 / 79228162514264337593543950336))"
  have w0: "(?f ^^ 0) (Num 1200) = Num 1200"
    by simp
  have s0: "?f (Num 1200) = Num (234572481551 / 2199023255552)"
    by (simp only: a0 c0 d0)
  have w1: "(?f ^^ 1) (Num 1200) = Num (234572481551 / 2199023255552)"
    by (rule funpow_next[OF w0 s0]) simp
  have nz: "\<not> strict_eq (Num (7737125245533627 / 77371252455336267181195264)) (Num 0)"
    by (simp add: strict_eq_def is_nan_def is_zero_def)
  have "remainingBalance pow (Num 1200) (Num (7737125245533627 / 77371252455336267181195264)) (Num 1)
          (Num (of_int 1))
      = Some (Math_max (Num 0) ((?f ^^ nat 1) (Num 1200)))"
    using remainingBalance_walk[OF nz, of 1 pow "Num 1200" "Num 1"]
    by (simp add: mrv instv)
  then show "remainingBalance pow (Num 1200) (Num (7737125245533627 / 77371252455336267181195264)) (Num 1)
      (Num 1)
     = Some (Num (234572481551 / 2199023255552))"
    by (simp add: w1 s0 Math_max_def less_number_def is_nan_def is_zero_def)
qed

lemma samplePow_1:
  "samplePow (Num (562949953421875 / 562949953421312)) (Num 1)
     = Num (562949953421875 / 562949953421312)"
  by (rule pow_Num[where n = 1], simp, simp, rule fround_nearest_pos[where e = 0 and m = 4503599627375000])
    (simp_all add: pow2_def)

text \<open>
  C2, as amended. The two ends of the schedule, in doubles.

  At rate zero a fully paid loan has remaining balance zero,
  \<open>remainingBalance(p, 0, n, n) = 0\<close>, for every finite \<open>p\<close> and every finite \<open>n\<close> other
  than zero; the unpaid balance \<open>remainingBalance(p, 0, n, 0)\<close> is the rounded quotient
  of the rounded product \<open>p \<times> n\<close> by \<open>n\<close>, which is \<open>p\<close> when \<open>p\<close> and \<open>n \<ge> 1\<close> are whole
  numbers with \<open>p \<times> n \<le> 2\<^sup>5\<^sup>3\<close>.

  At a rate other than zero an unpaid loan keeps its principal,
  \<open>remainingBalance(p, r, n, 0) = p\<close>, for every \<open>p \<ge> 0\<close>. After \<open>k\<close> paid periods, \<open>k\<close> a
  whole number from \<open>0\<close> to \<open>2\<^sup>5\<^sup>3\<close>, the result is \<open>Math.max(0, b\<^sub>k)\<close>, where \<open>b\<^sub>0 = p\<close> and
  \<open>b\<^sub>i\<^sub>+\<^sub>1 = b\<^sub>i - (installment - b\<^sub>i \<times> monthlyRate)\<close>, with \<open>monthlyRate = r / 100 / 12\<close>
  and \<open>installment = installmentPayment(p, r \<times> 12, n)\<close>; whatever the number of paid
  periods it is never negative (it is NaN when the walk ends in NaN). With a positive
  finite monthly rate and an installment that is not negative, the result is exactly
  \<open>0\<close> after \<open>k\<close> periods as soon as some \<open>b\<^sub>j\<close> with \<open>j \<le> k\<close> is zero or less. So a fully
  paid loan, \<open>k = n\<close>, has remaining balance \<open>0\<close> whenever its walk reaches zero or less
  within the \<open>n\<close> periods, as it does for \<open>1200\<close> at rate \<open>2\<close> over \<open>12\<close> periods, where
  \<open>b\<^sub>1\<^sub>1\<close> is negative.
\<close>

theorem remainingBalance_endpoints:
  "(is_finite princ \<and> is_finite totalPeriods \<and> \<not> is_zero totalPeriods \<longrightarrow>
      returns (remainingBalance pow princ (Num 0) totalPeriods totalPeriods) (Num 0))
   \<and> (\<not> strict_eq rate (Num 0) \<and> Num 0 \<le> princ \<longrightarrow>
      returns (remainingBalance pow princ rate totalPeriods (Num 0)) princ)
   \<and> (0 \<le> a \<and> 0 < n \<and> a * n \<le> 2 ^ 53 \<longrightarrow>
      remainingBalance pow (Num (of_int a)) (Num 0) (Num (of_int n)) (Num 0)
        = Some (Num (of_int a)))
   \<and> (\<not> strict_eq rate (Num 0)
        \<and> remainingBalance pow princ rate totalPeriods paidPeriods = Some z \<longrightarrow>
      is_nan z \<or> nonneg z)
   \<and> (\<not> strict_eq rate (Num 0) \<and> 0 \<le> k \<and> k \<le> 2 ^ 53
        \<and> mr = rate / Num 100 / Num 12
        \<and> inst = installmentPayment pow princ (rate * Num 12) totalPeriods \<longrightarrow>
      remainingBalance pow princ rate totalPeriods (Num (of_int k))
        = Some (Math_max (Num 0) (((\<lambda>b. b - (inst - b * mr)) ^^ nat k) princ)))
   \<and> (mr = rate / Num 100 / Num 12
        \<and> inst = installmentPayment pow princ (rate * Num 12) totalPeriods
        \<and> Num 0 < mr \<and> is_finite mr \<and> Num 0 \<le> inst
        \<and> 0 \<le> j \<and> j \<le> k \<and> k \<le> 2 ^ 53
        \<and> ((\<lambda>b. b - (inst - b * mr)) ^^ nat j) princ \<le> Num 0 \<longrightarrow>
      remainingBalance pow princ rate totalPeriods (Num (of_int k)) = Some (Num 0))"
proof (intro conjI impI)
  show "returns (remainingBalance pow princ (Num 0) totalPeriods totalPeriods) (Num 0)"
    if "is_finite princ \<and> is_finite totalPeriods \<and> \<not> is_zero totalPeriods"
    using that fully_paid_zero_rate[of princ totalPeriods]
    by (simp add: remainingBalance_zero_rate returns_def)
  show "returns (remainingBalance pow princ rate totalPeriods (Num 0)) princ"
    if "\<not> strict_eq rate (Num 0) \<and> Num 0 \<le> princ"
    using that by (simp add: remainingBalance_nothing_paid returns_def Math_max_nonneg)
  show "remainingBalance pow (Num (of_int a)) (Num 0) (Num (of_int n)) (Num 0)
        = Some (Num (of_int a))"
    if "0 \<le> a \<and> 0 < n \<and> a * n \<le> 2 ^ 53"
    using that by (simp add: remainingBalance_zero_rate unpaid_whole_zero_rate)
  show "is_nan z \<or> nonneg z"
    if "\<not> strict_eq rate (Num 0)
        \<and> remainingBalance pow princ rate totalPeriods paidPeriods = Some z"
    using that remainingBalance_clamped[of rate pow princ totalPeriods paidPeriods z] by blast
  show "remainingBalance pow princ rate totalPeriods (Num (of_int k))
        = Some (Math_max (Num 0) (((\<lambda>b. b - (inst - b * mr)) ^^ nat k) princ))"
    if "\<not> strict_eq rate (Num 0) \<and> 0 \<le> k \<and> k \<le> 2 ^ 53
        \<and> mr = rate / Num 100 / Num 12
        \<and> inst = installmentPayment pow princ (rate * Num 12) totalPeriods"
    using that remainingBalance_walk[of rate k pow princ totalPeriods] by simp
  show "remainingBalance pow princ rate totalPeriods (Num (of_int k)) = Some (Num 0)"
    if "mr = rate / Num 100 / Num 12
        \<and> inst = installmentPayment pow princ (rate * Num 12) totalPeriods
        \<and> Num 0 < mr \<and> is_finite mr \<and> Num 0 \<le> inst
        \<and> 0 \<le> j \<and> j \<le> k \<and> k \<le> 2 ^ 53
        \<and> ((\<lambda>b. b - (inst - b * mr)) ^^ nat j) princ \<le> Num 0"
    using that remainingBalance_settled[of mr rate inst pow princ totalPeriods j k] by blast
qed

theorem remainingBalance_endpoints_witness:
  "is_finite (Num 1200) \<and> is_finite (Num 12) \<and> \<not> is_zero (Num 12)
   \<and> returns (remainingBalance samplePow (Num 1200) (Num 0) (Num 12) (Num 12)) (Num 0)
   \<and> \<not> strict_eq (Num 2) (Num 0) \<and> Num 0 \<le> Num 1200
   \<and> returns (remainingBalance samplePow (Num 1200) (Num 2) (Num 12) (Num 0)) (Num 1200)
   \<and> remainingBalance samplePow (Num 1200) (Num 0) (Num 12) (Num 0) = Some (Num 1200)
   \<and> remainingBalance samplePow (Num 1200) (Num 2) (Num 12) (Num 0) = Some (Num 1200)
   \<and> nonneg (Num 1200)
   \<and> Num 2 / Num 100 / Num 12 = Num (7686143364045647 / 4611686018427387904)
   \<and> installmentPayment samplePow (Num 1200) (Num 2 * Num 12) (Num 12)
       = Num (1996212019291071 / 17592186044416)
   \<and> remainingBalance samplePow (Num 1200) (Num 2) (Num 12) (Num 12)
       = Some (Math_max (Num 0)
           (((\<lambda>b. b - (Num (1996212019291071 / 17592186044416)
              - b * Num (7686143364045647 / 4611686018427387904))) ^^ 12)
              (Num 1200)))
   \<and> Num 0 < Num (7686143364045647 / 4611686018427387904)
   \<and> is_finite (Num (7686143364045647 / 4611686018427387904))
   \<and> Num 0 \<le> Num (1996212019291071 / 17592186044416)
   \<and> ((\<lambda>b. b - (Num (1996212019291071 / 17592186044416)
              - b * Num (7686143364045647 / 4611686018427387904))) ^^ 11) (Num 1200)
       = Num (- (2565374163763045 / 70368744177664))
   \<and> Num (- (2565374163763045 / 70368744177664)) \<le> Num 0
   \<and> remainingBalance samplePow (Num 1200) (Num 2) (Num 12) (Num 12) = Some (Num 0)"
proof -
  let ?f = "\<lambda>b. b - (Num (1996212019291071 / 17592186044416)
                  - b * Num (7686143364045647 / 4611686018427387904))"
  note mrv = schedule_1200_2_12(1) and instv = schedule_1200_2_12(2)
    and w11 = schedule_1200_2_12(3)
  have h1: "is_finite (Num 1200)" and h2: "is_finite (Num 12)" and h3: "\<not> is_zero (Num 12)"
    and h4: "\<not> strict_eq (Num 2) (Num 0)" and h5: "Num 0 \<le> Num 1200"
    by (simp_all add: is_finite_def is_nan_def is_inf_def is_zero_def strict_eq_def
        less_eq_number_def)
  have p1: "Num 0 < Num (7686143364045647 / 4611686018427387904)"
    and p2: "is_finite (Num (7686143364045647 / 4611686018427387904))"
    and p3: "Num 0 \<le> Num (1996212019291071 / 17592186044416)"
    and p4: "Num (- (2565374163763045 / 70368744177664)) \<le> Num 0"
    by (simp_all add: less_number_def is_finite_def is_nan_def is_inf_def less_eq_number_def)
  have m: "Math_max (Num 0) (Num 1200) = Num 1200"
    by (simp add: Math_max_def is_nan_def less_number_def)
  have v: "remainingBalance samplePow (Num 1200) (Num 2) (Num 12) (Num 0) = Some (Num 1200)"
    by (simp only: remainingBalance_nothing_paid[OF h4] m)
  note T = remainingBalance_endpoints[where princ = "Num 1200" and totalPeriods = "Num 12"
      and pow = samplePow and rate = "Num 2" and a = 1200 and n = 12 and paidPeriods = "Num 0"
      and z = "Num 1200" and k = 12 and j = 11
      and mr = "Num (7686143364045647 / 4611686018427387904)"
      and inst = "Num (1996212019291071 / 17592186044416)"]
  note T1 = T[THEN conjunct1]
  note T2 = T[THEN conjunct2, THEN conjunct1]
  note T3 = T[THEN conjunct2, THEN conjunct2, THEN conjunct1]
  note T4 = T[THEN conjunct2, THEN conjunct2, THEN conjunct2, THEN conjunct1]
  note T5 = T[THEN conjunct2, THEN conjunct2, THEN conjunct2, THEN conjunct2, THEN conjunct1]
  note T6 = T[THEN conjunct2, THEN conjunct2, THEN conjunct2, THEN conjunct2, THEN conjunct2]
  have c1: "returns (remainingBalance samplePow (Num 1200) (Num 0) (Num 12) (Num 12)) (Num 0)"
    by (rule mp[OF T1]) (simp only: h1 h2 h3 simp_thms)
  have c2: "returns (remainingBalance samplePow (Num 1200) (Num 2) (Num 12) (Num 0)) (Num 1200)"
    by (rule mp[OF T2]) (simp only: h4 h5 simp_thms)
  have "remainingBalance samplePow (Num (of_int 1200)) (Num 0) (Num (of_int 12)) (Num 0)
      = Some (Num (of_int 1200))"
    by (rule mp[OF T3]) simp
  then have c3: "remainingBalance samplePow (Num 1200) (Num 0) (Num 12) (Num 0) = Some (Num 1200)"
    by simp
  have "is_nan (Num 1200) \<or> nonneg (Num 1200)"
    by (rule mp[OF T4]) (simp only: h4 v simp_thms)
  then have c4: "nonneg (Num 1200)" by (simp add: is_nan_def)
  have "remainingBalance samplePow (Num 1200) (Num 2) (Num 12) (Num (of_int 12))
      = Some (Math_max (Num 0) ((?f ^^ nat 12) (Num 1200)))"
    by (rule mp[OF T5]) (simp add: h4 mrv instv)
  then have c5: "remainingBalance samplePow (Num 1200) (Num 2) (Num 12) (Num 12)
      = Some (Math_max (Num 0) ((?f ^^ 12) (Num 1200)))"
    by simp
  have "remainingBalance samplePow (Num 1200) (Num 2) (Num 12) (Num (of_int 12)) = Some (Num 0)"
    by (rule mp[OF T6]) (simp add: mrv instv p1 p2 p3 p4 w11)
  then have c6: "remainingBalance samplePow (Num 1200) (Num 2) (Num 12) (Num 12) = Some (Num 0)"
    by simp
  show ?thesis
    by (intro conjI) (fact h1 h2 h3 c1 h4 h5 c2 c3 v c4 mrv instv c5 p1 p2 p3 w11 p4 c6)+
qed

text \<open>
  C2, as stated, fails at both ends for valid inputs. Unpaid at rate zero, \<open>p = 0.1\<close>,
  \<open>r = 0\<close>, \<open>n = 3\<close>: the balance \<open>remainingBalance(0.1, 0, 3, 0)\<close> is \<open>0.1 \<times> 3 / 3\<close> in
  doubles, which is \<open>0.10000000000000002\<close>, the double after \<open>0.1\<close>. Fully paid at a
  tiny rate, \<open>p = 1200\<close>, \<open>r = 10\<^sup>-\<^sup>1\<^sup>0\<close>, \<open>n = 12\<close>: the installment is computed from
  \<open>1 + 10\<^sup>-\<^sup>1\<^sup>2\<close>, which rounds to a double whose excess over \<open>1\<close> is off by one part in
  ten thousand, and comes out as \<open>99.9911...\<close>; twelve such payments leave
  \<open>remainingBalance(1200, 10\<^sup>-\<^sup>1\<^sup>0, 12, 12) = 0.10667120192616153\<close>. With \<open>n = 1\<close>, where
  the power function has nothing to compute, the one payment leaves
  \<open>remainingBalance(1200, 10\<^sup>-\<^sup>1\<^sup>0, 1, 1) = 0.10667121457618123\<close>.
\<close>

theorem remainingBalance_endpoints_inexact:
  "Num 0 \<le> lit (1 / 10) \<and> Num 0 \<le> Num 0 \<and> Num 1 \<le> Num 3
   \<and> remainingBalance samplePow (lit (1 / 10)) (Num 0) (Num 3) (Num 0)
       = Some (Num (7205759403792795 / 72057594037927936))
   \<and> lit (1 / 10) = Num (7205759403792794 / 72057594037927936)
   \<and> \<not> strict_eq (Num (7205759403792795 / 72057594037927936)) (lit (1 / 10))
   \<and> Num 0 \<le> Num 1200 \<and> Num 0 \<le> lit (1 / 10 ^ 10) \<and> Num 1 \<le> Num 12 \<and> Num 1 \<le> Num 1
   \<and> remainingBalance samplePow (Num 1200) (lit (1 / 10 ^ 10)) (Num 12) (Num 12)
       = Some (Num (3753159259733 / 35184372088832))
   \<and> \<not> strict_eq (Num (3753159259733 / 35184372088832)) (Num 0)
   \<and> remainingBalance samplePow (Num 1200) (lit (1 / 10 ^ 10)) (Num 1) (Num 1)
       = Some (Num (234572481551 / 2199023255552))
   \<and> \<not> strict_eq (Num (234572481551 / 2199023255552)) (Num 0)"
proof -
  have unpaid: "Num 0 \<le> lit (1 / 10) \<and> Num 0 \<le> Num 0 \<and> Num 1 \<le> Num 3
   \<and> remainingBalance samplePow (lit (1 / 10)) (Num 0) (Num 3) (Num 0)
       = Some (Num (7205759403792795 / 72057594037927936))
   \<and> lit (1 / 10) = Num (7205759403792794 / 72057594037927936)
   \<and> \<not> strict_eq (Num (7205759403792795 / 72057594037927936)) (lit (1 / 10))"
    by code_simp
  have paid12: "remainingBalance samplePow (Num 1200) (lit (1 / 10 ^ 10)) (Num 12) (Num 12)
      = Some (Num (3753159259733 / 35184372088832))"
    by (simp only: tiny_rate fully_paid_tiny_rate_12)
  have paid1: "remainingBalance samplePow (Num 1200) (lit (1 / 10 ^ 10)) (Num 1) (Num 1)
      = Some (Num (234572481551 / 2199023255552))"
    by (simp only: tiny_rate fully_paid_tiny_rate_1[where pow = samplePow, OF samplePow_1])
  have "Num 0 \<le> Num (7737125245533627 / 77371252455336267181195264)"
    by (simp add: less_eq_number_def is_nan_def)
  then have small: "Num 0 \<le> lit (1 / 10 ^ 10)"
    by (simp only: tiny_rate)
  have valid: "Num 0 \<le> Num 1200" "Num 1 \<le> Num 12" "Num 1 \<le> Num 1"
    "\<not> strict_eq (Num (3753159259733 / 35184372088832)) (Num 0)"
    "\<not> strict_eq (Num (234572481551 / 2199023255552)) (Num 0)"
    by (simp_all add: less_eq_number_def is_nan_def strict_eq_def is_zero_def)
  from unpaid paid12 paid1 small valid show ?thesis
    by - (elim conjE, (intro conjI; assumption))
qed

section \<open>The account reconciler\<close>

lemma foldl_whole_balances:
  "(\<forall>a \<in> set xs. balance a = Num (of_int (w a))) \<Longrightarrow>
   \<bar>s\<bar> + (\<Sum>a\<leftarrow>xs. \<bar>w a\<bar>) \<le> 2 ^ 53 \<Longrightarrow>
     foldl (\<lambda>sum a. sum + balance a) (Num (of_int s)) xs = Num (of_int (s + (\<Sum>a\<leftarrow>xs. w a)))"
proof (induction xs arbitrary: s)
  case Nil
  then show ?case by simp
next
  case (Cons x xs)
  have rest: "0 \<le> (\<Sum>a\<leftarrow>xs. \<bar>w a\<bar>)" by (rule sum_list_nonneg) auto
  have b: "balance x = Num (of_int (w x))" using Cons.prems(1) by simp
  have "\<bar>s + w x\<bar> \<le> 2 ^ 53" using Cons.prems(2) rest by simp
  then have step: "Num (of_int s) + balance x = Num (of_int (s + w x))"
    by (simp add: b add_int)
  have "foldl (\<lambda>sum a. sum + balance a) (Num (of_int (s + w x))) xs
          = Num (of_int (s + w x + (\<Sum>a\<leftarrow>xs. w a)))"
    using Cons.prems by (intro Cons.IH) auto
  then show ?case by (simp add: step add.assoc)
qed

lemma getTotalBalance_whole:
  assumes "\<forall>a \<in> set accounts. isActive a \<longrightarrow> balance a = Num (of_int (w a))"
    and "(\<Sum>a\<leftarrow>filter isActive accounts. \<bar>w a\<bar>) \<le> 2 ^ 53"
  shows "getTotalBalance accounts = Num (of_int (\<Sum>a\<leftarrow>filter isActive accounts. w a))"
  using foldl_whole_balances[of "filter isActive accounts" w 0] assms
  by (simp add: getTotalBalance_def)

lemma sum_list_filter_mset:
  fixes f :: "'a \<Rightarrow> int"
  assumes "mset ys = mset xs"
  shows "(\<Sum>a\<leftarrow>filter P ys. f a) = (\<Sum>a\<leftarrow>filter P xs. f a)"
proof -
  have "mset (map f (filter P ys)) = mset (map f (filter P xs))"
    using assms by simp
  then have "sum_mset (mset (map f (filter P ys))) = sum_mset (mset (map f (filter P xs)))"
    by (simp only:)
  then show ?thesis by (simp only: sum_mset_sum_list)
qed

text \<open>
  C7, as amended. \<open>getTotalBalance\<close> adds the balances of the active accounts from left
  to right, rounding after each addition. Inactive accounts never matter: two collections
  with the same active accounts in the same order have the same total. On a permutation
  of the collection the total is the same whenever every active balance is a whole
  number and the absolute values of the active balances sum to at most \<open>2\<^sup>5\<^sup>3\<close>; the
  total is then the exact sum.
\<close>

theorem getTotalBalance_whole_permutation:
  "(filter isActive accounts' = filter isActive accounts \<longrightarrow>
      getTotalBalance accounts' = getTotalBalance accounts)
   \<and> (mset accounts' = mset accounts
       \<and> (\<forall>a \<in> set accounts. isActive a \<longrightarrow> balance a = Num (of_int (w a)))
       \<and> (\<Sum>a\<leftarrow>filter isActive accounts. \<bar>w a\<bar>) \<le> 2 ^ 53
      \<longrightarrow> getTotalBalance accounts' = getTotalBalance accounts
        \<and> getTotalBalance accounts = Num (of_int (\<Sum>a\<leftarrow>filter isActive accounts. w a)))"
proof (intro conjI impI)
  show "getTotalBalance accounts' = getTotalBalance accounts"
    if "filter isActive accounts' = filter isActive accounts"
    using that by (simp add: getTotalBalance_def)
  assume h: "mset accounts' = mset accounts
       \<and> (\<forall>a \<in> set accounts. isActive a \<longrightarrow> balance a = Num (of_int (w a)))
       \<and> (\<Sum>a\<leftarrow>filter isActive accounts. \<bar>w a\<bar>) \<le> 2 ^ 53"
  then have p: "mset accounts' = mset accounts" by simp
  have s: "set accounts' = set accounts" using p by (rule mset_eq_setD)
  have orig: "getTotalBalance accounts = Num (of_int (\<Sum>a\<leftarrow>filter isActive accounts. w a))"
    using h by (intro getTotalBalance_whole) auto
  have "getTotalBalance accounts' = Num (of_int (\<Sum>a\<leftarrow>filter isActive accounts'. w a))"
    using h s sum_list_filter_mset[OF p, where P = isActive and f = "\<lambda>a. \<bar>w a\<bar>"]
    by (intro getTotalBalance_whole) auto
  also have "\<dots> = Num (of_int (\<Sum>a\<leftarrow>filter isActive accounts. w a))"
    by (simp only: sum_list_filter_mset[OF p])
  finally show "getTotalBalance accounts' = getTotalBalance accounts"
    by (simp only: orig)
  show "getTotalBalance accounts = Num (of_int (\<Sum>a\<leftarrow>filter isActive accounts. w a))"
    by (rule orig)
qed

theorem getTotalBalance_whole_permutation_witness:
  "mset [sampleAccount ''acc2'' (Num 0) (Num 250) True, sampleAccount ''acc3'' (Num 0) (Num 7) False,
         sampleAccount ''acc1'' (Num 0) (Num 100) True]
     = mset [sampleAccount ''acc1'' (Num 0) (Num 100) True,
             sampleAccount ''acc2'' (Num 0) (Num 250) True, sampleAccount ''acc3'' (Num 0) (Num 7) False]
   \<and> getTotalBalance [sampleAccount ''acc2'' (Num 0) (Num 250) True,
        sampleAccount ''acc3'' (Num 0) (Num 7) False, sampleAccount ''acc1'' (Num 0) (Num 100) True]
     = getTotalBalance [sampleAccount ''acc1'' (Num 0) (Num 100) True,
        sampleAccount ''acc2'' (Num 0) (Num 250) True, sampleAccount ''acc3'' (Num 0) (Num 7) False]
   \<and> getTotalBalance [sampleAccount ''acc1'' (Num 0) (Num 100) True,
        sampleAccount ''acc2'' (Num 0) (Num 250) True, sampleAccount ''acc3'' (Num 0) (Num 7) False]
     = Num 350"
proof -
  let ?xs = "[sampleAccount ''acc1'' (Num 0) (Num 100) True,
        sampleAccount ''acc2'' (Num 0) (Num 250) True, sampleAccount ''acc3'' (Num 0) (Num 7) False]"
  let ?ys = "[sampleAccount ''acc2'' (Num 0) (Num 250) True,
        sampleAccount ''acc3'' (Num 0) (Num 7) False, sampleAccount ''acc1'' (Num 0) (Num 100) True]"
  have p: "mset ?ys = mset ?xs" by simp
  have w: "\<forall>a \<in> set ?xs. isActive a \<longrightarrow> balance a = Num (of_int (sampleWhole a))"
    by (simp add: sampleAccount_def sampleWhole_def)
  have b: "(\<Sum>a\<leftarrow>filter isActive ?xs. \<bar>sampleWhole a\<bar>) \<le> 2 ^ 53"
    by (simp add: sampleAccount_def sampleWhole_def)
  have v: "(\<Sum>a\<leftarrow>filter isActive ?xs. sampleWhole a) = 350"
    by (simp add: sampleAccount_def sampleWhole_def)
  from getTotalBalance_whole_permutation[of ?ys ?xs sampleWhole] p w b v
  show ?thesis by simp
qed

lemma tenths_ascending:
  "getTotalBalance [sampleAccount ''acc1'' (Num 0) (lit (1 / 10)) True,
      sampleAccount ''acc2'' (Num 0) (lit (1 / 5)) True,
      sampleAccount ''acc3'' (Num 0) (lit (3 / 10)) True]
     = Num (1351079888211149 / 2251799813685248)"
  by code_simp

lemma tenths_descending:
  "getTotalBalance [sampleAccount ''acc3'' (Num 0) (lit (3 / 10)) True,
      sampleAccount ''acc2'' (Num 0) (lit (1 / 5)) True,
      sampleAccount ''acc1'' (Num 0) (lit (1 / 10)) True]
     = Num (5404319552844595 / 9007199254740992)"
  by code_simp

text \<open>
  C7, as stated, fails: three active accounts with balances \<open>0.1\<close>, \<open>0.2\<close>, \<open>0.3\<close> total
  \<open>0.6000000000000001\<close> in this order and \<open>0.6\<close> in the reverse order.
\<close>

theorem getTotalBalance_order_of_tenths:
  "mset [sampleAccount ''acc3'' (Num 0) (lit (3 / 10)) True,
         sampleAccount ''acc2'' (Num 0) (lit (1 / 5)) True,
         sampleAccount ''acc1'' (Num 0) (lit (1 / 10)) True]
     = mset [sampleAccount ''acc1'' (Num 0) (lit (1 / 10)) True,
             sampleAccount ''acc2'' (Num 0) (lit (1 / 5)) True,
             sampleAccount ''acc3'' (Num 0) (lit (3 / 10)) True]
   \<and> getTotalBalance [sampleAccount ''acc1'' (Num 0) (lit (1 / 10)) True,
        sampleAccount ''acc2'' (Num 0) (lit (1 / 5)) True,
        sampleAccount ''acc3'' (Num 0) (lit (3 / 10)) True]
       = Num (1351079888211149 / 2251799813685248)
   \<and> getTotalBalance [sampleAccount ''acc3'' (Num 0) (lit (3 / 10)) True,
        sampleAccount ''acc2'' (Num 0) (lit (1 / 5)) True,
        sampleAccount ''acc1'' (Num 0) (lit (1 / 10)) True]
       = Num (5404319552844595 / 9007199254740992)
   \<and> \<not> strict_eq (Num (5404319552844595 / 9007199254740992))
         (Num (1351079888211149 / 2251799813685248))"
proof -
  have "\<not> strict_eq (Num (5404319552844595 / 9007199254740992))
         (Num (1351079888211149 / 2251799813685248))"
    by (simp add: strict_eq_def is_zero_def)
  then show ?thesis
    by (simp add: tenths_ascending tenths_descending)
qed

lemma updateAccountBalance_Nil: "updateAccountBalance account [] = initialBalance account"
  by (simp add: updateAccountBalance_def)

lemma updateAccountBalance_snoc:
  "updateAccountBalance account (transactions @ [t]) =
     (if accountId t = acc_id account \<and> status t = Concluida then
        (if txn_type t = Receita \<or> txn_type t = Credito
           then updateAccountBalance account transactions + amount t
         else if txn_type t = Despesa \<or> txn_type t = Divida \<or> txn_type t = CartaoCredito
                 \<or> txn_type t = Investimento
           then updateAccountBalance account transactions - amount t
         else updateAccountBalance account transactions)
      else updateAccountBalance account transactions)"
  by (simp add: updateAccountBalance_def)

lemma whole_1000_500_200: "Num 1000 + Num 500 - Num 200 = Num 1300"
  using add_int[of 1000 500] sub_int[of 1500 200] by simp

text \<open>
  C3. \<open>updateAccountBalance\<close> starts from the account's initial balance and goes
  through the transactions in order: a transaction of this account with status completed
  adds its amount when its type is income or credit and subtracts it when its type is
  expense, debt, card charge or investment; every other transaction, a transfer among
  them, leaves the running balance as it is. The result is a number computed from the
  account, which is only read. With initial balance 1000, a completed income of 500 and
  a completed expense of 200 the result is 1300.
\<close>

theorem updateAccountBalance_spec:
  "updateAccountBalance account [] = initialBalance account
   \<and> updateAccountBalance account (transactions @ [t]) =
       (if accountId t = acc_id account \<and> status t = Concluida then
          (if txn_type t = Receita \<or> txn_type t = Credito
             then updateAccountBalance account transactions + amount t
           else if txn_type t = Despesa \<or> txn_type t = Divida \<or> txn_type t = CartaoCredito
                   \<or> txn_type t = Investimento
             then updateAccountBalance account transactions - amount t
           else updateAccountBalance account transactions)
        else updateAccountBalance account transactions)
   \<and> (txn_type t = Transferencia \<longrightarrow>
        updateAccountBalance account (transactions @ [t])
          = updateAccountBalance account transactions)
   \<and> (initialBalance account = Num 1000
        \<and> accountId t1 = acc_id account \<and> status t1 = Concluida
        \<and> txn_type t1 = Receita \<and> amount t1 = Num 500
        \<and> accountId t2 = acc_id account \<and> status t2 = Concluida
        \<and> txn_type t2 = Despesa \<and> amount t2 = Num 200
        \<longrightarrow> updateAccountBalance account [t1, t2] = Num 1300)"
proof (intro conjI impI)
  show "updateAccountBalance account [] = initialBalance account"
    by (rule updateAccountBalance_Nil)
  show "updateAccountBalance account (transactions @ [t]) =
       (if accountId t = acc_id account \<and> status t = Concluida then
          (if txn_type t = Receita \<or> txn_type t = Credito
             then updateAccountBalance account transactions + amount t
           else if txn_type t = Despesa \<or> txn_type t = Divida \<or> txn_type t = CartaoCredito
                   \<or> txn_type t = Investimento
             then updateAccountBalance account transactions - amount t
           else updateAccountBalance account transactions)
        else updateAccountBalance account transactions)"
    by (rule updateAccountBalance_snoc)
  show "updateAccountBalance account (transactions @ [t])
          = updateAccountBalance account transactions"
    if "txn_type t = Transferencia"
    using that by (simp add: updateAccountBalance_snoc)
  show "updateAccountBalance account [t1, t2] = Num 1300"
    if "initialBalance account = Num 1000
        \<and> accountId t1 = acc_id account \<and> status t1 = Concluida
        \<and> txn_type t1 = Receita \<and> amount t1 = Num 500
        \<and> accountId t2 = acc_id account \<and> status t2 = Concluida
        \<and> txn_type t2 = Despesa \<and> amount t2 = Num 200"
    using that by (simp add: updateAccountBalance_def whole_1000_500_200)
qed

theorem updateAccountBalance_spec_witness:
  "updateAccountBalance (sampleAccount ''acc1'' (Num 1000) (Num 0) True)
     [sampleTransaction Receita Concluida (Num 500),
      sampleTransaction Despesa Concluida (Num 200)] = Num 1300
   \<and> updateAccountBalance (sampleAccount ''acc1'' (Num 1000) (Num 0) True)
       ([sampleTransaction Receita Concluida (Num 500)]
          @ [sampleTransaction Transferencia Concluida (Num 200)])
     = updateAccountBalance (sampleAccount ''acc1'' (Num 1000) (Num 0) True)
         [sampleTransaction Receita Concluida (Num 500)]"
  using updateAccountBalance_spec
    [of "sampleAccount ''acc1'' (Num 1000) (Num 0) True"
        "[sampleTransaction Receita Concluida (Num 500)]"
        "sampleTransaction Transferencia Concluida (Num 200)"
        "sampleTransaction Receita Concluida (Num 500)"
        "sampleTransaction Despesa Concluida (Num 200)"]
  by (simp add: sampleAccount_def sampleTransaction_def)

section \<open>The transaction aggregator\<close>

lemma getTotalDebts_snoc:
  "getTotalDebts pow (transactions @ [t]) =
     (if txn_type t = Divida \<and> status t \<noteq> Cancelada then
        (case getTotalDebts pow transactions of None \<Rightarrow> None | Some sm \<Rightarrow> debtStep pow sm t)
      else getTotalDebts pow transactions)"
  by (simp add: getTotalDebts_def)

lemma debtStep_falsy_rate:
  "interestRate t = Some r \<Longrightarrow> strict_eq r (Num 0) \<Longrightarrow> debtStep pow sm t = Some (sm + amount t)"
  by (auto simp add: debtStep_def strict_eq_def truthy_def is_zero_def split: option.splits)

lemma debtStep_truthy:
  "installments t = Some n \<Longrightarrow> currentInstallment t = Some c \<Longrightarrow> interestRate t = Some r \<Longrightarrow>
   truthy n \<Longrightarrow> truthy c \<Longrightarrow> truthy r \<Longrightarrow>
     debtStep pow sm t
       = map_option (\<lambda>remaining. sm + remaining)
           (remainingBalance pow (amount t) r n (c - Num 1))"
  by (simp add: debtStep_def)

lemma debtStep_plain:
  "installments t = None \<or> currentInstallment t = None \<or> interestRate t = None \<Longrightarrow>
     debtStep pow sm t = Some (sm + amount t)"
  by (auto simp add: debtStep_def split: option.splits)

lemma debtStep_returns:
  assumes "\<And>c. currentInstallment t = Some c \<Longrightarrow> \<exists>k. c = Num (of_int k) \<and> 1 \<le> k \<and> k \<le> 2 ^ 53"
  shows "\<exists>s. debtStep pow sm t = Some s"
proof (cases "installments t = None \<or> currentInstallment t = None \<or> interestRate t = None")
  case True
  then show ?thesis by (simp add: debtStep_plain)
next
  case False
  then obtain n c r where f: "installments t = Some n" "currentInstallment t = Some c"
    "interestRate t = Some r"
    by auto
  from assms[OF f(2)] obtain k where k: "c = Num (of_int k)" "1 \<le> k" "k \<le> 2 ^ 53" by blast
  then have "c - Num 1 = Num (of_int (k - 1))"
    using sub_int[of k 1] by simp
  moreover have "\<exists>b. remainingBalance pow (amount t) r n (Num (of_int (k - 1))) = Some b"
    using k by (intro remainingBalance_returns) auto
  ultimately obtain b where "remainingBalance pow (amount t) r n (c - Num 1) = Some b"
    by auto
  then show ?thesis by (simp add: debtStep_def f)
qed

lemma getTotalDebts_returns:
  assumes "\<And>t c. t \<in> set transactions \<Longrightarrow> currentInstallment t = Some c \<Longrightarrow>
     \<exists>k. c = Num (of_int k) \<and> 1 \<le> k \<and> k \<le> 2 ^ 53"
  shows "\<exists>s. getTotalDebts pow transactions = Some s"
  using assms
proof (induction transactions rule: rev_induct)
  case Nil
  then show ?case by (simp add: getTotalDebts_def)
next
  case (snoc t ts)
  then obtain s where s: "getTotalDebts pow ts = Some s" by fastforce
  have "\<exists>s'. debtStep pow s t = Some s'"
    using snoc.prems by (intro debtStep_returns) auto
  with s show ?case by (auto simp add: getTotalDebts_snoc)
qed

lemma whole_0_1200: "Num 0 + Num 1200 = Num 1200"
  using add_int[of 0 1200] by simp

lemma whole_7_minus_1: "Num 7 - Num 1 = Num 6"
  using sub_int[of 7 1] by simp

lemma straight_line_1200_12_6: "Num 1200 * (Num 12 - Num 6) / Num 12 = Num 600"
  using sub_int[of 12 6] mul_int[of 1200 6] div_int[of 600 12] by simp

text \<open>
  C6. A canceled transaction never contributes to a total: appending a transaction with
  status canceled to any collection leaves \<open>getTotalByType\<close> (for every type),
  \<open>getTotalIncome\<close>, \<open>getTotalExpenses\<close>, \<open>getTotalDebts\<close> and \<open>getNetBalance\<close>
  unchanged.
\<close>

theorem canceled_never_contributes:
  "status t = Cancelada \<Longrightarrow>
     getTotalByType (transactions @ [t]) type = getTotalByType transactions type
     \<and> getTotalIncome (transactions @ [t]) = getTotalIncome transactions
     \<and> getTotalExpenses (transactions @ [t]) = getTotalExpenses transactions
     \<and> getTotalDebts pow (transactions @ [t]) = getTotalDebts pow transactions
     \<and> getNetBalance (transactions @ [t]) = getNetBalance transactions"
  by (simp add: getTotalByType_def getTotalIncome_def getTotalExpenses_def getTotalDebts_def
      getNetBalance_def)

theorem canceled_never_contributes_witness:
  "status (sampleTransaction Divida Cancelada (Num 200)) = Cancelada
   \<and> getTotalByType
       ([sampleTransaction Receita Concluida (Num 500)]
          @ [sampleTransaction Divida Cancelada (Num 200)]) Divida
     = getTotalByType [sampleTransaction Receita Concluida (Num 500)] Divida
   \<and> getTotalDebts samplePow
       ([sampleTransaction Receita Concluida (Num 500)]
          @ [sampleTransaction Divida Cancelada (Num 200)])
     = getTotalDebts samplePow [sampleTransaction Receita Concluida (Num 500)]
   \<and> getNetBalance
       ([sampleTransaction Receita Concluida (Num 500)]
          @ [sampleTransaction Divida Cancelada (Num 200)])
     = getNetBalance [sampleTransaction Receita Concluida (Num 500)]"
proof -
  have c: "status (sampleTransaction Divida Cancelada (Num 200)) = Cancelada"
    by (simp add: sampleTransaction_def)
  from canceled_never_contributes[OF c, of "[sampleTransaction Receita Concluida (Num 500)]"
      Divida samplePow] c
  show ?thesis by simp
qed

lemma whole_0_300: "Num 0 + Num 300 = Num 300"
  using add_int[of 0 300] by simp

lemma whole_300_1200: "Num 300 + Num 1200 = Num 1500"
  using add_int[of 300 1200] by simp

lemma straight_line_whole:
  assumes "0 < a" "0 < n" "1 \<le> k" "k \<le> n" "a * n * n \<le> 2 ^ 53"
  shows "Num (of_int (a * n)) * (Num (of_int n) - (Num (of_int (k + 1)) - Num 1)) / Num (of_int n)
           = Num (of_int (a * (n - k)))"
    and "Num (of_int (a * (n - k))) < Num (of_int (a * n))"
proof -
  have an: "0 < a * n" using assms(1,2) by simp
  have n53: "n \<le> 2 ^ 53"
  proof -
    have "1 * n \<le> (a * n) * n" using an assms(2) by (intro mult_right_mono) auto
    with assms(5) show ?thesis by simp
  qed
  have le1: "a * n * (n - k) \<le> a * n * n"
    using an assms(3) by (intro mult_left_mono) auto
  have le2: "a * (n - k) \<le> a * n * (n - k)"
  proof -
    have "a * 1 \<le> a * n" using assms(1,2) by (intro mult_left_mono) auto
    then have "a * 1 * (n - k) \<le> a * n * (n - k)"
      using assms(4) by (intro mult_right_mono) auto
    then show ?thesis by simp
  qed
  have c: "Num (of_int (k + 1)) - Num 1 = Num (of_int k)"
    using sub_int[of "k + 1" 1] assms(3,4) n53 by simp
  have d: "Num (of_int n) - Num (of_int k) = Num (of_int (n - k))"
    using assms(3,4) n53 by (intro sub_int) auto
  have m: "Num (of_int (a * n)) * Num (of_int (n - k)) = Num (of_int (a * n * (n - k)))"
    using an assms(4) le1 assms(5) by (intro mul_int) auto
  have r: "a * n * (n - k) = a * (n - k) * n" by (simp add: mult.assoc mult.commute)
  have dv: "Num (of_int (a * (n - k) * n)) / Num (of_int n) = Num (of_int (a * (n - k)))"
  proof (rule div_int)
    show "0 \<le> a * (n - k)" using assms(1,4) by simp
    show "0 < n" by (rule assms(2))
    show "a * (n - k) \<le> 2 ^ 53" using le1 le2 assms(5) by linarith
  qed
  have q: "Num (of_int (a * n * (n - k))) / Num (of_int n) = Num (of_int (a * (n - k)))"
    unfolding r by (rule dv)
  show "Num (of_int (a * n)) * (Num (of_int n) - (Num (of_int (k + 1)) - Num 1)) / Num (of_int n)
           = Num (of_int (a * (n - k)))"
    by (simp only: c d m q)
  have "a * (n - k) < a * n" using assms(1,3) by (intro mult_strict_left_mono) auto
  then have "(of_int (a * (n - k)) :: rat) < of_int (a * n)" by (simp only: of_int_less_iff)
  then show "Num (of_int (a * (n - k))) < Num (of_int (a * n))"
    by (simp only: less_number_def lt_number.simps val.simps)
qed

text \<open>
  C10. A debt that is not canceled, with \<open>installments\<close> and \<open>currentInstallment\<close>
  present and an \<open>interestRate\<close> that is present but zero, adds its full original
  amount to \<open>getTotalDebts\<close>: the guard tests the rate for truthiness and zero is falsy.
  The total of the transactions before it does return when their current installments
  are whole numbers from \<open>1\<close> to \<open>2\<^sup>5\<^sup>3\<close>, and the new total is that total plus the amount.
  The substitution that is skipped, \<open>remainingBalance\<close> at rate zero, is the straight-line
  balance \<open>amount \<times> (installments - (currentInstallment - 1)) / installments\<close>. For a
  whole number of installments \<open>m\<close>, a positive amount that is a whole multiple \<open>a \<times> m\<close>
  of it and a current installment \<open>k + 1\<close> after the first, that balance is
  \<open>a \<times> (m - k)\<close>, less than the amount: 600 for 1200 in 12 installments at the 7th.
\<close>

theorem zero_rate_debt_counts_in_full:
  "txn_type t = Divida \<Longrightarrow> status t \<noteq> Cancelada \<Longrightarrow>
   installments t = Some n \<Longrightarrow> currentInstallment t = Some c \<Longrightarrow>
   interestRate t = Some r \<Longrightarrow> strict_eq r (Num 0) \<Longrightarrow>
     getTotalDebts pow (transactions @ [t])
       = map_option (\<lambda>sm. sm + amount t) (getTotalDebts pow transactions)
     \<and> ((\<forall>u \<in> set transactions. \<forall>d. currentInstallment u = Some d \<longrightarrow>
            (\<exists>k. d = Num (of_int k) \<and> 1 \<le> k \<and> k \<le> 2 ^ 53)) \<longrightarrow>
          (\<exists>sm. getTotalDebts pow transactions = Some sm
                \<and> getTotalDebts pow (transactions @ [t]) = Some (sm + amount t)))
     \<and> remainingBalance pow (amount t) r n (c - Num 1)
       = Some (amount t * (n - (c - Num 1)) / n)
     \<and> (amount t = Num (of_int (a * m)) \<and> n = Num (of_int m) \<and> c = Num (of_int (k + 1))
          \<and> 0 < a \<and> 0 < m \<and> 1 \<le> k \<and> k \<le> m \<and> a * m * m \<le> 2 ^ 53 \<longrightarrow>
        remainingBalance pow (amount t) r n (c - Num 1) = Some (Num (of_int (a * (m - k))))
        \<and> Num (of_int (a * (m - k))) < amount t)"
proof (intro conjI impI)
  assume h: "txn_type t = Divida" "status t \<noteq> Cancelada" "interestRate t = Some r"
    "strict_eq r (Num 0)"
  show e: "getTotalDebts pow (transactions @ [t])
       = map_option (\<lambda>sm. sm + amount t) (getTotalDebts pow transactions)"
    using h
    by (cases "getTotalDebts pow transactions")
      (simp_all add: getTotalDebts_snoc debtStep_falsy_rate)
  show s: "remainingBalance pow (amount t) r n (c - Num 1)
       = Some (amount t * (n - (c - Num 1)) / n)"
    using h(4) by (simp add: remainingBalance_def)
  {
    assume "\<forall>u \<in> set transactions. \<forall>d. currentInstallment u = Some d \<longrightarrow>
              (\<exists>k. d = Num (of_int k) \<and> 1 \<le> k \<and> k \<le> 2 ^ 53)"
    then have "\<exists>sm. getTotalDebts pow transactions = Some sm"
      by (intro getTotalDebts_returns) blast
    then show "\<exists>sm. getTotalDebts pow transactions = Some sm
                  \<and> getTotalDebts pow (transactions @ [t]) = Some (sm + amount t)"
      using e by auto
  }
  assume w: "amount t = Num (of_int (a * m)) \<and> n = Num (of_int m) \<and> c = Num (of_int (k + 1))
          \<and> 0 < a \<and> 0 < m \<and> 1 \<le> k \<and> k \<le> m \<and> a * m * m \<le> 2 ^ 53"
  then have x: "amount t = Num (of_int (a * m))" "n = Num (of_int m)" "c = Num (of_int (k + 1))"
    and y: "0 < a" "0 < m" "1 \<le> k" "k \<le> m" "a * m * m \<le> 2 ^ 53"
    by simp_all
  show "remainingBalance pow (amount t) r n (c - Num 1) = Some (Num (of_int (a * (m - k))))"
    unfolding s unfolding x by (simp only: straight_line_whole(1)[OF y])
  show "Num (of_int (a * (m - k))) < amount t"
    unfolding x by (rule straight_line_whole(2)[OF y])
qed

theorem zero_rate_debt_counts_in_full_witness:
  "getTotalDebts samplePow [sampleTransaction Divida Pendente (Num 300)] = Some (Num 300)
   \<and> getTotalDebts samplePow
       ([sampleTransaction Divida Pendente (Num 300)]
          @ [(sampleTransaction Divida Pendente (Num 1200))
               \<lparr> interestRate := Some (Num 0), installments := Some (Num 12),
                 currentInstallment := Some (Num 7) \<rparr>])
     = Some (Num 1500)
   \<and> remainingBalance samplePow (Num 1200) (Num 0) (Num 12) (Num 7 - Num 1) = Some (Num 600)
   \<and> Num 600 < Num 1200"
proof -
  let ?t = "(sampleTransaction Divida Pendente (Num 1200))
        \<lparr> interestRate := Some (Num 0), installments := Some (Num 12),
          currentInstallment := Some (Num 7) \<rparr>"
  let ?ts = "[sampleTransaction Divida Pendente (Num 300)]"
  have h: "txn_type ?t = Divida" "status ?t \<noteq> Cancelada" "installments ?t = Some (Num 12)"
    "currentInstallment ?t = Some (Num 7)" "interestRate ?t = Some (Num 0)"
    "strict_eq (Num 0) (Num 0)"
    by (simp_all add: sampleTransaction_def strict_eq_def is_nan_def)
  have a: "amount ?t = Num 1200" by (simp add: sampleTransaction_def)
  have w: "\<forall>u \<in> set ?ts. \<forall>d. currentInstallment u = Some d \<longrightarrow>
            (\<exists>k. d = Num (of_int k) \<and> 1 \<le> k \<and> k \<le> 2 ^ 53)"
    by (simp add: sampleTransaction_def)
  have e: "getTotalDebts samplePow ?ts = Some (Num 300)"
    by (simp add: getTotalDebts_def sampleTransaction_def debtStep_def whole_0_300)
  have g: "amount ?t = Num (of_int (100 * 12)) \<and> Num 12 = Num (of_int 12)
      \<and> Num 7 = Num (of_int (6 + 1))
      \<and> (0::int) < 100 \<and> (0::int) < 12 \<and> (1::int) \<le> 6 \<and> (6::int) \<le> 12
      \<and> (100::int) * 12 * 12 \<le> 2 ^ 53"
    by (simp add: a)
  note T = zero_rate_debt_counts_in_full[OF h, of samplePow ?ts 100 12 6]
  have 1: "getTotalDebts samplePow (?ts @ [?t])
      = map_option (\<lambda>sm. sm + amount ?t) (getTotalDebts samplePow ?ts)"
    by (rule T[THEN conjunct1])
  have 2: "\<exists>sm. getTotalDebts samplePow ?ts = Some sm
      \<and> getTotalDebts samplePow (?ts @ [?t]) = Some (sm + amount ?t)"
    by (rule mp[OF T[THEN conjunct2, THEN conjunct1] w])
  have 3: "remainingBalance samplePow (amount ?t) (Num 0) (Num 12) (Num 7 - Num 1)
      = Some (Num (of_int (100 * (12 - 6))))
    \<and> Num (of_int (100 * (12 - 6))) < amount ?t"
    by (rule mp[OF T[THEN conjunct2, THEN conjunct2, THEN conjunct2] g])
  have v: "Num (of_int (100 * (12 - 6))) = Num 600" by simp
  from 1 have "getTotalDebts samplePow (?ts @ [?t]) = Some (Num 1500)"
    by (simp only: e a option.map whole_300_1200)
  moreover from 3 have "remainingBalance samplePow (Num 1200) (Num 0) (Num 12) (Num 7 - Num 1)
      = Some (Num 600)" and "Num 600 < Num 1200"
    by (simp_all only: a v)
  ultimately show ?thesis using e by blast
qed

text \<open>
  C1. \<open>getTotalDebts\<close> adds the remaining balance in place of the amount for a debt
  whose three installment fields are present. Evaluated on a debt of 1200 in 12
  installments, at the 7th, with the interest rate present and equal to 0: the total is
  the full 1200, and the remaining balance the substitution would give,
  \<open>remainingBalance(1200, 0, 12, 7 - 1)\<close>, is 600. With the rate 2 in place of 0 the
  same debt does add its remaining balance.
\<close>

theorem getTotalDebts_zero_rate_installment_debt:
  "getTotalDebts pow
     [(sampleTransaction Divida Pendente (Num 1200))
        \<lparr> interestRate := Some (Num 0), installments := Some (Num 12),
          currentInstallment := Some (Num 7) \<rparr>]
     = Some (Num 1200)
   \<and> remainingBalance pow (Num 1200) (Num 0) (Num 12) (Num 7 - Num 1) = Some (Num 600)
   \<and> getTotalDebts pow
       [(sampleTransaction Divida Pendente (Num 1200))
          \<lparr> interestRate := Some (Num 2), installments := Some (Num 12),
            currentInstallment := Some (Num 7) \<rparr>]
     = map_option (\<lambda>remaining. Num 0 + remaining)
         (remainingBalance pow (Num 1200) (Num 2) (Num 12) (Num 7 - Num 1))"
proof (intro conjI)
  have "debtStep pow (Num 0)
     ((sampleTransaction Divida Pendente (Num 1200))
        \<lparr> interestRate := Some (Num 0), installments := Some (Num 12),
          currentInstallment := Some (Num 7) \<rparr>) = Some (Num 0 + Num 1200)"
    by (subst debtStep_falsy_rate[where r = "Num 0"])
      (simp_all add: sampleTransaction_def strict_eq_def is_nan_def)
  then show "getTotalDebts pow
     [(sampleTransaction Divida Pendente (Num 1200))
        \<lparr> interestRate := Some (Num 0), installments := Some (Num 12),
          currentInstallment := Some (Num 7) \<rparr>]
     = Some (Num 1200)"
    by (simp add: getTotalDebts_def sampleTransaction_def whole_0_1200)
  show "remainingBalance pow (Num 1200) (Num 0) (Num 12) (Num 7 - Num 1) = Some (Num 600)"
    by (simp add: remainingBalance_def strict_eq_def is_nan_def whole_7_minus_1
        straight_line_1200_12_6)
  have "debtStep pow (Num 0)
     ((sampleTransaction Divida Pendente (Num 1200))
        \<lparr> interestRate := Some (Num 2), installments := Some (Num 12),
          currentInstallment := Some (Num 7) \<rparr>)
     = map_option (\<lambda>remaining. Num 0 + remaining)
         (remainingBalance pow (Num 1200) (Num 2) (Num 12) (Num 7 - Num 1))"
    by (subst debtStep_truthy[where r = "Num 2" and n = "Num 12" and c = "Num 7"])
      (simp_all add: sampleTransaction_def truthy_def is_nan_def is_zero_def)
  then show "getTotalDebts pow
       [(sampleTransaction Divida Pendente (Num 1200))
          \<lparr> interestRate := Some (Num 2), installments := Some (Num 12),
            currentInstallment := Some (Num 7) \<rparr>]
     = map_option (\<lambda>remaining. Num 0 + remaining)
         (remainingBalance pow (Num 1200) (Num 2) (Num 12) (Num 7 - Num 1))"
    by (simp add: getTotalDebts_def sampleTransaction_def)
qed

section \<open>The investment evaluator\<close>

lemma add_nonneg: "nonneg a \<Longrightarrow> nonneg b \<Longrightarrow> nonneg (a + b)"
  by (cases a; cases b) (simp_all add: plus_number_def fround_nonneg)

lemma share_nonneg:
  assumes "0 \<le> x" "nonneg tot" "\<not> strict_eq tot (Num 0)"
  shows "nonneg (Num x / tot * Num 100)"
proof -
  have d: "nonneg (Num x / tot)"
  proof (cases tot)
    case PosInf
    with assms(1) show ?thesis
      by (simp add: divide_number_def div_number_def is_nan_def is_inf_def signed_zero_def
          not_less)
  next
    case (Num y)
    with assms(2,3) have y: "0 < y" by (simp add: strict_eq_def is_nan_def)
    show ?thesis
    proof (cases "x = 0")
      case True
      with Num y show ?thesis
        by (simp add: divide_number_def div_number_def is_nan_def is_inf_def is_zero_def
            signed_zero_def)
    next
      case False
      with Num y assms(1) show ?thesis
        by (simp add: divide_number_def div_number_def is_nan_def is_inf_def is_zero_def
            fround_nonneg)
    qed
  qed (use assms(2) in simp_all)
  show ?thesis
  proof (cases "Num x / tot")
    case PosInf
    then show ?thesis
      by (simp add: times_number_def mul_number_def is_nan_def is_inf_def is_zero_def
          signed_inf_def)
  next
    case (Num z)
    with d have "0 \<le> z" by simp
    with Num show ?thesis
      by (simp add: times_number_def mul_number_def is_nan_def is_inf_def is_zero_def
          signed_zero_def fround_nonneg)
  qed (use d in simp_all)
qed

lemma truthy_or_zero: "nonneg v \<Longrightarrow> (if truthy v then v else Num 0) = v"
  by (cases v) (auto simp add: truthy_def is_nan_def is_zero_def)

lemma foldl_nonneg:
  "nonneg s \<Longrightarrow> (\<forall>i \<in> set xs. nonneg (g i)) \<Longrightarrow> nonneg (foldl (\<lambda>sum i. sum + g i) s xs)"
  by (induction xs arbitrary: s) (simp_all add: add_nonneg)

lemma entry_fold_plain:
  "nonneg s \<Longrightarrow> (\<forall>i \<in> set xs. nonneg (g i)) \<Longrightarrow>
     foldl (\<lambda>entry i.
        Some ((case entry of None \<Rightarrow> Num 0 | Some v \<Rightarrow> if truthy v then v else Num 0) + g i))
       (Some s) xs
     = Some (foldl (\<lambda>sum i. sum + g i) s xs)"
  by (induction xs arbitrary: s) (simp_all add: truthy_or_zero add_nonneg)

lemma entry_fold_plain_None:
  assumes "\<forall>i \<in> set xs. nonneg (g i)"
  shows "foldl (\<lambda>entry i.
        Some ((case entry of None \<Rightarrow> Num 0 | Some v \<Rightarrow> if truthy v then v else Num 0) + g i))
       None xs
     = (if xs = [] then None else Some (foldl (\<lambda>sum i. sum + g i) (Num 0) xs))"
proof (cases xs)
  case Nil
  then show ?thesis by simp
next
  case (Cons x ys)
  have "nonneg (Num 0 + g x)" using assms Cons by (simp add: add_nonneg)
  then show ?thesis
    using assms Cons by (simp add: entry_fold_plain)
qed

lemma getTotalInvestments_nonneg:
  "(\<forall>i \<in> set investments. inv_isActive i \<longrightarrow> nonneg (currentValue i)) \<Longrightarrow>
     nonneg (getTotalInvestments investments)"
  unfolding getTotalInvestments_def by (rule foldl_nonneg) auto

lemma allocation_per_type:
  "foldl (\<lambda>allocation investment.
            allocation(inv_type investment \<mapsto>
              slot allocation (inv_type investment) + (currentValue investment / tot) * Num 100))
     m xs ty
   = foldl (\<lambda>entry i.
        Some ((case entry of None \<Rightarrow> Num 0 | Some v \<Rightarrow> if truthy v then v else Num 0)
                + currentValue i / tot * Num 100))
       (m ty) (filter (\<lambda>i. inv_type i = ty) xs)"
  by (induction xs arbitrary: m) (simp_all add: slot_def)

lemma getInvestmentAllocation_entry:
  assumes "\<not> strict_eq (getTotalInvestments investments) (Num 0)"
  shows "getInvestmentAllocation investments ty =
          foldl (\<lambda>entry i.
              Some ((case entry of None \<Rightarrow> Num 0 | Some v \<Rightarrow> if truthy v then v else Num 0)
                      + currentValue i / getTotalInvestments investments * Num 100))
            None (filter (\<lambda>i. inv_isActive i \<and> inv_type i = ty) investments)"
  using assms by (simp add: getInvestmentAllocation_def allocation_per_type)

lemma finite_nonneg: "nonneg a \<and> is_finite a \<longleftrightarrow> (\<exists>x. a = Num x \<and> 0 \<le> x)"
  by (cases a) (auto simp add: is_finite_def is_nan_def is_inf_def)

lemma getInvestmentAllocation_plain:
  assumes t: "\<not> strict_eq (getTotalInvestments investments) (Num 0)"
    and v: "\<forall>i \<in> set investments. inv_isActive i \<longrightarrow>
              nonneg (currentValue i) \<and> is_finite (currentValue i)"
  shows "getInvestmentAllocation investments ty =
     (if filter (\<lambda>i. inv_isActive i \<and> inv_type i = ty) investments = [] then None
      else Some (foldl (\<lambda>sum i. sum + currentValue i / getTotalInvestments investments * Num 100)
                  (Num 0) (filter (\<lambda>i. inv_isActive i \<and> inv_type i = ty) investments)))"
proof -
  have tn: "nonneg (getTotalInvestments investments)"
    using v by (intro getTotalInvestments_nonneg) auto
  have "\<forall>i \<in> set (filter (\<lambda>i. inv_isActive i \<and> inv_type i = ty) investments).
          nonneg (currentValue i / getTotalInvestments investments * Num 100)"
  proof
    fix i
    assume "i \<in> set (filter (\<lambda>i. inv_isActive i \<and> inv_type i = ty) investments)"
    with v have "nonneg (currentValue i) \<and> is_finite (currentValue i)" by simp
    then obtain x where "currentValue i = Num x" "0 \<le> x"
      using finite_nonneg[of "currentValue i"] by blast
    then show "nonneg (currentValue i / getTotalInvestments investments * Num 100)"
      using share_nonneg[OF _ tn t, of x] by simp
  qed
  then show ?thesis
    by (simp only: getInvestmentAllocation_entry[OF t] entry_fold_plain_None)
qed

text \<open>
  C8. \<open>getInvestmentAllocation\<close> returns the empty mapping when the total of the current
  values of the active investments is zero, in particular for no investments at all; the
  function is total and divides only in the other case, by a total that is not zero.
  When the total is not zero, the entry of a type is built from the active investments
  of that type, in order, each adding \<open>(currentValue / total) \<times> 100\<close> to the entry (an
  entry that is missing, zero or NaN counts as \<open>0\<close> before the addition); a type with no
  active investment has no entry. When moreover the current values of the active
  investments are finite and not negative, no entry is ever NaN or a negative zero, and
  the entry of a type is the plain sum, from left to right, of the shares of its active
  investments.
\<close>

theorem getInvestmentAllocation_spec:
  "getInvestmentAllocation [] = Map.empty
   \<and> (strict_eq (getTotalInvestments investments) (Num 0) \<longrightarrow>
        getInvestmentAllocation investments = Map.empty)
   \<and> (\<not> strict_eq (getTotalInvestments investments) (Num 0) \<longrightarrow>
        getInvestmentAllocation investments ty =
          foldl (\<lambda>entry i.
              Some ((case entry of None \<Rightarrow> Num 0 | Some v \<Rightarrow> if truthy v then v else Num 0)
                      + currentValue i / getTotalInvestments investments * Num 100))
            None (filter (\<lambda>i. inv_isActive i \<and> inv_type i = ty) investments))
   \<and> (\<not> strict_eq (getTotalInvestments investments) (Num 0)
        \<and> (\<forall>i \<in> set investments. inv_isActive i \<longrightarrow>
              nonneg (currentValue i) \<and> is_finite (currentValue i)) \<longrightarrow>
        getInvestmentAllocation investments ty =
          (if filter (\<lambda>i. inv_isActive i \<and> inv_type i = ty) investments = [] then None
           else Some (foldl (\<lambda>sum i.
                          sum + currentValue i / getTotalInvestments investments * Num 100)
                        (Num 0)
                        (filter (\<lambda>i. inv_isActive i \<and> inv_type i = ty) investments))))"
proof (intro conjI impI)
  show "getInvestmentAllocation [] = Map.empty"
    by (simp add: getInvestmentAllocation_def getTotalInvestments_def strict_eq_def is_nan_def)
  show "getInvestmentAllocation investments = Map.empty"
    if "strict_eq (getTotalInvestments investments) (Num 0)"
    using that by (simp add: getInvestmentAllocation_def)
  show "getInvestmentAllocation investments ty =
          foldl (\<lambda>entry i.
              Some ((case entry of None \<Rightarrow> Num 0 | Some v \<Rightarrow> if truthy v then v else Num 0)
                      + currentValue i / getTotalInvestments investments * Num 100))
            None (filter (\<lambda>i. inv_isActive i \<and> inv_type i = ty) investments)"
    if "\<not> strict_eq (getTotalInvestments investments) (Num 0)"
    using that by (rule getInvestmentAllocation_entry)
  show "getInvestmentAllocation investments ty =
          (if filter (\<lambda>i. inv_isActive i \<and> inv_type i = ty) investments = [] then None
           else Some (foldl (\<lambda>sum i.
                          sum + currentValue i / getTotalInvestments investments * Num 100)
                        (Num 0)
                        (filter (\<lambda>i. inv_isActive i \<and> inv_type i = ty) investments)))"
    if "\<not> strict_eq (getTotalInvestments investments) (Num 0)
        \<and> (\<forall>i \<in> set investments. inv_isActive i \<longrightarrow>
              nonneg (currentValue i) \<and> is_finite (currentValue i))"
    using that by (intro getInvestmentAllocation_plain) auto
qed

lemma sample_allocation:
  "\<not> strict_eq (getTotalInvestments
        [sampleInvestment RendaFixa (Num 300) True, sampleInvestment Fundos (Num 100) True,
         sampleInvestment RendaFixa (Num 100) False]) (Num 0)"
  "getInvestmentAllocation
        [sampleInvestment RendaFixa (Num 300) True, sampleInvestment Fundos (Num 100) True,
         sampleInvestment RendaFixa (Num 100) False] RendaFixa = Some (Num 75)"
  "getInvestmentAllocation
        [sampleInvestment RendaFixa (Num 300) True, sampleInvestment Fundos (Num 100) True,
         sampleInvestment RendaFixa (Num 100) False] Fundos = Some (Num 25)"
  "strict_eq (getTotalInvestments [sampleInvestment RendaFixa (Num 0) True]) (Num 0)"
  by code_simp+

theorem getInvestmentAllocation_spec_witness:
  "\<not> strict_eq (getTotalInvestments
        [sampleInvestment RendaFixa (Num 300) True, sampleInvestment Fundos (Num 100) True,
         sampleInvestment RendaFixa (Num 100) False]) (Num 0)
   \<and> nonneg (Num 300) \<and> is_finite (Num 300) \<and> nonneg (Num 100) \<and> is_finite (Num 100)
   \<and> getInvestmentAllocation
        [sampleInvestment RendaFixa (Num 300) True, sampleInvestment Fundos (Num 100) True,
         sampleInvestment RendaFixa (Num 100) False] RendaFixa = Some (Num 75)
   \<and> getInvestmentAllocation
        [sampleInvestment RendaFixa (Num 300) True, sampleInvestment Fundos (Num 100) True,
         sampleInvestment RendaFixa (Num 100) False] Fundos = Some (Num 25)
   \<and> getInvestmentAllocation
        [sampleInvestment RendaFixa (Num 300) True, sampleInvestment Fundos (Num 100) True,
         sampleInvestment RendaFixa (Num 100) False] Outros = None
   \<and> strict_eq (getTotalInvestments [sampleInvestment RendaFixa (Num 0) True]) (Num 0)
   \<and> getInvestmentAllocation [sampleInvestment RendaFixa (Num 0) True] = Map.empty"
proof -
  have f: "nonneg (Num 300) \<and> is_finite (Num 300) \<and> nonneg (Num 100) \<and> is_finite (Num 100)"
    by (simp add: is_finite_def is_nan_def is_inf_def)
  have v: "\<forall>i \<in> set [sampleInvestment RendaFixa (Num 300) True,
        sampleInvestment Fundos (Num 100) True, sampleInvestment RendaFixa (Num 100) False].
      inv_isActive i \<longrightarrow> nonneg (currentValue i) \<and> is_finite (currentValue i)"
    by (simp add: sampleInvestment_def is_finite_def is_nan_def is_inf_def)
  from getInvestmentAllocation_spec[of "[sampleInvestment RendaFixa (Num 300) True,
        sampleInvestment Fundos (Num 100) True, sampleInvestment RendaFixa (Num 100) False]"
      Outros] sample_allocation(1) v
  have o: "getInvestmentAllocation
        [sampleInvestment RendaFixa (Num 300) True, sampleInvestment Fundos (Num 100) True,
         sampleInvestment RendaFixa (Num 100) False] Outros = None"
    by (simp add: sampleInvestment_def)
  from getInvestmentAllocation_spec[of "[sampleInvestment RendaFixa (Num 0) True]" RendaFixa]
    sample_allocation f o
  show ?thesis by simp
qed

section \<open>Upcoming and overdue transactions\<close>

lemma newDate_whole: "\<bar>k\<bar> \<le> maxTime \<Longrightarrow> newDate (Num (of_int k)) = DateTime k"
proof -
  assume "\<bar>k\<bar> \<le> maxTime"
  then have "(of_int \<bar>k\<bar> :: rat) \<le> of_int maxTime" by (simp only: of_int_le_iff)
  then have "\<not> of_int maxTime < \<bar>of_int k :: rat\<bar>" by simp
  then show ?thesis by (simp add: truncate_rat_def)
qed

lemma futureDate_whole:
  assumes "\<bar>now\<bar> \<le> maxTime" "0 \<le> h" "h * msPerDay \<le> maxTime" "now + h * msPerDay \<le> maxTime"
  shows "newDate (getTime (DateTime now) + Num (of_int h) * Num 24 * Num 60 * Num 60 * Num 1000)
           = DateTime (now + h * msPerDay)"
proof -
  have m: "maxTime \<le> 2 ^ 53" by (simp add: maxTime_def)
  have hb: "h * 86400000 \<le> 2 ^ 53" using assms(3) m by (simp add: msPerDay_def)
  have h24: "h * 24 \<le> 2 ^ 53" and h1440: "h * 24 * 60 \<le> 2 ^ 53"
    and h86400: "h * 24 * 60 * 60 \<le> 2 ^ 53"
    using hb assms(2) by simp_all
  have a: "Num (of_int h) * Num 24 = Num (of_int (h * 24))"
    using mul_int[of h 24] assms(2) h24 by simp
  have b: "Num (of_int (h * 24)) * Num 60 = Num (of_int (h * 24 * 60))"
    using mul_int[of "h * 24" 60] assms(2) h1440 by simp
  have c: "Num (of_int (h * 24 * 60)) * Num 60 = Num (of_int (h * 24 * 60 * 60))"
    using mul_int[of "h * 24 * 60" 60] assms(2) h86400 by simp
  have d: "Num (of_int (h * 24 * 60 * 60)) * Num 1000 = Num (of_int (h * msPerDay))"
    using mul_int[of "h * 24 * 60 * 60" 1000] assms(2) hb by (simp add: msPerDay_def)
  have lo: "- maxTime \<le> now + h * msPerDay"
    using assms(1,2) by (simp add: msPerDay_def)
  then have r: "\<bar>now + h * msPerDay\<bar> \<le> maxTime" using assms(4) by simp
  then have e: "Num (of_int now) + Num (of_int (h * msPerDay)) = Num (of_int (now + h * msPerDay))"
    using m by (intro add_int) simp
  have "newDate (Num (of_int (now + h * msPerDay))) = DateTime (now + h * msPerDay)"
    using r by (rule newDate_whole)
  then show ?thesis by (simp only: getTime.simps a b c d e)
qed

lemma getFutureTransactions_whole:
  assumes "\<bar>now\<bar> \<le> maxTime" "0 \<le> h" "h * msPerDay \<le> maxTime" "now + h * msPerDay \<le> maxTime"
  shows "getFutureTransactions now transactions (Num (of_int h)) =
     filter (\<lambda>t. status t = Pendente \<and> date_le (DateTime now) (effectiveDate t)
                  \<and> date_le (effectiveDate t) (DateTime (now + h * msPerDay))) transactions"
  unfolding getFutureTransactions_def Let_def futureDate_whole[OF assms]
  by (rule filter_cong) auto

lemma getOverdueTransactions_filter:
  "getOverdueTransactions now transactions =
     filter (\<lambda>t. status t = Pendente \<and> date_lt (effectiveDate t) (DateTime now)) transactions"
  unfolding getOverdueTransactions_def Let_def
  by (rule filter_cong) auto

text \<open>
  C5. Take an evaluation instant \<open>now\<close> and a horizon of \<open>h\<close> whole days that ends within
  the range of \<^verbatim>\<open>Date\<close>. The future transactions are the pending ones whose effective
  date lies in \<open>[now, now + h days]\<close>, bounds included; the overdue ones are the pending
  ones whose effective date is strictly before \<open>now\<close>; the effective date is the
  scheduled date when there is one and the date otherwise. So, with the horizon of 30
  days, a pending transaction scheduled 5 days after \<open>now\<close> is among the future
  transactions and not among the overdue ones, and one scheduled 5 days before \<open>now\<close> is
  among the overdue ones and not among the future ones.
\<close>

theorem future_and_overdue:
  "\<bar>now\<bar> \<le> maxTime \<and> 0 \<le> h \<and> h * msPerDay \<le> maxTime \<and> now + h * msPerDay \<le> maxTime \<longrightarrow>
     (t \<in> set (getFutureTransactions now transactions (Num (of_int h))) \<longleftrightarrow>
        t \<in> set transactions \<and> status t = Pendente
        \<and> date_le (DateTime now) (effectiveDate t)
        \<and> date_le (effectiveDate t) (DateTime (now + h * msPerDay)))
     \<and> (t \<in> set (getOverdueTransactions now transactions) \<longleftrightarrow>
        t \<in> set transactions \<and> status t = Pendente
        \<and> date_lt (effectiveDate t) (DateTime now))
     \<and> effectiveDate t = (case scheduledDate t of Some d \<Rightarrow> d | None \<Rightarrow> date t)
     \<and> (h = 30 \<and> t \<in> set transactions \<and> status t = Pendente
          \<and> scheduledDate t = Some (DateTime (now + 5 * msPerDay)) \<longrightarrow>
        t \<in> set (getFutureTransactions now transactions (Num 30))
        \<and> t \<notin> set (getOverdueTransactions now transactions))
     \<and> (h = 30 \<and> t \<in> set transactions \<and> status t = Pendente
          \<and> scheduledDate t = Some (DateTime (now - 5 * msPerDay)) \<longrightarrow>
        t \<in> set (getOverdueTransactions now transactions)
        \<and> t \<notin> set (getFutureTransactions now transactions (Num 30)))"
proof (intro impI)
  assume r: "\<bar>now\<bar> \<le> maxTime \<and> 0 \<le> h \<and> h * msPerDay \<le> maxTime \<and> now + h * msPerDay \<le> maxTime"
  then have f: "getFutureTransactions now transactions (Num (of_int h)) =
     filter (\<lambda>t. status t = Pendente \<and> date_le (DateTime now) (effectiveDate t)
                  \<and> date_le (effectiveDate t) (DateTime (now + h * msPerDay))) transactions"
    by (intro getFutureTransactions_whole) auto
  show "(t \<in> set (getFutureTransactions now transactions (Num (of_int h))) \<longleftrightarrow>
        t \<in> set transactions \<and> status t = Pendente
        \<and> date_le (DateTime now) (effectiveDate t)
        \<and> date_le (effectiveDate t) (DateTime (now + h * msPerDay)))
     \<and> (t \<in> set (getOverdueTransactions now transactions) \<longleftrightarrow>
        t \<in> set transactions \<and> status t = Pendente
        \<and> date_lt (effectiveDate t) (DateTime now))
     \<and> effectiveDate t = (case scheduledDate t of Some d \<Rightarrow> d | None \<Rightarrow> date t)
     \<and> (h = 30 \<and> t \<in> set transactions \<and> status t = Pendente
          \<and> scheduledDate t = Some (DateTime (now + 5 * msPerDay)) \<longrightarrow>
        t \<in> set (getFutureTransactions now transactions (Num 30))
        \<and> t \<notin> set (getOverdueTransactions now transactions))
     \<and> (h = 30 \<and> t \<in> set transactions \<and> status t = Pendente
          \<and> scheduledDate t = Some (DateTime (now - 5 * msPerDay)) \<longrightarrow>
        t \<in> set (getOverdueTransactions now transactions)
        \<and> t \<notin> set (getFutureTransactions now transactions (Num 30)))"
  proof (intro conjI impI)
    show "t \<in> set (getFutureTransactions now transactions (Num (of_int h))) \<longleftrightarrow>
        t \<in> set transactions \<and> status t = Pendente
        \<and> date_le (DateTime now) (effectiveDate t)
        \<and> date_le (effectiveDate t) (DateTime (now + h * msPerDay))"
      by (simp add: f)
    show "t \<in> set (getOverdueTransactions now transactions) \<longleftrightarrow>
        t \<in> set transactions \<and> status t = Pendente
        \<and> date_lt (effectiveDate t) (DateTime now)"
      by (simp add: getOverdueTransactions_filter)
    show "effectiveDate t = (case scheduledDate t of Some d \<Rightarrow> d | None \<Rightarrow> date t)"
      by (simp add: effectiveDate_def)
  next
    assume s: "h = 30 \<and> t \<in> set transactions \<and> status t = Pendente
          \<and> scheduledDate t = Some (DateTime (now + 5 * msPerDay))"
    with f have f30: "getFutureTransactions now transactions (Num 30) =
     filter (\<lambda>t. status t = Pendente \<and> date_le (DateTime now) (effectiveDate t)
                  \<and> date_le (effectiveDate t) (DateTime (now + 30 * msPerDay))) transactions"
      by simp
    from s show "t \<in> set (getFutureTransactions now transactions (Num 30))"
      by (simp add: f30 effectiveDate_def msPerDay_def)
    from s show "t \<notin> set (getOverdueTransactions now transactions)"
      by (simp add: getOverdueTransactions_filter effectiveDate_def msPerDay_def)
  next
    assume s: "h = 30 \<and> t \<in> set transactions \<and> status t = Pendente
          \<and> scheduledDate t = Some (DateTime (now - 5 * msPerDay))"
    with f have f30: "getFutureTransactions now transactions (Num 30) =
     filter (\<lambda>t. status t = Pendente \<and> date_le (DateTime now) (effectiveDate t)
                  \<and> date_le (effectiveDate t) (DateTime (now + 30 * msPerDay))) transactions"
      by simp
    from s show "t \<in> set (getOverdueTransactions now transactions)"
      by (simp add: getOverdueTransactions_filter effectiveDate_def msPerDay_def)
    from s show "t \<notin> set (getFutureTransactions now transactions (Num 30))"
      by (simp add: f30 effectiveDate_def msPerDay_def)
  qed
qed

theorem future_and_overdue_witness:
  "\<bar>1706702400000\<bar> \<le> maxTime \<and> (0::int) \<le> 30 \<and> 30 * msPerDay \<le> maxTime
   \<and> 1706702400000 + 30 * msPerDay \<le> maxTime
   \<and> (sampleTransaction Despesa Pendente (Num 200))
         \<lparr> scheduledDate := Some (DateTime 1707134400000) \<rparr>
       \<in> set (getFutureTransactions 1706702400000
           [(sampleTransaction Despesa Pendente (Num 200))
              \<lparr> scheduledDate := Some (DateTime 1707134400000) \<rparr>,
            (sampleTransaction Despesa Pendente (Num 200))
              \<lparr> scheduledDate := Some (DateTime 1706270400000) \<rparr>] (Num 30))
   \<and> (sampleTransaction Despesa Pendente (Num 200))
         \<lparr> scheduledDate := Some (DateTime 1707134400000) \<rparr>
       \<notin> set (getOverdueTransactions 1706702400000
           [(sampleTransaction Despesa Pendente (Num 200))
              \<lparr> scheduledDate := Some (DateTime 1707134400000) \<rparr>,
            (sampleTransaction Despesa Pendente (Num 200))
              \<lparr> scheduledDate := Some (DateTime 1706270400000) \<rparr>])
   \<and> (sampleTransaction Despesa Pendente (Num 200))
         \<lparr> scheduledDate := Some (DateTime 1706270400000) \<rparr>
       \<in> set (getOverdueTransactions 1706702400000
           [(sampleTransaction Despesa Pendente (Num 200))
              \<lparr> scheduledDate := Some (DateTime 1707134400000) \<rparr>,
            (sampleTransaction Despesa Pendente (Num 200))
              \<lparr> scheduledDate := Some (DateTime 1706270400000) \<rparr>])
   \<and> (sampleTransaction Despesa Pendente (Num 200))
         \<lparr> scheduledDate := Some (DateTime 1706270400000) \<rparr>
       \<notin> set (getFutureTransactions 1706702400000
           [(sampleTransaction Despesa Pendente (Num 200))
              \<lparr> scheduledDate := Some (DateTime 1707134400000) \<rparr>,
            (sampleTransaction Despesa Pendente (Num 200))
              \<lparr> scheduledDate := Some (DateTime 1706270400000) \<rparr>] (Num 30))"
proof -
  let ?later = "(sampleTransaction Despesa Pendente (Num 200))
         \<lparr> scheduledDate := Some (DateTime 1707134400000) \<rparr>"
  let ?earlier = "(sampleTransaction Despesa Pendente (Num 200))
         \<lparr> scheduledDate := Some (DateTime 1706270400000) \<rparr>"
  have r: "\<bar>1706702400000\<bar> \<le> maxTime \<and> (0::int) \<le> 30 \<and> 30 * msPerDay \<le> maxTime
     \<and> 1706702400000 + 30 * msPerDay \<le> maxTime"
    by (simp add: maxTime_def msPerDay_def)
  have l: "status ?later = Pendente"
    "scheduledDate ?later = Some (DateTime (1706702400000 + 5 * msPerDay))"
    by (simp_all add: sampleTransaction_def msPerDay_def)
  have e: "status ?earlier = Pendente"
    "scheduledDate ?earlier = Some (DateTime (1706702400000 - 5 * msPerDay))"
    by (simp_all add: sampleTransaction_def msPerDay_def)
  from future_and_overdue[of 1706702400000 30 ?later "[?later, ?earlier]"] r l
  have 1: "?later \<in> set (getFutureTransactions 1706702400000 [?later, ?earlier] (Num 30))
     \<and> ?later \<notin> set (getOverdueTransactions 1706702400000 [?later, ?earlier])"
    by simp
  from future_and_overdue[of 1706702400000 30 ?earlier "[?later, ?earlier]"] r e
  have 2: "?earlier \<in> set (getOverdueTransactions 1706702400000 [?later, ?earlier])
     \<and> ?earlier \<notin> set (getFutureTransactions 1706702400000 [?later, ?earlier] (Num 30))"
    by simp
  from r 1 2 show ?thesis by simp
qed

section \<open>The monthly report\<close>

text \<open>
  The fields of the report, over the transactions of the window: the totals of income
  and expenses and their difference; for a category, the amounts of all the
  transactions of the window in that category, whatever their type or status, added in
  order (an entry that is zero or NaN counting as \<open>0\<close>); for an account id, the cached
  balance of the last account with that id. Under a name that every object inherits
  the breakdown holds a string as soon as a transaction of the window has that category,
  and under \<^verbatim>\<open>__proto__\<close> neither dictionary ever holds anything.
\<close>

lemma categoryStep_other: "categoryId t \<noteq> k \<Longrightarrow> categoryStep m t k = m k"
proof (cases "m (categoryId t)")
  case None
  then show "categoryId t \<noteq> k \<Longrightarrow> categoryStep m t k = m k"
    by (simp add: categoryStep_def Let_def)
next
  case (Some e)
  then show "categoryId t \<noteq> k \<Longrightarrow> categoryStep m t k = m k"
    by (cases e) (simp_all add: categoryStep_def Let_def)
qed

lemma categoryStep_own:
  assumes "categoryId t = k" "k \<notin> set inheritedNames" "m k \<noteq> Some StringEntry"
  shows "categoryStep m t k
    = Some (NumberEntry
        ((case m k of Some (NumberEntry v) \<Rightarrow> if truthy v then v else Num 0 | _ \<Rightarrow> Num 0)
           + amount t))"
proof -
  have "k \<noteq> ''__proto__''" using assms(2) by (auto simp add: inheritedNames_def)
  with assms show ?thesis
  proof (cases "m k")
    case None
    with assms \<open>k \<noteq> ''__proto__''\<close> show ?thesis by (simp add: categoryStep_def Let_def)
  next
    case (Some e)
    with assms show ?thesis by (cases e) (simp_all add: categoryStep_def Let_def)
  qed
qed

lemma category_per_key:
  "k \<notin> set inheritedNames \<Longrightarrow> m k \<noteq> Some StringEntry \<Longrightarrow>
   foldl categoryStep m xs k
   = foldl (\<lambda>entry t.
        Some (NumberEntry
          ((case entry of Some (NumberEntry v) \<Rightarrow> if truthy v then v else Num 0
            | _ \<Rightarrow> Num 0) + amount t)))
       (m k) (filter (\<lambda>t. categoryId t = k) xs)"
proof (induction xs arbitrary: m)
  case Nil
  then show ?case by simp
next
  case (Cons x xs)
  show ?case
  proof (cases "categoryId x = k")
    case True
    note own = categoryStep_own[where m = m, OF True Cons.prems]
    have "categoryStep m x k \<noteq> Some StringEntry" by (simp add: own)
    from Cons.IH[of "categoryStep m x", OF Cons.prems(1) this] show ?thesis
      by (simp add: True own)
  next
    case False
    note other = categoryStep_other[OF False, of m]
    have "categoryStep m x k \<noteq> Some StringEntry" using Cons.prems(2) by (simp add: other)
    from Cons.IH[of "categoryStep m x", OF Cons.prems(1) this] show ?thesis
      by (simp add: False other)
  qed
qed

lemma category_inherited:
  "k \<in> set inheritedNames \<Longrightarrow> m k = None \<or> (m k = Some StringEntry \<and> k \<noteq> ''__proto__'') \<Longrightarrow>
   foldl categoryStep m xs k
   = (if k = ''__proto__'' \<or> filter (\<lambda>t. categoryId t = k) xs = [] then m k
      else Some StringEntry)"
proof (induction xs arbitrary: m)
  case Nil
  then show ?case by simp
next
  case (Cons x xs)
  show ?case
  proof (cases "categoryId x = k")
    case True
    have s: "categoryStep m x k = (if k = ''__proto__'' then None else Some StringEntry)"
      using Cons.prems True by (auto simp add: categoryStep_def Let_def)
    then have "categoryStep m x k = None
        \<or> (categoryStep m x k = Some StringEntry \<and> k \<noteq> ''__proto__'')"
      by simp
    from Cons.IH[of "categoryStep m x", OF Cons.prems(1) this] Cons.prems(2) s show ?thesis
      by (auto simp add: True split: if_splits)
  next
    case False
    note other = categoryStep_other[OF False, of m]
    have "categoryStep m x k = None
        \<or> (categoryStep m x k = Some StringEntry \<and> k \<noteq> ''__proto__'')"
      using Cons.prems(2) by (simp add: other)
    from Cons.IH[of "categoryStep m x", OF Cons.prems(1) this] show ?thesis
      by (simp add: False other)
  qed
qed

lemma accountBalances_lookup:
  "foldl (\<lambda>m a. if acc_id a = ''__proto__'' then m else m(acc_id a \<mapsto> balance a)) m xs k
   = (if k = ''__proto__'' then m k
      else case filter (\<lambda>a. acc_id a = k) xs of [] \<Rightarrow> m k | ys \<Rightarrow> Some (balance (last ys)))"
proof (induction xs arbitrary: m)
  case Nil
  then show ?case by simp
next
  case (Cons x xs)
  then show ?case by (simp split: list.splits)
qed

lemma generateMonthlyReport_fields:
  fixes utc transactions accounts mon yr
  defines "window \<equiv> filter (\<lambda>t. date_le (newDateYMD utc yr (mon - 1) 1) (date t)
                              \<and> date_le (date t) (newDateYMD utc yr mon 0)) transactions"
  defines "report \<equiv> generateMonthlyReport utc transactions accounts mon yr"
  shows "month report = mon" and "year report = yr"
    and "totalIncome report = getTotalIncome window"
    and "totalExpenses report = getTotalExpenses window"
    and "reportBalance report = getTotalIncome window - getTotalExpenses window"
    and "k \<notin> set inheritedNames \<Longrightarrow> categoryBreakdown report k =
           foldl (\<lambda>entry t.
               Some (NumberEntry
                 ((case entry of Some (NumberEntry v) \<Rightarrow> if truthy v then v else Num 0
                   | _ \<Rightarrow> Num 0) + amount t)))
             None (filter (\<lambda>t. categoryId t = k) window)"
    and "k \<in> set inheritedNames \<Longrightarrow> categoryBreakdown report k =
           (if k = ''__proto__'' \<or> filter (\<lambda>t. categoryId t = k) window = [] then None
            else Some StringEntry)"
    and "accountBalances report k =
           (if k = ''__proto__'' then None
            else case filter (\<lambda>a. acc_id a = k) accounts of
              [] \<Rightarrow> None | ys \<Rightarrow> Some (balance (last ys)))"
  unfolding report_def window_def generateMonthlyReport_def getTransactionsByPeriod_def Let_def
  by (simp_all add: category_per_key category_inherited accountBalances_lookup)

text \<open>
  The end of the window is the first instant of the last day of the month, one day
  before the next month begins; a transaction dated after it is not in the window, also
  when its date is on that last day.
\<close>

lemma last_day_starts_a_day_before_next_month:
  "MakeDay yr mon 0 * msPerDay + msPerDay = MakeDay yr mon 1 * msPerDay"
  by (simp add: MakeDay_def Let_def algebra_simps)

lemma after_end_not_in_window:
  "newDateYMD utc yr mon 0 = DateTime e \<Longrightarrow> date t = DateTime d \<Longrightarrow> e < d \<Longrightarrow>
     t \<notin> set (getTransactionsByPeriod transactions
                  (newDateYMD utc yr (mon - 1) 1) (newDateYMD utc yr mon 0))"
  by (simp add: getTransactionsByPeriod_def)

text \<open>
  C4. The report of a month covers the transactions dated from the first day of the
  month through its last day. Evaluated in UTC for January 2024 on one completed income
  of 500 dated 31 January at noon: the start of the window is 1 January 00:00, its end is
  31 January 00:00 (February begins a day later), and the transaction, later on the last
  day than the end of the window, is left out: the income of the month is \<open>0\<close> and its
  category has no entry. Dated 31 January 00:00 the same transaction is counted.
\<close>

theorem generateMonthlyReport_last_day:
  "date (sampleTransaction Receita Concluida (Num 500)) = DateTime 1706702400000
   \<and> newDateYMD id 2024 (1 - 1) 1 = DateTime 1704067200000
   \<and> newDateYMD id 2024 1 0 = DateTime 1706659200000
   \<and> newDateYMD id 2024 1 1 = DateTime 1706745600000
   \<and> totalIncome
       (generateMonthlyReport id [sampleTransaction Receita Concluida (Num 500)] [] 1 2024)
     = Num 0
   \<and> categoryBreakdown
       (generateMonthlyReport id [sampleTransaction Receita Concluida (Num 500)] [] 1 2024)
       ''cat1''
     = None
   \<and> totalIncome
       (generateMonthlyReport id
          [(sampleTransaction Receita Concluida (Num 500)) \<lparr> date := DateTime 1706659200000 \<rparr>]
          [] 1 2024)
     = Num 500"
  by code_simp

end
